theory Spec2Isabelle
  imports Complex_Main
begin

section \<open>Arrays\<close>

text \<open>
  A numpy array is a shape and a buffer of elements in row-major order. Array elements are
  taken in exact real arithmetic: the rounding of float64 is not modelled.
\<close>

record 'a ndarray =
  shape :: "nat list"
  data :: "'a list"

text \<open>The offset of a multi-index in the row-major buffer.\<close>

fun ravel :: "nat list \<Rightarrow> nat list \<Rightarrow> nat" where
  "ravel (d # ds) (i # js) = i * prod_list ds + ravel ds js"
| "ravel _ _ = 0"

text \<open>All multi-indices of a shape, in row-major order.\<close>

fun indices :: "nat list \<Rightarrow> nat list list" where
  "indices [] = [[]]"
| "indices (d # ds) = concat (map (\<lambda>i. map ((#) i) (indices ds)) [0..<d])"

definition mk :: "nat list \<Rightarrow> (nat list \<Rightarrow> 'a) \<Rightarrow> 'a ndarray" where
  "mk sh f = \<lparr>shape = sh, data = map f (indices sh)\<rparr>"

definition elt :: "'a ndarray \<Rightarrow> nat list \<Rightarrow> 'a" where
  "elt a idx = data a ! ravel (shape a) idx"

definition valid_idx :: "nat list \<Rightarrow> nat list \<Rightarrow> bool" where
  "valid_idx sh idx = list_all2 (<) idx sh"

definition has_shape :: "'a ndarray \<Rightarrow> nat list \<Rightarrow> bool" where
  "has_shape a sh = (shape a = sh \<and> length (data a) = prod_list sh)"

definition np_zeros :: "nat list \<Rightarrow> real ndarray" where
  "np_zeros sh = mk sh (\<lambda>_. 0)"

text \<open>Multiplication of an array by a Python scalar.\<close>

definition scale :: "real \<Rightarrow> real ndarray \<Rightarrow> real ndarray" where
  "scale c a = \<lparr>shape = shape a, data = map (\<lambda>v. c * v) (data a)\<rparr>"

text \<open>
  \<open>a.astype(dtype)\<close>: a dtype is given by its rounding function on the reals (the
  identity for float64 in this model).
\<close>

definition astype :: "(real \<Rightarrow> real) \<Rightarrow> real ndarray \<Rightarrow> real ndarray" where
  "astype dtype a = \<lparr>shape = shape a, data = map dtype (data a)\<rparr>"

text \<open>Python's \<open>int(r)\<close> on a float: truncation toward zero.\<close>

definition py_int :: "real \<Rightarrow> int" where
  "py_int r = (if 0 \<le> r then \<lfloor>r\<rfloor> else \<lceil>r\<rceil>)"

section \<open>Exceptions\<close>

datatype error = ValueError | KeyError | TypeError | IndexError | ZeroDivisionError | AttributeError

definition rbind :: "error + 'a \<Rightarrow> ('a \<Rightarrow> error + 'b) \<Rightarrow> error + 'b" where
  "rbind r f = (case r of Inl e \<Rightarrow> Inl e | Inr v \<Rightarrow> f v)"

text \<open>A \<open>for\<close> loop over a list of indices, with the state it updates; an exception ends it.\<close>

fun for_loop :: "nat list \<Rightarrow> (nat \<Rightarrow> 's \<Rightarrow> error + 's) \<Rightarrow> 's \<Rightarrow> error + 's" where
  "for_loop [] body s = Inr s"
| "for_loop (i # rest) body s = rbind (body i s) (for_loop rest body)"

section \<open>Operations of numpy\<close>

text \<open>
  Broadcasting aligns two shapes at their last axis; two extents are compatible when they
  are equal or one of them is 1, and numpy raises ValueError otherwise.
\<close>

fun broadcast_rev :: "nat list \<Rightarrow> nat list \<Rightarrow> error + nat list" where
  "broadcast_rev [] ys = Inr ys"
| "broadcast_rev xs [] = Inr xs"
| "broadcast_rev (x # xs) (y # ys) =
     (if x = y \<or> y = 1 then rbind (broadcast_rev xs ys) (\<lambda>zs. Inr (x # zs))
      else if x = 1 then rbind (broadcast_rev xs ys) (\<lambda>zs. Inr (y # zs))
      else Inl ValueError)"

definition broadcast_shapes :: "nat list \<Rightarrow> nat list \<Rightarrow> error + nat list" where
  "broadcast_shapes s t = rbind (broadcast_rev (rev s) (rev t)) (\<lambda>zs. Inr (rev zs))"

text \<open>The index into an operand of shape \<open>s\<close> for the index \<open>idx\<close> of the broadcast result.\<close>

definition bidx :: "nat list \<Rightarrow> nat list \<Rightarrow> nat list" where
  "bidx s idx = map2 (\<lambda>d i. if d = 1 then 0 else i) s (drop (length idx - length s) idx)"

definition ufunc2 :: "(real \<Rightarrow> real \<Rightarrow> real) \<Rightarrow> real ndarray \<Rightarrow> real ndarray \<Rightarrow> error + real ndarray" where
  "ufunc2 f a b =
     rbind (broadcast_shapes (shape a) (shape b))
       (\<lambda>sh. Inr (mk sh (\<lambda>idx. f (elt a (bidx (shape a) idx)) (elt b (bidx (shape b) idx)))))"

definition np_add :: "real ndarray \<Rightarrow> real ndarray \<Rightarrow> error + real ndarray" where
  "np_add = ufunc2 (+)"

definition np_sub :: "real ndarray \<Rightarrow> real ndarray \<Rightarrow> error + real ndarray" where
  "np_sub = ufunc2 (-)"

definition np_mul :: "real ndarray \<Rightarrow> real ndarray \<Rightarrow> error + real ndarray" where
  "np_mul = ufunc2 (*)"

definition np_div :: "real ndarray \<Rightarrow> real ndarray \<Rightarrow> error + real ndarray" where
  "np_div = ufunc2 (/)"

text \<open>An elementwise function of one array.\<close>

definition ufunc1 :: "(real \<Rightarrow> real) \<Rightarrow> real ndarray \<Rightarrow> real ndarray" where
  "ufunc1 f a = \<lparr>shape = shape a, data = map f (data a)\<rparr>"

text \<open>
  \<open>np.mean(x, axis=0, keepdims=True)\<close> and \<open>np.std(x, axis=0, keepdims=True)\<close> of a
  two-dimensional array. Division is the total division of the reals: an empty batch gives 0
  where numpy gives nan.
\<close>

definition np_mean0_keepdims :: "real ndarray \<Rightarrow> real ndarray" where
  "np_mean0_keepdims x =
     mk [1, shape x ! 1] (\<lambda>idx. (\<Sum>n \<leftarrow> [0..<shape x ! 0]. elt x [n, idx ! 1]) / real (shape x ! 0))"

definition np_std0_keepdims :: "real ndarray \<Rightarrow> real ndarray" where
  "np_std0_keepdims x =
     mk [1, shape x ! 1] (\<lambda>idx. sqrt ((\<Sum>n \<leftarrow> [0..<shape x ! 0].
          \<bar>elt x [n, idx ! 1] - elt (np_mean0_keepdims x) [0, idx ! 1]\<bar>\<^sup>2) / real (shape x ! 0)))"


text \<open>
  \<open>a.reshape(n, -1)\<close>: numpy raises ValueError when the known extent \<open>n\<close> is 0 or does
  not divide the size of the array.
\<close>

definition reshape_infer :: "nat \<Rightarrow> real ndarray \<Rightarrow> error + real ndarray" where
  "reshape_infer n a =
     (if n = 0 \<or> length (data a) mod n \<noteq> 0 then Inl ValueError
      else Inr \<lparr>shape = [n, length (data a) div n], data = data a\<rparr>)"

text \<open>\<open>a.reshape(sh)\<close> with every extent given.\<close>

definition reshape :: "real ndarray \<Rightarrow> nat list \<Rightarrow> error + real ndarray" where
  "reshape a sh =
     (if prod_list sh = length (data a) then Inr \<lparr>shape = sh, data = data a\<rparr> else Inl ValueError)"

text \<open>
  \<open>np.dot\<close> of two matrices. On operands of other ranks numpy computes other products; the
  layers use it on matrices only, and the model answers ValueError elsewhere.
\<close>

definition np_dot :: "real ndarray \<Rightarrow> real ndarray \<Rightarrow> error + real ndarray" where
  "np_dot a b =
     (case (shape a, shape b) of
        ([n, k], [k', m]) \<Rightarrow>
          if k = k' then Inr (mk [n, m] (\<lambda>idx. \<Sum>j \<leftarrow> [0..<k]. elt a [idx ! 0, j] * elt b [j, idx ! 1]))
          else Inl ValueError
      | _ \<Rightarrow> Inl ValueError)"

text \<open>\<open>a.T\<close> reverses the axes.\<close>

definition np_T :: "real ndarray \<Rightarrow> real ndarray" where
  "np_T a = mk (rev (shape a)) (\<lambda>idx. elt a (rev idx))"

text \<open>\<open>np.sum(a, axis=0)\<close>.\<close>

definition np_sum0 :: "real ndarray \<Rightarrow> error + real ndarray" where
  "np_sum0 a =
     (case shape a of
        [] \<Rightarrow> Inl ValueError
      | n # sh \<Rightarrow> Inr (mk sh (\<lambda>idx. \<Sum>i \<leftarrow> [0..<n]. elt a (i # idx))))"

text \<open>
  \<open>a[:, :, r0:r1, c0:c1]\<close> on an array with four axes: Python clips the bounds of a slice to
  the extent of the axis.
\<close>

definition slice23 :: "real ndarray \<Rightarrow> nat \<Rightarrow> nat \<Rightarrow> nat \<Rightarrow> nat \<Rightarrow> real ndarray" where
  "slice23 a r0 r1 c0 c1 =
     (let R0 = min r0 (shape a ! 2); R1 = max R0 (min r1 (shape a ! 2));
          C0 = min c0 (shape a ! 3); C1 = max C0 (min c1 (shape a ! 3))
      in mk [shape a ! 0, shape a ! 1, R1 - R0, C1 - C0]
           (\<lambda>idx. elt a [idx ! 0, idx ! 1, R0 + idx ! 2, C0 + idx ! 3]))"

text \<open>
  \<open>np.max(a, axis=(2, 3), keepdims=True)\<close>: numpy raises ValueError when a reduced axis is
  empty.
\<close>

definition np_max23_keepdims :: "real ndarray \<Rightarrow> error + real ndarray" where
  "np_max23_keepdims a =
     (if shape a ! 2 = 0 \<or> shape a ! 3 = 0 then Inl ValueError
      else Inr (mk [shape a ! 0, shape a ! 1, 1, 1]
             (\<lambda>idx. Max (set (concat (map (\<lambda>p. map (\<lambda>q. elt a [idx ! 0, idx ! 1, p, q])
                                [0..<shape a ! 3]) [0..<shape a ! 2]))))))"

text \<open>\<open>a == b\<close>, with the truth values as the numbers 1 and 0 they multiply as.\<close>

definition np_equal :: "real ndarray \<Rightarrow> real ndarray \<Rightarrow> error + real ndarray" where
  "np_equal = ufunc2 (\<lambda>u v. if u = v then 1 else 0)"

text \<open>\<open>a[:, :, r0:r1, c0:c1] += v\<close>: \<open>v\<close> is broadcast to the shape of the slice.\<close>

definition iadd_slice23 ::
  "real ndarray \<Rightarrow> nat \<Rightarrow> nat \<Rightarrow> nat \<Rightarrow> nat \<Rightarrow> real ndarray \<Rightarrow> error + real ndarray" where
  "iadd_slice23 a r0 r1 c0 c1 v =
     (let R0 = min r0 (shape a ! 2); R1 = max R0 (min r1 (shape a ! 2));
          C0 = min c0 (shape a ! 3); C1 = max C0 (min c1 (shape a ! 3));
          ts = [shape a ! 0, shape a ! 1, R1 - R0, C1 - C0]
      in if broadcast_shapes ts (shape v) = Inr ts then
           Inr (mk (shape a)
                 (\<lambda>idx. if R0 \<le> idx ! 2 \<and> idx ! 2 < R1 \<and> C0 \<le> idx ! 3 \<and> idx ! 3 < C1
                        then elt a idx
                             + elt v (bidx (shape v) [idx ! 0, idx ! 1, idx ! 2 - R0, idx ! 3 - C0])
                        else elt a idx))
         else Inl ValueError)"

text \<open>A result that is not an exception.\<close>

definition returns :: "error + 'a \<Rightarrow> bool" where
  "returns r = (case r of Inl _ \<Rightarrow> False | Inr _ \<Rightarrow> True)"

section \<open>Gradients\<close>

text \<open>
  \<open>set_elt a idx v\<close> is the array \<open>a\<close> with the entry at \<open>idx\<close> replaced by \<open>v\<close>, and
  \<open>sum_prod dout out\<close> is \<open>np.sum(dout * out)\<close> for two arrays of one shape. An array \<open>g\<close> is
  the gradient of a scalar function \<open>L\<close> at \<open>a\<close> when it has the shape of \<open>a\<close> and each of its
  entries is the partial derivative of \<open>L\<close> with respect to the same entry of \<open>a\<close>.
\<close>

definition set_elt :: "'a ndarray \<Rightarrow> nat list \<Rightarrow> 'a \<Rightarrow> 'a ndarray" where
  "set_elt a idx v = a\<lparr>data := (data a)[ravel (shape a) idx := v]\<rparr>"

definition sum_prod :: "real ndarray \<Rightarrow> real ndarray \<Rightarrow> real" where
  "sum_prod dout out = (\<Sum>(u, v) \<leftarrow> zip (data dout) (data out). u * v)"

definition is_gradient :: "(real ndarray \<Rightarrow> real) \<Rightarrow> real ndarray \<Rightarrow> real ndarray \<Rightarrow> bool" where
  "is_gradient L a g =
     (shape g = shape a \<and>
      (\<forall>idx. valid_idx (shape a) idx \<longrightarrow>
         ((\<lambda>t. L (set_elt a idx t)) has_real_derivative elt g idx) (at (elt a idx))))"

section \<open>The global random generator of numpy\<close>

text \<open>
  \<open>np.random\<close> keeps a hidden global state. The generator is not code of this repository:
  it is a parameter, given by its seeding function and by the two draws the layers use
  (a uniform variate in [0,1) for \<open>rand\<close>, a standard normal variate for \<open>randn\<close>), each
  returning the variate and the next state.
\<close>

record 'g np_random =
  seed :: "int \<Rightarrow> 'g"
  draw_uniform :: "'g \<Rightarrow> real \<times> 'g"
  draw_normal :: "'g \<Rightarrow> real \<times> 'g"

fun draws :: "('g \<Rightarrow> real \<times> 'g) \<Rightarrow> nat \<Rightarrow> 'g \<Rightarrow> real list \<times> 'g" where
  "draws d 0 g = ([], g)"
| "draws d (Suc n) g =
     (case d g of (v, g') \<Rightarrow> (case draws d n g' of (vs, g'') \<Rightarrow> (v # vs, g'')))"

definition np_random_rand :: "'g np_random \<Rightarrow> nat list \<Rightarrow> 'g \<Rightarrow> real ndarray \<times> 'g" where
  "np_random_rand R sh g =
     (case draws (draw_uniform R) (prod_list sh) g of (vs, g') \<Rightarrow> (\<lparr>shape = sh, data = vs\<rparr>, g'))"

definition np_random_randn :: "'g np_random \<Rightarrow> nat list \<Rightarrow> 'g \<Rightarrow> real ndarray \<times> 'g" where
  "np_random_randn R sh g =
     (case draws (draw_normal R) (prod_list sh) g of (vs, g') \<Rightarrow> (\<lparr>shape = sh, data = vs\<rparr>, g'))"

text \<open>\<open>np.random.seed(s)\<close> accepts the seeds from 0 to \<open>2\<^sup>3\<^sup>2 - 1\<close>.\<close>

definition np_random_seed :: "'g np_random \<Rightarrow> int \<Rightarrow> error + 'g" where
  "np_random_seed R s = (if 0 \<le> s \<and> s < 2 ^ 32 then Inr (seed R s) else Inl ValueError)"

text \<open>
  A concrete generator for evaluating the model: a state is the sequence of variates still
  to come, and seeding with \<open>s\<close> gives the constant sequence of \<open>1 / (2 + |s|)\<close>.
\<close>

definition stream_random :: "(nat \<Rightarrow> real) np_random" where
  "stream_random =
     \<lparr>seed = (\<lambda>s n. 1 / (2 + real_of_int \<bar>s\<bar>)),
      draw_uniform = (\<lambda>g. (g 0, \<lambda>n. g (Suc n))),
      draw_normal = (\<lambda>g. (g 0, \<lambda>n. g (Suc n)))\<rparr>"

section \<open>assignment2/utils/layers.py\<close>

subsection \<open>affine_forward and affine_backward\<close>

text \<open>
  \<open>x.shape[0]\<close> raises IndexError on an array without axes, and \<open>w.shape[1]\<close> on a \<open>w\<close> with
  fewer than two.
\<close>

definition affine_forward ::
  "real ndarray \<Rightarrow> real ndarray \<Rightarrow> real ndarray
     \<Rightarrow> error + real ndarray \<times> (real ndarray \<times> real ndarray \<times> real ndarray)" where
  "affine_forward x w b =
     (case shape x of
        [] \<Rightarrow> Inl IndexError
      | n # _ \<Rightarrow>
          rbind (reshape_infer n x) (\<lambda>x2.
          rbind (np_dot x2 w) (\<lambda>xw.
          (case shape w of
             _ # M # _ \<Rightarrow>
               rbind (reshape b [1, M]) (\<lambda>b2.
               rbind (np_add xw b2) (\<lambda>out.
               Inr (out, (x, w, b))))
           | _ \<Rightarrow> Inl IndexError))))"

definition affine_backward ::
  "real ndarray \<Rightarrow> real ndarray \<times> real ndarray \<times> real ndarray
     \<Rightarrow> error + real ndarray \<times> real ndarray \<times> real ndarray" where
  "affine_backward dout cache =
     (case cache of (x, w, b) \<Rightarrow>
        rbind (np_dot dout (np_T w)) (\<lambda>dxw.
        rbind (reshape dxw (shape x)) (\<lambda>dx.
        (case shape x of
           [] \<Rightarrow> Inl IndexError
         | n # _ \<Rightarrow>
             rbind (reshape_infer n x) (\<lambda>x2.
             rbind (np_dot (np_T x2) dout) (\<lambda>dw.
             rbind (np_sum0 dout) (\<lambda>db.
             Inr (dx, dw, db))))))))"

text \<open>The scalar \<open>np.sum(dout * out)\<close> of the forward pass, as a function of its inputs.\<close>

definition affine_loss :: "real ndarray \<Rightarrow> real ndarray \<Rightarrow> real ndarray \<Rightarrow> real ndarray \<Rightarrow> real" where
  "affine_loss dout x w b =
     (case affine_forward x w b of Inl e \<Rightarrow> 0 | Inr (out, cache) \<Rightarrow> sum_prod dout out)"


subsection \<open>batchnorm_forward\<close>

text \<open>
  \<open>bn_param\<close> is a dictionary with the keys \<open>mode\<close>, \<open>eps\<close>, \<open>momentum\<close>,
  \<open>running_mean\<close> and \<open>running_var\<close>, each of which may be absent. The function assigns
  two of its keys, so the dictionary after the call is part of the result. The cache holds
  \<open>None\<close> for \<open>std\<close> and \<open>mean\<close> in test mode.
\<close>

record bn_param =
  bn_mode :: "string option"
  bn_eps :: "real option"
  bn_momentum :: "real option"
  bn_running_mean :: "real ndarray option"
  bn_running_var :: "real ndarray option"

record bn_cache =
  cache_x :: "real ndarray"
  cache_std :: "real ndarray option"
  cache_mean :: "real ndarray option"
  cache_beta :: "real ndarray"
  cache_gamma :: "real ndarray"

definition batchnorm_forward ::
  "real ndarray \<Rightarrow> real ndarray \<Rightarrow> real ndarray \<Rightarrow> bn_param
     \<Rightarrow> error + (real ndarray \<times> bn_cache \<times> bn_param)" where
  "batchnorm_forward x gamma beta bn_param =
     (case bn_mode bn_param of
        None \<Rightarrow> Inl KeyError
      | Some mode \<Rightarrow>
        let eps = (case bn_eps bn_param of None \<Rightarrow> 1 / 100000 | Some e \<Rightarrow> e);
            momentum = (case bn_momentum bn_param of None \<Rightarrow> 9 / 10 | Some m \<Rightarrow> m)
        in (case shape x of
              [N, D] \<Rightarrow>
                let running_mean =
                      (case bn_running_mean bn_param of None \<Rightarrow> np_zeros [D] | Some a \<Rightarrow> a);
                    running_var =
                      (case bn_running_var bn_param of None \<Rightarrow> np_zeros [D] | Some a \<Rightarrow> a)
                in rbind
                     (if mode = ''train'' then
                        let mean = np_mean0_keepdims x;
                            std = np_std0_keepdims x
                        in rbind (np_add (scale momentum running_mean) (scale (1 - momentum) mean))
                             (\<lambda>running_mean.
                           rbind (np_add (scale momentum running_var)
                                    (scale (1 - momentum) (ufunc1 (\<lambda>v. v\<^sup>2) std)))
                             (\<lambda>running_var.
                           let std = ufunc1 sqrt (ufunc1 (\<lambda>v. v\<^sup>2 + eps) std)
                           in rbind (reshape_infer 1 gamma) (\<lambda>gamma1.
                              rbind (np_sub x mean) (\<lambda>xc.
                              rbind (np_mul gamma1 xc) (\<lambda>gxc.
                              rbind (np_div gxc std) (\<lambda>xn.
                              rbind (reshape_infer 1 beta) (\<lambda>beta1.
                              rbind (np_add xn beta1) (\<lambda>out.
                              Inr (out, Some std, Some mean, running_mean, running_var)))))))))
                      else if mode = ''test'' then
                        rbind (np_sub x running_mean) (\<lambda>xc.
                        rbind (np_mul gamma xc) (\<lambda>gxc.
                        rbind (np_div gxc (ufunc1 sqrt (ufunc1 (\<lambda>v. v + eps) running_var))) (\<lambda>xn.
                        rbind (np_add xn beta) (\<lambda>out.
                        Inr (out, None, None, running_mean, running_var)))))
                      else Inl ValueError)
                     (\<lambda>(out, std, mean, running_mean, running_var).
                        Inr (out,
                             \<lparr>cache_x = x, cache_std = std, cache_mean = mean,
                              cache_beta = beta, cache_gamma = gamma\<rparr>,
                             bn_param\<lparr>bn_running_mean := Some running_mean,
                                      bn_running_var := Some running_var\<rparr>))
            | _ \<Rightarrow> Inl ValueError))"

text \<open>
  A stored running statistic is acceptable for \<open>D\<close> features when it has shape \<open>(D,)\<close>,
  or \<open>(1, D)\<close> as a training call leaves it.
\<close>

definition running_ok :: "nat \<Rightarrow> real ndarray option \<Rightarrow> bool" where
  "running_ok D r = (case r of None \<Rightarrow> True | Some a \<Rightarrow> shape a = [D] \<or> shape a = [1, D])"

subsection \<open>spatial_batchnorm_forward\<close>

text \<open>
  \<open>a.transpose(axes)\<close>: axis \<open>k\<close> of the result is axis \<open>axes[k]\<close> of \<open>a\<close>; numpy raises
  ValueError when \<open>axes\<close> is not a permutation of the axes of \<open>a\<close>. \<open>pos perm ax\<close> is the
  place of \<open>ax\<close> in \<open>perm\<close>.
\<close>

fun pos :: "nat list \<Rightarrow> nat \<Rightarrow> nat" where
  "pos [] a = 0"
| "pos (p # ps) a = (if p = a then 0 else Suc (pos ps a))"

definition np_transpose :: "real ndarray \<Rightarrow> nat list \<Rightarrow> error + real ndarray" where
  "np_transpose a perm =
     (if length perm = length (shape a) \<and> distinct perm \<and> list_all (\<lambda>p. p < length (shape a)) perm
      then Inr (mk (map (\<lambda>p. shape a ! p) perm)
                  (\<lambda>idx. elt a (map (\<lambda>ax. idx ! pos perm ax) [0..<length perm])))
      else Inl ValueError)"

text \<open>
  \<open>a.reshape(-1, m)\<close>: numpy raises ValueError when \<open>m\<close> is 0 or does not divide the size
  of the array.
\<close>

definition reshape_infer_first :: "nat \<Rightarrow> real ndarray \<Rightarrow> error + real ndarray" where
  "reshape_infer_first m a =
     (if m = 0 \<or> length (data a) mod m \<noteq> 0 then Inl ValueError
      else Inr \<lparr>shape = [length (data a) div m, m], data = data a\<rparr>)"

text \<open>
  The function flattens \<open>x\<close> to \<open>(N*H*W, C)\<close> and passes its own \<open>bn_param\<close> to
  \<open>batchnorm_forward\<close>, so the dictionary after the call is part of the result here too.
\<close>

definition spatial_batchnorm_forward ::
  "real ndarray \<Rightarrow> real ndarray \<Rightarrow> real ndarray \<Rightarrow> bn_param
     \<Rightarrow> error + (real ndarray \<times> bn_cache \<times> bn_param)" where
  "spatial_batchnorm_forward x gamma beta bn_param =
     (case shape x of
        [N, C, H, W] \<Rightarrow>
          rbind (np_transpose x [0, 2, 3, 1]) (\<lambda>xt.
          rbind (reshape_infer_first C xt) (\<lambda>x1.
          rbind (batchnorm_forward x1 gamma beta bn_param) (\<lambda>(out, cache, bn_param).
          rbind (reshape out [N, H, W, C]) (\<lambda>out.
          rbind (np_transpose out [0, 3, 1, 2]) (\<lambda>out.
          Inr (out, cache, bn_param))))))
      | _ \<Rightarrow> Inl ValueError)"

subsection \<open>batchnorm_backward_alt\<close>

text \<open>
  The body between the TODO markers is \<open>pass\<close>: the three results keep their initial
  value \<open>None\<close>.
\<close>

definition batchnorm_backward_alt ::
  "real ndarray \<Rightarrow> bn_cache \<Rightarrow> real ndarray option \<times> real ndarray option \<times> real ndarray option" where
  "batchnorm_backward_alt dout cache =
     (let dx = None; dgamma = None; dbeta = None in (dx, dgamma, dbeta))"

subsection \<open>max_pool_backward_naive\<close>

text \<open>
  \<open>pool_param\<close> holds the keys \<open>pool_height\<close>, \<open>pool_width\<close> and \<open>stride\<close>. A stride of 0
  makes \<open>(H - h) / S\<close> raise ZeroDivisionError.
\<close>

record pool_param =
  pool_height :: nat
  pool_width :: nat
  stride :: nat

definition max_pool_backward_naive ::
  "real ndarray \<Rightarrow> real ndarray \<times> pool_param \<Rightarrow> error + real ndarray" where
  "max_pool_backward_naive dout cache =
     (case cache of (x, pool_param) \<Rightarrow>
        (case shape x of
           [N, C, H, W] \<Rightarrow>
             let h = pool_height pool_param;
                 w = pool_width pool_param;
                 S = stride pool_param
             in if S = 0 then Inl ZeroDivisionError
                else
                  let HH = py_int ((real H - real h) / real S + 1);
                      WW = py_int ((real W - real w) / real S + 1);
                      dx = np_zeros (shape x)
                  in for_loop [0..<nat HH] (\<lambda>i.
                       for_loop [0..<nat WW] (\<lambda>j dx.
                         let a = slice23 x (S * i) (S * i + h) (S * j) (S * j + w)
                         in rbind (np_max23_keepdims a) (\<lambda>amax.
                            rbind (np_equal a amax) (\<lambda>eq.
                            rbind (np_mul eq (slice23 dout i (i + 1) j (j + 1))) (\<lambda>inc.
                            iadd_slice23 dx (S * i) (S * i + h) (S * j) (S * j + w) inc))))) dx
         | _ \<Rightarrow> Inl ValueError))"


text \<open>
  The words of the claim about ties: the maximum of the pooling window \<open>(i, j)\<close> of image
  \<open>n\<close> and channel \<open>c\<close>, the positions of the window that hold it, and the gradient the
  window \<open>(i, j)\<close> routes to the entry at \<open>idx\<close>.
\<close>

definition window_max :: "real ndarray \<Rightarrow> nat \<Rightarrow> nat \<Rightarrow> nat \<Rightarrow> nat \<Rightarrow> nat \<Rightarrow> nat \<Rightarrow> nat \<Rightarrow> real" where
  "window_max x S h w n c i j =
     Max ((\<lambda>(p, q). elt x [n, c, p, q]) ` ({S * i..<S * i + h} \<times> {S * j..<S * j + w}))"

definition window_ties :: "real ndarray \<Rightarrow> nat \<Rightarrow> nat \<Rightarrow> nat \<Rightarrow> nat \<Rightarrow> nat \<Rightarrow> nat \<Rightarrow> nat \<Rightarrow> (nat \<times> nat) set" where
  "window_ties x S h w n c i j =
     {(p, q). p \<in> {S * i..<S * i + h} \<and> q \<in> {S * j..<S * j + w}
              \<and> elt x [n, c, p, q] = window_max x S h w n c i j}"

definition routed :: "real ndarray \<Rightarrow> real ndarray \<Rightarrow> nat \<Rightarrow> nat \<Rightarrow> nat \<Rightarrow> nat \<Rightarrow> nat \<Rightarrow> nat list \<Rightarrow> real" where
  "routed x dout S h w i j idx =
     (if (idx ! 2, idx ! 3) \<in> window_ties x S h w (idx ! 0) (idx ! 1) i j
      then elt dout [idx ! 0, idx ! 1, i, j] else 0)"

subsection \<open>dropout_forward\<close>

text \<open>
  \<open>dropout_param\<close> has the keys \<open>p\<close> and \<open>mode\<close> (read with \<open>[]\<close>, KeyError when
  absent) and the optional key \<open>seed\<close>. The function reads and advances the global
  generator: its state is an argument and a result. With a mode that is neither \<open>train\<close>
  nor \<open>test\<close>, \<open>out\<close> is still \<open>None\<close> at \<open>out.astype\<close>, an AttributeError.
\<close>

record dropout_param =
  dp_p :: "real option"
  dp_mode :: "string option"
  dp_seed :: "int option"

definition dropout_forward ::
  "'g np_random \<Rightarrow> real ndarray \<Rightarrow> dropout_param \<Rightarrow> 'g
     \<Rightarrow> (error + real ndarray \<times> dropout_param \<times> real ndarray option) \<times> 'g" where
  "dropout_forward R x dropout_param g =
     (case dp_p dropout_param of
        None \<Rightarrow> (Inl KeyError, g)
      | Some p \<Rightarrow>
        (case dp_mode dropout_param of
           None \<Rightarrow> (Inl KeyError, g)
         | Some mode \<Rightarrow>
           (case (case dp_seed dropout_param of None \<Rightarrow> Inr g | Some s \<Rightarrow> np_random_seed R s) of
              Inl e \<Rightarrow> (Inl e, g)
            | Inr g1 \<Rightarrow>
                if mode = ''train'' then
                  (case np_random_rand R (shape x) g1 of
                     (r, g2) \<Rightarrow>
                       let mask = ufunc1 (\<lambda>u. (if u > p then 1 else 0) / (1 - p)) r
                       in (rbind (np_mul x mask) (\<lambda>out. Inr (out, dropout_param, Some mask)), g2))
                else if mode = ''test'' then (Inr (x, dropout_param, None), g1)
                else (Inl AttributeError, g1))))"

section \<open>assignment2/utils/cnn.py\<close>

subsection \<open>ThreeLayerConvNet.__init__\<close>

record net =
  params :: "string \<Rightarrow> real ndarray option"
  reg :: real
  dtype :: "real \<Rightarrow> real"

text \<open>
  The sizes \<open>input_dim = (C, H, W)\<close>, \<open>num_filters\<close> and \<open>filter_size\<close> are natural
  numbers; \<open>hidden_dim\<close> and \<open>num_classes\<close> are any integers. The generator state is
  threaded through the three calls of \<open>randn\<close>, in the order of the source.
\<close>

definition ThreeLayerConvNet_init ::
  "'g np_random \<Rightarrow> nat \<times> nat \<times> nat \<Rightarrow> nat \<Rightarrow> nat \<Rightarrow> int \<Rightarrow> int \<Rightarrow> real \<Rightarrow> real \<Rightarrow> (real \<Rightarrow> real)
     \<Rightarrow> 'g \<Rightarrow> net \<times> 'g" where
  "ThreeLayerConvNet_init R input_dim num_filters filter_size hidden_dim num_classes weight_scale
       reg0 dtype0 g0 =
     (case input_dim of (C, H, W) \<Rightarrow>
      let F = num_filters;
          HH = filter_size;
          hdn = (100::nat);
          cls = (10::nat);
          (r1, g1) = np_random_randn R [F, C, HH, HH] g0;
          p1 = (Map.empty :: string \<Rightarrow> real ndarray option)(''W1'' \<mapsto> scale weight_scale r1);
          p2 = p1(''b1'' \<mapsto> np_zeros [F]);
          (r2, g2) = np_random_randn R [nat (int F * (py_int (real H / 2))\<^sup>2), hdn] g1;
          p3 = p2(''W2'' \<mapsto> scale weight_scale r2);
          p4 = p3(''b2'' \<mapsto> np_zeros [hdn]);
          (r3, g3) = np_random_randn R [hdn, cls] g2;
          p5 = p4(''W3'' \<mapsto> scale weight_scale r3);
          p6 = p5(''b3'' \<mapsto> np_zeros [cls])
      in (\<lparr>params = (\<lambda>k. map_option (astype dtype0) (p6 k)), reg = reg0, dtype = dtype0\<rparr>, g3))"

section \<open>assignment3/utils/rnn_layers.py\<close>

subsection \<open>Slices of columns and np.hstack\<close>

text \<open>
  \<open>a[:, c0:c1]\<close> of a two-dimensional array, with the bounds clipped to the extent as
  Python slices are; \<open>np.hstack\<close> of two-dimensional arrays with the same number of rows.
\<close>

definition slice_cols :: "real ndarray \<Rightarrow> nat \<Rightarrow> nat \<Rightarrow> error + real ndarray" where
  "slice_cols a c0 c1 =
     (case shape a of
        [N, M] \<Rightarrow>
          let C0 = min c0 M; C1 = max C0 (min c1 M)
          in Inr (mk [N, C1 - C0] (\<lambda>idx. elt a [idx ! 0, C0 + idx ! 1]))
      | _ \<Rightarrow> Inl IndexError)"

fun hstack_elt :: "real ndarray list \<Rightarrow> nat \<Rightarrow> nat \<Rightarrow> real" where
  "hstack_elt [] n j = 0"
| "hstack_elt (a # rest) n j =
     (if j < shape a ! 1 then elt a [n, j] else hstack_elt rest n (j - shape a ! 1))"

definition np_hstack :: "real ndarray list \<Rightarrow> error + real ndarray" where
  "np_hstack arrs =
     (case arrs of
        [] \<Rightarrow> Inl ValueError
      | a # _ \<Rightarrow>
          if list_all (\<lambda>b. length (shape b) = 2 \<and> shape b ! 0 = shape a ! 0) arrs
          then Inr (mk [shape a ! 0, sum_list (map (\<lambda>b. shape b ! 1) arrs)]
                      (\<lambda>idx. hstack_elt arrs (idx ! 0) (idx ! 1)))
          else Inl ValueError)"

subsection \<open>sigmoid\<close>

text \<open>
  The source fills \<open>z\<close> with \<open>exp(-x)\<close> where \<open>x \<ge> 0\<close> and with \<open>exp(x)\<close> where \<open>x < 0\<close>,
  \<open>top\<close> with \<open>1\<close> and, where \<open>x < 0\<close>, with \<open>z\<close>, and returns \<open>top / (1 + z)\<close>.
\<close>

definition sigmoid_elt :: "real \<Rightarrow> real" where
  "sigmoid_elt u =
     (let z = (if u \<ge> 0 then exp (- u) else exp u);
          top = (if u < 0 then z else 1)
      in top / (1 + z))"

definition sigmoid :: "real ndarray \<Rightarrow> real ndarray" where
  "sigmoid x = ufunc1 sigmoid_elt x"

subsection \<open>lstm_step_forward and lstm_step_backward\<close>

text \<open>
  Both functions compute the pre-activations \<open>A = x.dot(Wx) + prev_h.dot(Wh) + b\<close> and the
  four gates from slices of \<open>A\<close>, with \<open>H\<close> read from the shape of \<open>prev_h\<close> (forward) or of
  \<open>dnext_h\<close> (backward); \<open>lstm_gates\<close> is that common prefix.
\<close>

definition lstm_gates ::
  "real ndarray \<Rightarrow> real ndarray \<Rightarrow> real ndarray \<Rightarrow> real ndarray \<Rightarrow> real ndarray \<Rightarrow> nat
     \<Rightarrow> error + real ndarray \<times> real ndarray \<times> real ndarray \<times> real ndarray" where
  "lstm_gates x prev_h Wx Wh b H =
     rbind (np_dot x Wx) (\<lambda>xw.
     rbind (np_dot prev_h Wh) (\<lambda>hw.
     rbind (np_add xw hw) (\<lambda>s.
     rbind (np_add s b) (\<lambda>A.
     rbind (slice_cols A 0 H) (\<lambda>Ai.
     rbind (slice_cols A H (2 * H)) (\<lambda>Af.
     rbind (slice_cols A (2 * H) (3 * H)) (\<lambda>Ao.
     rbind (slice_cols A (3 * H) (shape A ! 1)) (\<lambda>Ag.
     Inr (sigmoid Ai, sigmoid Af, sigmoid Ao, ufunc1 tanh Ag)))))))))"

type_synonym lstm_cache =
  "real ndarray \<times> real ndarray \<times> real ndarray \<times> real ndarray \<times> real ndarray \<times> real ndarray
   \<times> real ndarray \<times> real ndarray"

definition lstm_step_forward ::
  "real ndarray \<Rightarrow> real ndarray \<Rightarrow> real ndarray \<Rightarrow> real ndarray \<Rightarrow> real ndarray \<Rightarrow> real ndarray
     \<Rightarrow> error + real ndarray \<times> real ndarray \<times> lstm_cache" where
  "lstm_step_forward x prev_h prev_c Wx Wh b =
     (case shape prev_h of
        [_, H] \<Rightarrow>
          rbind (lstm_gates x prev_h Wx Wh b H) (\<lambda>(gi, gf, go, gg).
          rbind (np_mul gf prev_c) (\<lambda>fc.
          rbind (np_mul gi gg) (\<lambda>ig.
          rbind (np_add fc ig) (\<lambda>next_c.
          rbind (np_mul go (ufunc1 tanh next_c)) (\<lambda>next_h.
          Inr (next_h, next_c, (x, prev_h, prev_c, Wx, Wh, b, next_h, next_c)))))))
      | _ \<Rightarrow> Inl ValueError)"

definition lstm_step_backward ::
  "real ndarray \<Rightarrow> real ndarray \<Rightarrow> lstm_cache
     \<Rightarrow> error + real ndarray \<times> real ndarray \<times> real ndarray \<times> real ndarray \<times> real ndarray \<times> real ndarray" where
  "lstm_step_backward dnext_h dnext_c cache =
     (case cache of (x, prev_h, prev_c, Wx, Wh, b, next_h, next_c) \<Rightarrow>
       (case shape dnext_h of
          [_, H] \<Rightarrow>
            rbind (lstm_gates x prev_h Wx Wh b H) (\<lambda>(gi, gf, go, gg).
            rbind (np_mul dnext_h (ufunc1 tanh next_c)) (\<lambda>d_o.
            rbind (np_mul dnext_h go) (\<lambda>dho.
            rbind (np_mul dho (ufunc1 (\<lambda>v. 1 - v) (ufunc1 (\<lambda>v. v\<^sup>2) (ufunc1 tanh next_c)))) (\<lambda>dhc.
            rbind (np_add dnext_c dhc) (\<lambda>dnext_c.
            rbind (np_mul dnext_c gf) (\<lambda>dprev_c.
            rbind (np_mul dnext_c prev_c) (\<lambda>df.
            rbind (np_mul dnext_c gg) (\<lambda>di.
            rbind (np_mul dnext_c gi) (\<lambda>dg.
            rbind (np_mul di gi) (\<lambda>dii.
            rbind (np_mul dii (ufunc1 (\<lambda>v. 1 - v) gi)) (\<lambda>dAi.
            rbind (np_mul df gf) (\<lambda>dff.
            rbind (np_mul dff (ufunc1 (\<lambda>v. 1 - v) gf)) (\<lambda>dAf.
            rbind (np_mul d_o go) (\<lambda>doo.
            rbind (np_mul doo (ufunc1 (\<lambda>v. 1 - v) go)) (\<lambda>dAo.
            rbind (np_mul dg (ufunc1 (\<lambda>v. 1 - v) (ufunc1 (\<lambda>v. v\<^sup>2) gg))) (\<lambda>dAg.
            rbind (np_hstack [dAi, dAf, dAo, dAg]) (\<lambda>dW.
            rbind (np_dot dW (np_T Wx)) (\<lambda>dx.
            rbind (np_dot (np_T x) dW) (\<lambda>dWx.
            rbind (np_dot dW (np_T Wh)) (\<lambda>dprev_h.
            rbind (np_dot (np_T prev_h) dW) (\<lambda>dWh.
            rbind (np_sum0 dW) (\<lambda>db.
            Inr (dx, dprev_h, dprev_c, dWx, dWh, db)))))))))))))))))))))))
        | _ \<Rightarrow> Inl ValueError))"

text \<open>The scalar \<open>sum(dnext_h * next_h) + sum(dnext_c * next_c)\<close> as a function of the inputs.\<close>

definition lstm_loss ::
  "real ndarray \<Rightarrow> real ndarray \<Rightarrow> real ndarray \<Rightarrow> real ndarray \<Rightarrow> real ndarray \<Rightarrow> real ndarray
     \<Rightarrow> real ndarray \<Rightarrow> real ndarray \<Rightarrow> real" where
  "lstm_loss dnext_h dnext_c x prev_h prev_c Wx Wh b =
     (case lstm_step_forward x prev_h prev_c Wx Wh b of
        Inl e \<Rightarrow> 0
      | Inr (next_h, next_c, cache) \<Rightarrow> sum_prod dnext_h next_h + sum_prod dnext_c next_c)"

text \<open>
  Closed forms, entry by entry: the pre-activation \<open>A[n, k]\<close>, the next cell and hidden
  states, and the derivatives of the scalar above with respect to \<open>next_c\<close> (total), to
  \<open>A\<close> and to \<open>prev_c\<close>.
\<close>

definition lstm_A_fn ::
  "(nat list \<Rightarrow> real) \<Rightarrow> (nat list \<Rightarrow> real) \<Rightarrow> (nat list \<Rightarrow> real) \<Rightarrow> (nat list \<Rightarrow> real)
     \<Rightarrow> (nat list \<Rightarrow> real) \<Rightarrow> nat \<Rightarrow> nat \<Rightarrow> nat \<Rightarrow> nat \<Rightarrow> real" where
  "lstm_A_fn X PH WX WH B D H n k =
     (\<Sum>d<D. X [n, d] * WX [d, k]) + (\<Sum>j<H. PH [n, j] * WH [j, k]) + B [k]"

definition lstm_c_of :: "(nat \<Rightarrow> nat \<Rightarrow> real) \<Rightarrow> (nat list \<Rightarrow> real) \<Rightarrow> nat \<Rightarrow> nat \<Rightarrow> nat \<Rightarrow> real" where
  "lstm_c_of A PC H n j =
     sigmoid_elt (A n (H + j)) * PC [n, j] + sigmoid_elt (A n j) * tanh (A n (3 * H + j))"

definition lstm_h_of :: "(nat \<Rightarrow> nat \<Rightarrow> real) \<Rightarrow> (nat list \<Rightarrow> real) \<Rightarrow> nat \<Rightarrow> nat \<Rightarrow> nat \<Rightarrow> real" where
  "lstm_h_of A PC H n j = sigmoid_elt (A n (2 * H + j)) * tanh (lstm_c_of A PC H n j)"

definition lstm_dct_of ::
  "(nat list \<Rightarrow> real) \<Rightarrow> (nat list \<Rightarrow> real) \<Rightarrow> (nat \<Rightarrow> nat \<Rightarrow> real) \<Rightarrow> (nat list \<Rightarrow> real) \<Rightarrow> nat \<Rightarrow> nat \<Rightarrow> nat \<Rightarrow> real" where
  "lstm_dct_of DH DC A PC H n j =
     DC [n, j] + DH [n, j] * sigmoid_elt (A n (2 * H + j)) * (1 - (tanh (lstm_c_of A PC H n j))\<^sup>2)"

definition lstm_dA_of ::
  "(nat list \<Rightarrow> real) \<Rightarrow> (nat list \<Rightarrow> real) \<Rightarrow> (nat \<Rightarrow> nat \<Rightarrow> real) \<Rightarrow> (nat list \<Rightarrow> real) \<Rightarrow> nat \<Rightarrow> nat \<Rightarrow> nat \<Rightarrow> real" where
  "lstm_dA_of DH DC A PC H n k =
     (if k < H then
        lstm_dct_of DH DC A PC H n k * tanh (A n (3 * H + k))
          * sigmoid_elt (A n k) * (1 - sigmoid_elt (A n k))
      else if k < 2 * H then
        lstm_dct_of DH DC A PC H n (k - H) * PC [n, k - H]
          * sigmoid_elt (A n k) * (1 - sigmoid_elt (A n k))
      else if k < 3 * H then
        DH [n, k - 2 * H] * tanh (lstm_c_of A PC H n (k - 2 * H))
          * sigmoid_elt (A n k) * (1 - sigmoid_elt (A n k))
      else
        lstm_dct_of DH DC A PC H n (k - 3 * H) * sigmoid_elt (A n (k - 3 * H))
          * (1 - (tanh (A n k))\<^sup>2))"

definition lstm_dpc_of ::
  "(nat list \<Rightarrow> real) \<Rightarrow> (nat list \<Rightarrow> real) \<Rightarrow> (nat \<Rightarrow> nat \<Rightarrow> real) \<Rightarrow> (nat list \<Rightarrow> real) \<Rightarrow> nat \<Rightarrow> nat \<Rightarrow> nat \<Rightarrow> real" where
  "lstm_dpc_of DH DC A PC H n j = lstm_dct_of DH DC A PC H n j * sigmoid_elt (A n (H + j))"

subsection \<open>Slices along the time axis\<close>

text \<open>
  \<open>a[:, t, :]\<close> of an array with three axes, and the assignment \<open>a[:, t, :] = v\<close>. An
  integer index \<open>t\<close> with \<open>-T \<le> t < T\<close> addresses position \<open>t mod T\<close>; any other index
  raises IndexError. The assigned value is broadcast to the shape of the slice.
\<close>

definition slice_mid :: "real ndarray \<Rightarrow> int \<Rightarrow> error + real ndarray" where
  "slice_mid a t =
     (case shape a of
        [N, T, M] \<Rightarrow>
          if - int T \<le> t \<and> t < int T
          then Inr (mk [N, M] (\<lambda>idx. elt a [idx ! 0, nat (t mod int T), idx ! 1]))
          else Inl IndexError
      | _ \<Rightarrow> Inl IndexError)"

definition set_slice_mid :: "real ndarray \<Rightarrow> int \<Rightarrow> real ndarray \<Rightarrow> error + real ndarray" where
  "set_slice_mid a t v =
     (case shape a of
        [N, T, M] \<Rightarrow>
          if - int T \<le> t \<and> t < int T then
            if broadcast_shapes [N, M] (shape v) = Inr [N, M]
            then Inr (mk [N, T, M]
                   (\<lambda>idx. if idx ! 1 = nat (t mod int T)
                          then elt v (bidx (shape v) [idx ! 0, idx ! 2]) else elt a idx))
            else Inl ValueError
          else Inl IndexError
      | _ \<Rightarrow> Inl IndexError)"

text \<open>\<open>a += v\<close> in place: the broadcast shape must be the shape of \<open>a\<close>.\<close>

definition np_iadd :: "real ndarray \<Rightarrow> real ndarray \<Rightarrow> error + real ndarray" where
  "np_iadd a v =
     (if broadcast_shapes (shape a) (shape v) = Inr (shape a) then np_add a v else Inl ValueError)"

subsection \<open>rnn_step_forward and rnn_step_backward\<close>

type_synonym rnn_step_cache = "real ndarray \<times> real ndarray \<times> real ndarray \<times> real ndarray \<times> real ndarray"

definition rnn_step_forward ::
  "real ndarray \<Rightarrow> real ndarray \<Rightarrow> real ndarray \<Rightarrow> real ndarray \<Rightarrow> real ndarray
     \<Rightarrow> error + real ndarray \<times> rnn_step_cache" where
  "rnn_step_forward x prev_h Wx Wh b =
     rbind (np_dot x Wx) (\<lambda>xw.
     rbind (np_dot prev_h Wh) (\<lambda>hw.
     rbind (np_add xw hw) (\<lambda>s.
     rbind (np_add s b) (\<lambda>a.
     let next_h = ufunc1 tanh a
     in Inr (next_h, (x, prev_h, Wx, Wh, next_h))))))"

definition rnn_step_backward ::
  "real ndarray \<Rightarrow> rnn_step_cache
     \<Rightarrow> error + real ndarray \<times> real ndarray \<times> real ndarray \<times> real ndarray \<times> real ndarray" where
  "rnn_step_backward dnext_h cache =
     (case cache of (x, prev_h, Wx, Wh, next_h) \<Rightarrow>
        rbind (np_mul dnext_h (ufunc1 (\<lambda>v. 1 - v) (ufunc1 (\<lambda>v. v\<^sup>2) next_h))) (\<lambda>dH.
        rbind (np_dot dH (np_T Wx)) (\<lambda>dx.
        rbind (np_dot dH (np_T Wh)) (\<lambda>dprev_h.
        rbind (np_dot (np_T x) dH) (\<lambda>dWx.
        rbind (np_dot (np_T prev_h) dH) (\<lambda>dWh.
        rbind (np_sum0 dH) (\<lambda>db.
        Inr (dx, dprev_h, dWx, dWh, db))))))))"

subsection \<open>rnn_forward and rnn_backward\<close>

text \<open>
  \<open>rnn_forward\<close> fills \<open>h\<close> one time step after the other; the loop runs over
  \<open>range(T - 1)\<close>, which is empty for \<open>T \<le> 1\<close>. \<open>rnn_backward\<close> runs over \<open>range(T)\<close> with
  the time index \<open>T - i - 1\<close>; its state is \<open>(dx, dh0, dWx, dWh, db)\<close> and
  \<open>rnn_backward_body\<close> is one iteration, with the three branches of the source.
\<close>

type_synonym rnn_cache =
  "real ndarray \<times> real ndarray \<times> real ndarray \<times> real ndarray \<times> real ndarray \<times> real ndarray"

definition rnn_forward ::
  "real ndarray \<Rightarrow> real ndarray \<Rightarrow> real ndarray \<Rightarrow> real ndarray \<Rightarrow> real ndarray
     \<Rightarrow> error + real ndarray \<times> rnn_cache" where
  "rnn_forward x h0 Wx Wh b =
     (case shape x of
        [N, T, _] \<Rightarrow>
          (case shape Wx of
             [_, H] \<Rightarrow>
               rbind (slice_mid x 0) (\<lambda>x0.
               rbind (rnn_step_forward x0 h0 Wx Wh b) (\<lambda>(v, _).
               rbind (set_slice_mid (np_zeros [N, T, H]) 0 v) (\<lambda>h.
               rbind (for_loop [0..<T - 1]
                        (\<lambda>i h.
                           rbind (slice_mid x (int i + 1)) (\<lambda>xi.
                           rbind (slice_mid h (int i)) (\<lambda>hi.
                           rbind (rnn_step_forward xi hi Wx Wh b) (\<lambda>(v, _).
                           set_slice_mid h (int i + 1) v))))
                        h) (\<lambda>h.
               Inr (h, (x, h, Wx, Wh, b, h0))))))
           | _ \<Rightarrow> Inl ValueError)
      | _ \<Rightarrow> Inl ValueError)"

type_synonym rnn_grads = "real ndarray \<times> real ndarray \<times> real ndarray \<times> real ndarray \<times> real ndarray"

definition rnn_backward_body ::
  "real ndarray \<Rightarrow> rnn_cache \<Rightarrow> nat \<Rightarrow> nat \<Rightarrow> rnn_grads \<Rightarrow> error + rnn_grads" where
  "rnn_backward_body dh cache T i s =
     (case cache of (x, h, Wx, Wh, b, h0) \<Rightarrow>
      case s of (dx, dh0, dWx, dWh, db) \<Rightarrow>
        let t = int T - int i - 1 in
        rbind
          (if int i = int T - 1 then
             rbind (slice_mid dh t) (\<lambda>d.
             rbind (np_add d dh0) (\<lambda>g.
             rbind (slice_mid x t) (\<lambda>xt.
             rbind (slice_mid h t) (\<lambda>ht.
             rnn_step_backward g (xt, h0, Wx, Wh, ht)))))
           else if i = 0 then
             rbind (slice_mid dh t) (\<lambda>g.
             rbind (slice_mid x t) (\<lambda>xt.
             rbind (slice_mid h (t - 1)) (\<lambda>hp.
             rbind (slice_mid h t) (\<lambda>ht.
             rnn_step_backward g (xt, hp, Wx, Wh, ht)))))
           else
             rbind (slice_mid dh t) (\<lambda>d.
             rbind (np_add d dh0) (\<lambda>g.
             rbind (slice_mid x t) (\<lambda>xt.
             rbind (slice_mid h (t - 1)) (\<lambda>hp.
             rbind (slice_mid h t) (\<lambda>ht.
             rnn_step_backward g (xt, hp, Wx, Wh, ht)))))))
          (\<lambda>(dxt, dh0', dWx', dWh', db').
             rbind (set_slice_mid dx t dxt) (\<lambda>dx.
             rbind (np_iadd dWx dWx') (\<lambda>dWx.
             rbind (np_iadd dWh dWh') (\<lambda>dWh.
             rbind (np_iadd db db') (\<lambda>db.
             Inr (dx, dh0', dWx, dWh, db)))))))"

definition rnn_backward :: "real ndarray \<Rightarrow> rnn_cache \<Rightarrow> error + rnn_grads" where
  "rnn_backward dh cache =
     (case cache of (x, h, Wx, Wh, b, h0) \<Rightarrow>
        (case shape dh of
           [N, T, H] \<Rightarrow>
             for_loop [0..<T] (rnn_backward_body dh cache T)
               (np_zeros (shape x), np_zeros (shape h0), np_zeros (shape Wx), np_zeros (shape Wh),
                np_zeros (shape b))
         | _ \<Rightarrow> Inl ValueError))"

text \<open>The scalar \<open>sum(dh * h)\<close> as a function of the inputs.\<close>

definition rnn_loss ::
  "real ndarray \<Rightarrow> real ndarray \<Rightarrow> real ndarray \<Rightarrow> real ndarray \<Rightarrow> real ndarray \<Rightarrow> real ndarray \<Rightarrow> real" where
  "rnn_loss dh x h0 Wx Wh b =
     (case rnn_forward x h0 Wx Wh b of Inl e \<Rightarrow> 0 | Inr (h, cache) \<Rightarrow> sum_prod dh h)"

text \<open>
  Closed forms, entry by entry. \<open>rnn_h_fn \<dots> t n j\<close> is the hidden state before time step
  \<open>t\<close>: the initial state for \<open>t = 0\<close>, and \<open>h[n, t, j]\<close> at \<open>Suc t\<close>. \<open>rnn_h_part\<close> is
  the array \<open>h\<close> when its first \<open>k\<close> time steps are filled.
\<close>

fun rnn_h_fn ::
  "(nat list \<Rightarrow> real) \<Rightarrow> (nat list \<Rightarrow> real) \<Rightarrow> (nat list \<Rightarrow> real) \<Rightarrow> (nat list \<Rightarrow> real)
     \<Rightarrow> (nat list \<Rightarrow> real) \<Rightarrow> nat \<Rightarrow> nat \<Rightarrow> nat \<Rightarrow> nat \<Rightarrow> nat \<Rightarrow> real" where
  "rnn_h_fn X H0 WX WH B D H 0 n j = H0 [n, j]"
| "rnn_h_fn X H0 WX WH B D H (Suc t) n j =
     tanh ((\<Sum>d<D. X [n, t, d] * WX [d, j]) + (\<Sum>k<H. rnn_h_fn X H0 WX WH B D H t n k * WH [k, j])
           + B [j])"

definition rnn_h_part ::
  "(nat list \<Rightarrow> real) \<Rightarrow> (nat list \<Rightarrow> real) \<Rightarrow> (nat list \<Rightarrow> real) \<Rightarrow> (nat list \<Rightarrow> real)
     \<Rightarrow> (nat list \<Rightarrow> real) \<Rightarrow> nat \<Rightarrow> nat \<Rightarrow> nat \<Rightarrow> nat \<Rightarrow> nat \<Rightarrow> real ndarray" where
  "rnn_h_part X H0 WX WH B N T D H k =
     mk [N, T, H] (\<lambda>idx. if idx ! 1 < k then rnn_h_fn X H0 WX WH B D H (Suc (idx ! 1)) (idx ! 0) (idx ! 2)
                         else 0)"

text \<open>
  The derivative of the hidden states along a perturbation of the inputs with derivatives
  \<open>X'\<close>, \<open>H0'\<close>, \<open>WX'\<close>, \<open>WH'\<close>, \<open>B'\<close>; \<open>rnn_direct\<close> is the part of it that does not
  come through the previous hidden state.
\<close>

fun rnn_tangent ::
  "(nat list \<Rightarrow> real) \<Rightarrow> (nat list \<Rightarrow> real) \<Rightarrow> (nat list \<Rightarrow> real) \<Rightarrow> (nat list \<Rightarrow> real)
     \<Rightarrow> (nat list \<Rightarrow> real) \<Rightarrow> (nat list \<Rightarrow> real) \<Rightarrow> (nat list \<Rightarrow> real) \<Rightarrow> (nat list \<Rightarrow> real)
     \<Rightarrow> (nat \<Rightarrow> nat \<Rightarrow> nat \<Rightarrow> real) \<Rightarrow> nat \<Rightarrow> nat \<Rightarrow> nat \<Rightarrow> nat \<Rightarrow> nat \<Rightarrow> real" where
  "rnn_tangent X X' H0' WX WX' WH WH' B' hs D H 0 n j = H0' [n, j]"
| "rnn_tangent X X' H0' WX WX' WH WH' B' hs D H (Suc t) n j =
     (1 - (hs (Suc t) n j)\<^sup>2) *
       ((\<Sum>d<D. X' [n, t, d] * WX [d, j] + X [n, t, d] * WX' [d, j])
        + (\<Sum>k<H. rnn_tangent X X' H0' WX WX' WH WH' B' hs D H t n k * WH [k, j] + hs t n k * WH' [k, j])
        + B' [j])"

definition rnn_direct ::
  "(nat list \<Rightarrow> real) \<Rightarrow> (nat list \<Rightarrow> real) \<Rightarrow> (nat list \<Rightarrow> real) \<Rightarrow> (nat list \<Rightarrow> real)
     \<Rightarrow> (nat list \<Rightarrow> real) \<Rightarrow> (nat list \<Rightarrow> real) \<Rightarrow> (nat \<Rightarrow> nat \<Rightarrow> nat \<Rightarrow> real)
     \<Rightarrow> nat \<Rightarrow> nat \<Rightarrow> nat \<Rightarrow> nat \<Rightarrow> nat \<Rightarrow> real" where
  "rnn_direct X X' WX WX' WH' B' hs D H t n j =
     (\<Sum>d<D. X' [n, t, d] * WX [d, j] + X [n, t, d] * WX' [d, j])
     + (\<Sum>k<H. hs t n k * WH' [k, j]) + B' [j]"

text \<open>
  What the backward loop holds: \<open>rnn_dh0_fn \<dots> i\<close> is the variable \<open>dh0\<close> after \<open>i\<close>
  iterations, \<open>rnn_dA_fn \<dots> t\<close> the gradient with respect to the pre-activation of time
  step \<open>t\<close>, and \<open>rnn_grads_part \<dots> i\<close> the whole state after \<open>i\<close> iterations.
\<close>

fun rnn_dh0_fn ::
  "(nat list \<Rightarrow> real) \<Rightarrow> (nat \<Rightarrow> nat \<Rightarrow> nat \<Rightarrow> real) \<Rightarrow> (nat list \<Rightarrow> real) \<Rightarrow> nat \<Rightarrow> nat
     \<Rightarrow> nat \<Rightarrow> nat \<Rightarrow> nat \<Rightarrow> real" where
  "rnn_dh0_fn DH hs WH T H 0 n k = 0"
| "rnn_dh0_fn DH hs WH T H (Suc i) n k =
     (\<Sum>j<H. (DH [n, T - 1 - i, j] + rnn_dh0_fn DH hs WH T H i n j)
              * (1 - (hs (Suc (T - 1 - i)) n j)\<^sup>2) * WH [k, j])"

definition rnn_dA_fn ::
  "(nat list \<Rightarrow> real) \<Rightarrow> (nat \<Rightarrow> nat \<Rightarrow> nat \<Rightarrow> real) \<Rightarrow> (nat list \<Rightarrow> real) \<Rightarrow> nat \<Rightarrow> nat
     \<Rightarrow> nat \<Rightarrow> nat \<Rightarrow> nat \<Rightarrow> real" where
  "rnn_dA_fn DH hs WH T H t n j =
     (DH [n, t, j] + rnn_dh0_fn DH hs WH T H (T - 1 - t) n j) * (1 - (hs (Suc t) n j)\<^sup>2)"

definition rnn_grads_part ::
  "(nat list \<Rightarrow> real) \<Rightarrow> (nat list \<Rightarrow> real) \<Rightarrow> (nat \<Rightarrow> nat \<Rightarrow> nat \<Rightarrow> real) \<Rightarrow> (nat list \<Rightarrow> real)
     \<Rightarrow> (nat list \<Rightarrow> real) \<Rightarrow> nat \<Rightarrow> nat \<Rightarrow> nat \<Rightarrow> nat \<Rightarrow> nat \<Rightarrow> rnn_grads" where
  "rnn_grads_part DH X hs WX WH N T D H i =
     (mk [N, T, D] (\<lambda>idx. if T - i \<le> idx ! 1
                           then \<Sum>j<H. rnn_dA_fn DH hs WH T H (idx ! 1) (idx ! 0) j * WX [idx ! 2, j]
                           else 0),
      mk [N, H] (\<lambda>idx. rnn_dh0_fn DH hs WH T H i (idx ! 0) (idx ! 1)),
      mk [D, H] (\<lambda>idx. \<Sum>t = T - i..<T. \<Sum>n<N. X [n, t, idx ! 0] * rnn_dA_fn DH hs WH T H t n (idx ! 1)),
      mk [H, H] (\<lambda>idx. \<Sum>t = T - i..<T. \<Sum>n<N. hs t n (idx ! 0) * rnn_dA_fn DH hs WH T H t n (idx ! 1)),
      mk [H] (\<lambda>idx. \<Sum>t = T - i..<T. \<Sum>n<N. rnn_dA_fn DH hs WH T H t n (idx ! 0)))"

section \<open>Properties of arrays\<close>

lemma length_concat_rect: "length (concat (map (\<lambda>i. map (g i) xs) [0..<d])) = d * length xs"
  by (induction d) simp_all

lemma nth_concat_rect:
  "k < d * length xs \<Longrightarrow>
   concat (map (\<lambda>i. map (g i) xs) [0..<d]) ! k = g (k div length xs) (xs ! (k mod length xs))"
proof (induction d)
  case 0
  then show ?case by simp
next
  case (Suc d)
  show ?case
  proof (cases "k < d * length xs")
    case True
    then show ?thesis using Suc.IH by (simp add: nth_append length_concat_rect)
  next
    case False
    then have ge: "d * length xs \<le> k" by simp
    from Suc.prems have lt: "k - d * length xs < length xs" using ge by simp
    have dv: "k div length xs = d"
      using ge Suc.prems by (intro div_nat_eqI) (simp_all add: mult.commute)
    have md: "k mod length xs = k - d * length xs"
      using dv by (metis minus_mult_div_eq_mod mult.commute)
    show ?thesis using False lt dv md
      by (simp add: nth_append length_concat_rect)
  qed
qed

lemma length_indices: "length (indices sh) = prod_list sh"
  by (induction sh) (simp_all add: length_concat_rect)

lemma valid_idx_Nil [simp]: "valid_idx [] idx = (idx = [])"
  by (simp add: valid_idx_def)

lemma valid_idx_Cons:
  "valid_idx (d # ds) idx = (\<exists>i js. idx = i # js \<and> i < d \<and> valid_idx ds js)"
  by (cases idx) (simp_all add: valid_idx_def)

lemma valid_idx_Cons_Cons [simp]: "valid_idx (d # ds) (i # js) = (i < d \<and> valid_idx ds js)"
  by (simp add: valid_idx_def)

lemma ravel_less: "valid_idx sh idx \<Longrightarrow> ravel sh idx < prod_list sh"
proof (induction sh arbitrary: idx)
  case Nil
  then show ?case by simp
next
  case (Cons d ds)
  then obtain i js where idx: "idx = i # js" and i: "i < d" and js: "valid_idx ds js"
    by (auto simp: valid_idx_Cons)
  have r: "ravel ds js < prod_list ds" using Cons.IH js by simp
  have "i * prod_list ds + ravel ds js < i * prod_list ds + prod_list ds" using r by simp
  also have "\<dots> = Suc i * prod_list ds" by simp
  also have "\<dots> \<le> d * prod_list ds" using i by (intro mult_le_mono1) simp
  finally show ?case using idx by simp
qed

lemma indices_nth_ravel: "valid_idx sh idx \<Longrightarrow> indices sh ! ravel sh idx = idx"
proof (induction sh arbitrary: idx)
  case Nil
  then show ?case by simp
next
  case (Cons d ds)
  then obtain i js where idx: "idx = i # js" and i: "i < d" and js: "valid_idx ds js"
    by (auto simp: valid_idx_Cons)
  let ?P = "prod_list ds"
  have r: "ravel ds js < ?P" using ravel_less js by simp
  have lt: "ravel (d # ds) idx < d * length (indices ds)"
    using ravel_less [OF Cons.prems] by (simp add: length_indices)
  have dv: "(i * ?P + ravel ds js) div ?P = i" using r by simp
  have md: "(i * ?P + ravel ds js) mod ?P = ravel ds js" using r by simp
  show ?case
    using nth_concat_rect [OF lt, of "\<lambda>i. (#) i"] Cons.IH [OF js] dv md
    by (simp add: idx length_indices)
qed

lemma elt_mk [simp]: "valid_idx sh idx \<Longrightarrow> elt (mk sh f) idx = f idx"
  using ravel_less [of sh idx] indices_nth_ravel [of sh idx]
  by (simp add: elt_def mk_def length_indices)

lemma set_indices: "set (indices sh) = {idx. valid_idx sh idx}"
proof (induction sh)
  case Nil
  then show ?case by auto
next
  case (Cons d ds)
  show ?case
    by (auto simp: Cons.IH valid_idx_Cons)
qed

lemma mk_cong:
  "(\<And>idx. valid_idx sh idx \<Longrightarrow> f idx = g idx) \<Longrightarrow> mk sh f = mk sh g"
  by (simp add: mk_def set_indices)

lemma shape_mk [simp]: "shape (mk sh f) = sh"
  by (simp add: mk_def)

lemma has_shape_mk [simp]: "has_shape (mk sh f) sh' = (sh = sh')"
  by (auto simp: mk_def has_shape_def length_indices)

lemma ravel_inj:
  "valid_idx sh idx \<Longrightarrow> valid_idx sh idx' \<Longrightarrow> ravel sh idx = ravel sh idx' \<Longrightarrow> idx = idx'"
  by (metis indices_nth_ravel)

lemma shape_scale [simp]: "shape (scale c a) = shape a"
  by (simp add: scale_def)

lemma shape_astype [simp]: "shape (astype d a) = shape a"
  by (simp add: astype_def)

lemma shape_np_zeros [simp]: "shape (np_zeros sh) = sh"
  by (simp add: np_zeros_def)

lemma shape_np_random_randn [simp]: "shape (fst (np_random_randn R sh g)) = sh"
  by (simp add: np_random_randn_def split: prod.splits)

lemma length_draws: "length (fst (draws d n g)) = n"
proof (induction n arbitrary: g)
  case 0
  show ?case by simp
next
  case (Suc n)
  obtain v g' where v: "d g = (v, g')" by (cases "d g")
  obtain vs g'' where vs: "draws d n g' = (vs, g'')" by (cases "draws d n g'")
  have "length vs = n" using Suc [of g'] vs by simp
  then show ?case by (simp add: v vs)
qed

lemma has_shape_np_random_randn: "has_shape (fst (np_random_randn R sh g)) sh"
proof -
  obtain vs g' where d: "draws (draw_normal R) (prod_list sh) g = (vs, g')"
    by (cases "draws (draw_normal R) (prod_list sh) g")
  have "length vs = prod_list sh"
    using length_draws [of "draw_normal R" "prod_list sh" g] d by simp
  then show ?thesis by (simp add: np_random_randn_def d has_shape_def)
qed

lemma has_shape_scale [simp]: "has_shape (scale c a) sh = has_shape a sh"
  by (simp add: has_shape_def scale_def)

lemma has_shape_astype [simp]: "has_shape (astype d a) sh = has_shape a sh"
  by (simp add: has_shape_def astype_def)

lemma has_shape_np_zeros: "has_shape (np_zeros sh) sh"
  by (simp add: np_zeros_def)

lemma py_int_half: "py_int (real H / 2) = int (H div 2)"
proof -
  have "\<lfloor>real H / 2\<rfloor> = int (H div 2)"
    by (simp add: floor_divide_of_nat_eq [of H 2, simplified])
  then show ?thesis by (simp add: py_int_def)
qed

section \<open>Properties of the layers\<close>

lemma rbind_Inr [simp]: "rbind (Inr v) f = f v"
  by (simp add: rbind_def)

lemma rbind_Inl [simp]: "rbind (Inl e) f = Inl e"
  by (simp add: rbind_def)

lemma broadcast_rev_same [simp]: "broadcast_rev xs xs = Inr xs"
  by (induction xs) simp_all

lemma broadcast_shapes_same [simp]: "broadcast_shapes s s = Inr s"
  by (simp add: broadcast_shapes_def)

lemma broadcast_shapes_2_12 [simp]: "broadcast_shapes [N, D] [Suc 0, D] = Inr [N, D]"
  by (simp add: broadcast_shapes_def)

lemma broadcast_shapes_12_2 [simp]: "broadcast_shapes [Suc 0, D] [N, D] = Inr [N, D]"
  by (simp add: broadcast_shapes_def)

lemma broadcast_shapes_1_12 [simp]: "broadcast_shapes [D] [Suc 0, D] = Inr [Suc 0, D]"
  by (simp add: broadcast_shapes_def)

lemma broadcast_shapes_2_1 [simp]: "broadcast_shapes [N, D] [D] = Inr [N, D]"
  by (simp add: broadcast_shapes_def)

lemma broadcast_shapes_1_2 [simp]: "broadcast_shapes [D] [N, D] = Inr [N, D]"
  by (simp add: broadcast_shapes_def)

lemma shape_ufunc1 [simp]: "shape (ufunc1 f a) = shape a"
  by (simp add: ufunc1_def)

lemma shape_np_mean0_keepdims [simp]: "shape (np_mean0_keepdims x) = [1, shape x ! 1]"
  by (simp add: np_mean0_keepdims_def)

lemma shape_np_std0_keepdims [simp]: "shape (np_std0_keepdims x) = [1, shape x ! 1]"
  by (simp add: np_std0_keepdims_def)

lemma ufunc2_shape:
  "broadcast_shapes (shape a) (shape b) = Inr sh \<Longrightarrow> \<exists>c. ufunc2 f a b = Inr c \<and> shape c = sh"
  by (simp add: ufunc2_def)


lemma returns_simps [simp]: "returns (Inr v) = True" "returns (Inl e) = False"
  by (simp_all add: returns_def)

lemma rbind_eq_Inr: "rbind r f = Inr v \<Longrightarrow> \<exists>u. r = Inr u \<and> f u = Inr v"
  by (cases r) simp_all

lemma batchnorm_forward_frame:
  assumes "batchnorm_forward x gamma beta bn = Inr (out, cache, bn')"
  shows "\<exists>rm rv. bn' = bn\<lparr>bn_running_mean := Some rm, bn_running_var := Some rv\<rparr>
           \<and> cache_x cache = x \<and> cache_gamma cache = gamma \<and> cache_beta cache = beta"
proof -
  from assms obtain mode where m: "bn_mode bn = Some mode"
    by (auto simp: batchnorm_forward_def split: option.splits)
  from assms m obtain N D where sh: "shape x = [N, D]"
    by (auto simp: batchnorm_forward_def Let_def split: list.splits)
  from assms show ?thesis
    unfolding batchnorm_forward_def Let_def m sh option.case list.case
    by (auto dest!: rbind_eq_Inr)
qed

lemma batchnorm_forward_test_keeps:
  assumes "bn_mode bn = Some ''test''" "bn_running_mean bn = Some rm" "bn_running_var bn = Some rv"
    and "batchnorm_forward x gamma beta bn = Inr (out, cache, bn')"
  shows "bn' = bn"
proof -
  from assms obtain N D where sh: "shape x = [N, D]"
    by (auto simp: batchnorm_forward_def Let_def split: list.splits)
  from assms(4) have "bn' = bn\<lparr>bn_running_mean := Some rm, bn_running_var := Some rv\<rparr>"
    unfolding batchnorm_forward_def Let_def assms(1-3) sh option.case list.case
    by (auto dest!: rbind_eq_Inr)
  then show ?thesis using assms(2,3) by simp
qed

lemma spatial_batchnorm_forward_inner:
  assumes "spatial_batchnorm_forward x gamma beta bn = Inr (out, cache, bn')"
  shows "\<exists>x1 out1. batchnorm_forward x1 gamma beta bn = Inr (out1, cache, bn')"
proof -
  from assms obtain N C H W where sh: "shape x = [N, C, H, W]"
    by (auto simp: spatial_batchnorm_forward_def split: list.splits)
  from assms show ?thesis
    unfolding spatial_batchnorm_forward_def sh list.case
    by (auto dest!: rbind_eq_Inr)
qed

lemma batchnorm_forward_bn_param:
  assumes "batchnorm_forward x gamma beta bn = Inr (out, cache, bn')"
  shows "bn_mode bn' = bn_mode bn \<and> bn_eps bn' = bn_eps bn \<and> bn_momentum bn' = bn_momentum bn
         \<and> bn_running_mean bn' \<noteq> None \<and> bn_running_var bn' \<noteq> None
         \<and> (bn_mode bn = Some ''test'' \<and> bn_running_mean bn \<noteq> None \<and> bn_running_var bn \<noteq> None
              \<longrightarrow> bn' = bn)"
proof -
  from batchnorm_forward_frame [OF assms] obtain rm rv where
    f: "bn' = bn\<lparr>bn_running_mean := Some rm, bn_running_var := Some rv\<rparr>"
    by blast
  have t: "bn_mode bn = Some ''test'' \<and> bn_running_mean bn \<noteq> None \<and> bn_running_var bn \<noteq> None
             \<longrightarrow> bn' = bn"
    using batchnorm_forward_test_keeps [OF _ _ _ assms] by auto
  from f t show ?thesis by simp
qed

lemma batchnorm_forward_invalid_mode:
  assumes "bn_mode bn = Some m" "m \<noteq> ''train''" "m \<noteq> ''test''"
  shows "batchnorm_forward x gamma beta bn = Inl ValueError"
  using assms by (simp add: batchnorm_forward_def Let_def split: list.splits)

lemma ufunc2_Inr:
  assumes "broadcast_shapes (shape a) (shape b) = Inr sh"
  obtains c where "ufunc2 f a b = Inr c" "shape c = sh"
  using assms by (simp add: ufunc2_def)

lemma reshape_infer_1:
  "reshape_infer (Suc 0) a = Inr \<lparr>shape = [Suc 0, length (data a)], data = data a\<rparr>"
  by (simp add: reshape_infer_def)

lemma bshape_any_12:
  assumes "s = [D] \<or> s = [Suc 0, D]"
  shows "broadcast_shapes s [Suc 0, D] = Inr [Suc 0, D]"
  using assms by auto

lemma bshape_2_any:
  assumes "s = [D] \<or> s = [Suc 0, D]"
  shows "broadcast_shapes [N, D] s = Inr [N, D]"
  using assms by auto

lemma batchnorm_forward_train_returns:
  assumes x: "shape x = [N, D]" and g: "has_shape gamma [D]" and b: "has_shape beta [D]"
    and m: "bn_mode bn = Some ''train''"
    and rm: "running_ok D (bn_running_mean bn)" and rv: "running_ok D (bn_running_var bn)"
  shows "returns (batchnorm_forward x gamma beta bn)"
proof -
  define eps where "eps = (case bn_eps bn of None \<Rightarrow> 1 / 100000 | Some e \<Rightarrow> e)"
  define mom where "mom = (case bn_momentum bn of None \<Rightarrow> 9 / 10 | Some m \<Rightarrow> m)"
  define rm0 where "rm0 = (case bn_running_mean bn of None \<Rightarrow> np_zeros [D] | Some a \<Rightarrow> a)"
  define rv0 where "rv0 = (case bn_running_var bn of None \<Rightarrow> np_zeros [D] | Some a \<Rightarrow> a)"
  have rm0: "shape rm0 = [D] \<or> shape rm0 = [Suc 0, D]"
    using rm by (auto simp: rm0_def running_ok_def split: option.splits)
  have rv0: "shape rv0 = [D] \<or> shape rv0 = [Suc 0, D]"
    using rv by (auto simp: rv0_def running_ok_def split: option.splits)
  have gl: "length (data gamma) = D" "shape gamma = [D]" and bl: "length (data beta) = D" "shape beta = [D]"
    using g b by (simp_all add: has_shape_def)
  from rm0 rv0 show ?thesis
    unfolding batchnorm_forward_def Let_def m x option.case list.case
      rm0_def [symmetric] rv0_def [symmetric] eps_def [symmetric] mom_def [symmetric]
    by (elim disjE)
      (simp_all add: np_add_def np_sub_def np_mul_def np_div_def ufunc2_def reshape_infer_1 gl bl x)
qed

lemma batchnorm_forward_test_returns:
  assumes x: "shape x = [N, D]" and g: "has_shape gamma [D]" and b: "has_shape beta [D]"
    and m: "bn_mode bn = Some ''test''"
    and rm: "running_ok D (bn_running_mean bn)" and rv: "running_ok D (bn_running_var bn)"
  shows "returns (batchnorm_forward x gamma beta bn)"
proof -
  define eps where "eps = (case bn_eps bn of None \<Rightarrow> 1 / 100000 | Some e \<Rightarrow> e)"
  define rm0 where "rm0 = (case bn_running_mean bn of None \<Rightarrow> np_zeros [D] | Some a \<Rightarrow> a)"
  define rv0 where "rv0 = (case bn_running_var bn of None \<Rightarrow> np_zeros [D] | Some a \<Rightarrow> a)"
  have rm0: "shape rm0 = [D] \<or> shape rm0 = [Suc 0, D]"
    using rm by (auto simp: rm0_def running_ok_def split: option.splits)
  have rv0: "shape rv0 = [D] \<or> shape rv0 = [Suc 0, D]"
    using rv by (auto simp: rv0_def running_ok_def split: option.splits)
  have gl: "shape gamma = [D]" and bl: "shape beta = [D]"
    using g b by (simp_all add: has_shape_def)
  from rm0 rv0 show ?thesis
    unfolding batchnorm_forward_def Let_def m x option.case list.case
      rm0_def [symmetric] rv0_def [symmetric] eps_def [symmetric]
    by (elim disjE)
      (simp_all add: np_add_def np_sub_def np_mul_def np_div_def ufunc2_def gl bl x)
qed


lemma dropout_forward_state_independent:
  assumes "dp_seed dp \<noteq> None \<or> dp_mode dp \<noteq> Some ''train''"
  shows "fst (dropout_forward R x dp g) = fst (dropout_forward R x dp g')"
  using assms
  by (auto simp: dropout_forward_def np_random_seed_def split: option.splits sum.splits prod.splits)

lemma dropout_forward_keeps_param:
  assumes "fst (dropout_forward R x dp g) = Inr (out, dp', msk)"
  shows "dp' = dp"
  using assms
  by (auto simp: dropout_forward_def Let_def split: option.splits sum.splits prod.splits if_splits
      dest!: rbind_eq_Inr)

lemma init_W1:
  "params (fst (ThreeLayerConvNet_init R (C, H, W) F HH hdim ncls ws rg dt g)) ''W1''
     = Some (astype dt (scale ws (fst (np_random_randn R [F, C, HH, HH] g))))"
  by (simp add: ThreeLayerConvNet_init_def Let_def split: prod.splits)

lemma init_biases:
  "params (fst (ThreeLayerConvNet_init R (C, H, W) F HH hdim ncls ws rg dt g)) ''b1'' = Some (astype dt (np_zeros [F]))"
  "params (fst (ThreeLayerConvNet_init R (C, H, W) F HH hdim ncls ws rg dt g)) ''b2'' = Some (astype dt (np_zeros [100]))"
  "params (fst (ThreeLayerConvNet_init R (C, H, W) F HH hdim ncls ws rg dt g)) ''b3'' = Some (astype dt (np_zeros [10]))"
  by (simp_all add: ThreeLayerConvNet_init_def Let_def split: prod.splits)

lemma init_shapes:
  "map_option shape (params (fst (ThreeLayerConvNet_init R (C, H, W) F HH hdim ncls ws rg dt g)) k)
     = map_option shape (params (fst (ThreeLayerConvNet_init R (C, H, W) F HH hdim ncls ws rg dt g')) k)"
proof -
  let ?s2 = "[nat (int F * (py_int (real H / 2))\<^sup>2), 100]"
  obtain r1 g1 where r1: "np_random_randn R [F, C, HH, HH] g = (r1, g1)"
    by (cases "np_random_randn R [F, C, HH, HH] g")
  obtain r2 g2 where r2: "np_random_randn R ?s2 g1 = (r2, g2)"
    by (cases "np_random_randn R ?s2 g1")
  obtain r3 g3 where r3: "np_random_randn R [100, 10] g2 = (r3, g3)"
    by (cases "np_random_randn R [100, 10] g2")
  obtain q1 h1 where q1: "np_random_randn R [F, C, HH, HH] g' = (q1, h1)"
    by (cases "np_random_randn R [F, C, HH, HH] g'")
  obtain q2 h2 where q2: "np_random_randn R ?s2 h1 = (q2, h2)"
    by (cases "np_random_randn R ?s2 h1")
  obtain q3 h3 where q3: "np_random_randn R [100, 10] h2 = (q3, h3)"
    by (cases "np_random_randn R [100, 10] h2")
  have s1: "shape r1 = shape q1"
    using shape_np_random_randn [of R "[F, C, HH, HH]" g]
      shape_np_random_randn [of R "[F, C, HH, HH]" g'] r1 q1 by simp
  have s2: "shape r2 = shape q2"
    using shape_np_random_randn [of R ?s2 g1] shape_np_random_randn [of R ?s2 h1] r2 q2 by simp
  have s3: "shape r3 = shape q3"
    using shape_np_random_randn [of R "[100, 10]" g2]
      shape_np_random_randn [of R "[100, 10]" h2] r3 q3 by simp
  show ?thesis
    by (simp add: ThreeLayerConvNet_init_def r1 r2 r3 q1 q2 q3 s1 s2 s3)
qed

lemma upt_2: "[0..<2] = [0, Suc 0]"
  by (simp add: upt_rec)

subsection \<open>The affine layer\<close>

lemma ravel_indices_nth: "k < prod_list sh \<Longrightarrow> ravel sh (indices sh ! k) = k"
proof (induction sh arbitrary: k)
  case Nil
  then show ?case by simp
next
  case (Cons d ds)
  let ?P = "prod_list ds"
  have P: "0 < ?P" using Cons.prems by (cases "?P = 0") simp_all
  have lt: "k < d * length (indices ds)" using Cons.prems by (simp add: length_indices)
  have m: "k mod ?P < ?P" using P by simp
  show ?case
    using nth_concat_rect [OF lt, of "\<lambda>i. (#) i"] Cons.IH [OF m]
    by (simp add: length_indices)
qed

lemma valid_idx_indices_nth: "k < prod_list sh \<Longrightarrow> valid_idx sh (indices sh ! k)"
  using set_indices [of sh] nth_mem [of k "indices sh"] by (auto simp: length_indices)

lemma mk_elt: "has_shape a sh \<Longrightarrow> mk sh (elt a) = a"
  by (cases a)
    (auto simp: has_shape_def mk_def elt_def length_indices ravel_indices_nth intro!: nth_equalityI)

lemma data_eq_map_elt: "has_shape a sh \<Longrightarrow> data a = map (elt a) (indices sh)"
  using mk_elt [of a sh] by (simp add: mk_def) (metis ndarray.select_convs(2))

lemma sum_list_concat_map: "sum_list (concat xss) = (\<Sum>xs \<leftarrow> xss. sum_list xs)"
  by (induction xss) simp_all

lemma sum_list_upt: "(\<Sum>i \<leftarrow> [0..<n]. f i) = (\<Sum>i<n. f i)"
  by (induction n) simp_all

lemma sum_list_indices_Cons:
  "(\<Sum>idx \<leftarrow> indices (d # ds). f idx) = (\<Sum>i<d. \<Sum>js \<leftarrow> indices ds. f (i # js))"
proof -
  have "(\<Sum>idx \<leftarrow> indices (d # ds). f idx) = (\<Sum>i \<leftarrow> [0..<d]. \<Sum>js \<leftarrow> indices ds. f (i # js))"
    by (simp add: map_concat sum_list_concat_map comp_def)
  then show ?thesis by (simp add: sum_list_upt)
qed

lemma sum_list_indices_Nil [simp]: "(\<Sum>idx \<leftarrow> indices []. f idx) = f []"
  by simp

lemma sum_prod_mk:
  assumes "has_shape dout sh"
  shows "sum_prod dout (mk sh f) = (\<Sum>idx \<leftarrow> indices sh. elt dout idx * f idx)"
proof -
  have "data dout = map (elt dout) (indices sh)"
    by (rule data_eq_map_elt [OF assms])
  then show ?thesis
    by (simp add: sum_prod_def mk_def zip_map_map zip_same_conv_map comp_def)
qed


lemma valid_idx_1: "valid_idx [M] idx = (\<exists>m. idx = [m] \<and> m < M)"
  by (auto simp: valid_idx_Cons)

lemma valid_idx_2: "valid_idx [N, M] idx = (\<exists>n m. idx = [n, m] \<and> n < N \<and> m < M)"
  by (auto simp: valid_idx_Cons)

lemma has_shapeD: "has_shape a sh \<Longrightarrow> shape a = sh" "has_shape a sh \<Longrightarrow> length (data a) = prod_list sh"
  by (simp_all add: has_shape_def)

lemma bidx_2_2: "n < N \<Longrightarrow> m < M \<Longrightarrow> bidx [N, M] [n, m] = [n, m]"
  by (auto simp: bidx_def)

lemma bidx_12_2: "bidx [Suc 0, M] [n, m] = [0, if M = Suc 0 then 0 else m]"
  by (simp add: bidx_def)

lemma elt_2: "shape a = [N, M] \<Longrightarrow> elt a [n, m] = data a ! (n * M + m)"
  by (simp add: elt_def)

lemma elt_1: "shape a = [M] \<Longrightarrow> elt a [m] = data a ! m"
  by (simp add: elt_def)

lemma reshape_infer_rows:
  assumes "0 < N" "length (data a) = N * D"
  shows "reshape_infer N a = Inr \<lparr>shape = [N, D], data = data a\<rparr>"
  using assms by (simp add: reshape_infer_def)

lemma affine_forward_eq:
  assumes N: "0 < N" and x: "has_shape x (N # ds)" and w: "has_shape w [prod_list ds, M]"
    and b: "has_shape b [M]"
  shows "affine_forward x w b =
           Inr (mk [N, M] (\<lambda>idx. (\<Sum>j \<leftarrow> [0..<prod_list ds].
                    elt \<lparr>shape = [N, prod_list ds], data = data x\<rparr> [idx ! 0, j] * elt w [j, idx ! 1])
                  + elt b [idx ! 1]),
                (x, w, b))"
proof -
  let ?D = "prod_list ds"
  let ?x2 = "\<lparr>shape = [N, ?D], data = data x\<rparr>"
  let ?G = "\<lambda>idx. \<Sum>j \<leftarrow> [0..<?D]. elt ?x2 [idx ! 0, j] * elt w [j, idx ! 1]"
  have r: "reshape_infer N x = Inr ?x2"
    using reshape_infer_rows [OF N, of x ?D] has_shapeD [OF x] by simp
  have d: "np_dot ?x2 w = Inr (mk [N, M] ?G)"
    using has_shapeD [OF w] by (simp add: np_dot_def)
  have rb: "reshape b [1, M] = Inr \<lparr>shape = [Suc 0, M], data = data b\<rparr>"
    using has_shapeD [OF b] by (simp add: reshape_def)
  have a: "np_add (mk [N, M] ?G) \<lparr>shape = [Suc 0, M], data = data b\<rparr>
             = Inr (mk [N, M] (\<lambda>idx. ?G idx + elt b [idx ! 1]))"
  proof -
    have "mk [N, M] (\<lambda>idx. elt (mk [N, M] ?G) (bidx [N, M] idx)
              + elt \<lparr>shape = [Suc 0, M], data = data b\<rparr> (bidx [Suc 0, M] idx))
          = mk [N, M] (\<lambda>idx. ?G idx + elt b [idx ! 1])"
    proof (rule mk_cong)
      fix idx assume "valid_idx [N, M] idx"
      then obtain n m where i: "idx = [n, m]" "n < N" "m < M" by (auto simp: valid_idx_2)
      show "elt (mk [N, M] ?G) (bidx [N, M] idx)
              + elt \<lparr>shape = [Suc 0, M], data = data b\<rparr> (bidx [Suc 0, M] idx)
            = ?G idx + elt b [idx ! 1]"
      proof -
        have e2: "elt \<lparr>shape = [Suc 0, M], data = data b\<rparr> [0, if M = Suc 0 then 0 else m] = data b ! m"
          using i by (auto simp: elt_def)
        have e3: "elt b [m] = data b ! m"
          using has_shapeD [OF b] by (simp add: elt_1)
        show ?thesis using i by (simp add: bidx_2_2 bidx_12_2 e2 e3)
      qed
    qed
    then show ?thesis by (simp add: np_add_def ufunc2_def)
  qed
  show ?thesis
    unfolding affine_forward_def has_shapeD(1) [OF x] has_shapeD(1) [OF w] list.case r d rb a
      rbind_Inr
    by (rule refl)
qed


lemma sum_indices_1: "(\<Sum>idx \<leftarrow> indices [M]. f idx) = (\<Sum>m<M. f [m])"
  by (simp add: sum_list_indices_Cons del: indices.simps)

lemma sum_indices_2: "(\<Sum>idx \<leftarrow> indices [N, M]. f idx) = (\<Sum>n<N. \<Sum>m<M. f [n, m])"
  by (simp add: sum_list_indices_Cons [where d = N] sum_indices_1 del: indices.simps)

lemma offset_less: "n < N \<Longrightarrow> j < D \<Longrightarrow> n * D + j < N * (D::nat)"
proof -
  assume a: "n < N" "j < D"
  then have "n * D + j < n * D + D" by simp
  also have "\<dots> = Suc n * D" by simp
  also have "\<dots> \<le> N * D" using a by (intro mult_le_mono1) simp
  finally show ?thesis .
qed

lemma offset_eq_iff:
  "j < D \<Longrightarrow> j' < D \<Longrightarrow> (n * D + j = n' * D + j') = (n = n' \<and> j = (j'::nat))"
proof
  assume a: "j < D" "j' < D" and e: "n * D + j = n' * D + j'"
  have "(n * D + j) div D = n" "(n' * D + j') div D = n'" using a by simp_all
  then have "n = n'" using e by simp
  then show "n = n' \<and> j = j'" using e by simp
qed simp

lemma DERIV_plus_const:
  "(f has_real_derivative d) F \<Longrightarrow> ((\<lambda>t. f t + c) has_real_derivative d) F"
  by (auto intro!: derivative_eq_intros)

lemma DERIV_const_plus:
  "(f has_real_derivative d) F \<Longrightarrow> ((\<lambda>t. c + f t) has_real_derivative d) F"
  by (auto intro!: derivative_eq_intros)

lemma DERIV_nth_update:
  "p < length xs \<Longrightarrow>
   ((\<lambda>t. xs[p := t] ! q) has_real_derivative (if q = p then 1 else 0)) (at t0)"
  by (cases "q = p") simp_all

lemma elt_np_T_2: "shape w = [D, M] \<Longrightarrow> m < M \<Longrightarrow> j < D \<Longrightarrow> elt (np_T w) [m, j] = elt w [j, m]"
  by (simp add: np_T_def)

lemma affine_loss_eq:
  assumes N: "0 < N" and x: "has_shape x (N # ds)" and w: "has_shape w [prod_list ds, M]"
    and b: "has_shape b [M]" and dout: "has_shape dout [N, M]"
  shows "affine_loss dout x w b =
           (\<Sum>n<N. \<Sum>m<M. elt dout [n, m] *
              ((\<Sum>j<prod_list ds. data x ! (n * prod_list ds + j) * elt w [j, m]) + elt b [m]))"
  unfolding affine_loss_def affine_forward_eq [OF N x w b]
  by (simp add: sum_prod_mk [OF dout] sum_indices_2 sum_list_upt elt_2 del: indices.simps)

lemma affine_dx:
  assumes N: "0 < N" and x: "has_shape x (N # ds)" and w: "has_shape w [prod_list ds, M]"
    and b: "has_shape b [M]" and dout: "has_shape dout [N, M]"
    and i: "valid_idx (N # ds) idx"
  shows "((\<lambda>t. affine_loss dout (set_elt x idx t) w b) has_real_derivative
           data (mk [N, prod_list ds] (\<lambda>i. \<Sum>m \<leftarrow> [0..<M]. elt dout [i ! 0, m] * elt (np_T w) [m, i ! 1]))
             ! ravel (N # ds) idx) (at t0)"
proof -
  let ?D = "prod_list ds"
  obtain n0 js where idx: "idx = n0 # js" and n0: "n0 < N" and js: "valid_idx ds js"
    using i by (auto simp: valid_idx_Cons)
  define r0 where "r0 = ravel ds js"
  have r0: "r0 < ?D" using ravel_less [OF js] by (simp add: r0_def)
  define p0 where "p0 = n0 * ?D + r0"
  have p0: "p0 < length (data x)"
    using offset_less [OF n0 r0] has_shapeD [OF x] by (simp add: p0_def)
  have rv: "ravel (N # ds) idx = p0" by (simp add: idx p0_def r0_def)
  have sx: "\<And>t. has_shape (set_elt x idx t) (N # ds)"
    using x by (simp add: has_shape_def set_elt_def)
  have dx: "\<And>t. data (set_elt x idx t) = (data x)[p0 := t]"
    using has_shapeD [OF x] by (simp add: set_elt_def rv)
  have L: "\<And>t. affine_loss dout (set_elt x idx t) w b =
           (\<Sum>n<N. \<Sum>m<M. elt dout [n, m] *
              ((\<Sum>j<?D. (data x)[p0 := t] ! (n * ?D + j) * elt w [j, m]) + elt b [m]))"
    by (simp add: affine_loss_eq [OF N sx w b dout] dx)
  have D: "((\<lambda>t. \<Sum>n<N. \<Sum>m<M. elt dout [n, m] *
              ((\<Sum>j<?D. (data x)[p0 := t] ! (n * ?D + j) * elt w [j, m]) + elt b [m]))
            has_real_derivative
           (\<Sum>n<N. \<Sum>m<M. elt dout [n, m] *
              (\<Sum>j<?D. (if n * ?D + j = p0 then 1 else 0) * elt w [j, m]))) (at t0)"
    by (intro DERIV_sum DERIV_cmult DERIV_plus_const DERIV_cmult_right DERIV_nth_update p0)
  have E: "(\<Sum>n<N. \<Sum>m<M. elt dout [n, m] *
              (\<Sum>j<?D. (if n * ?D + j = p0 then 1 else 0) * elt w [j, m]))
           = (\<Sum>m<M. elt dout [n0, m] * elt w [r0, m])"
  proof -
    have "\<And>n m. n < N \<Longrightarrow> (\<Sum>j<?D. (if n * ?D + j = p0 then 1 else 0) * elt w [j, m])
                 = (if n = n0 then elt w [r0, m] else 0)"
    proof -
      fix n m assume "n < N"
      have "(\<Sum>j<?D. (if n * ?D + j = p0 then 1 else 0) * elt w [j, m])
            = (\<Sum>j<?D. if j = r0 then (if n = n0 then elt w [r0, m] else 0) else 0)"
        by (rule sum.cong) (auto simp: p0_def offset_eq_iff r0)
      also have "\<dots> = (if n = n0 then elt w [r0, m] else 0)"
        using r0 by (simp add: sum.delta)
      finally show "(\<Sum>j<?D. (if n * ?D + j = p0 then 1 else 0) * elt w [j, m])
                 = (if n = n0 then elt w [r0, m] else 0)" .
    qed
    then have "(\<Sum>n<N. \<Sum>m<M. elt dout [n, m] *
              (\<Sum>j<?D. (if n * ?D + j = p0 then 1 else 0) * elt w [j, m]))
          = (\<Sum>n<N. if n = n0 then (\<Sum>m<M. elt dout [n0, m] * elt w [r0, m]) else 0)"
      by (intro sum.cong refl) auto
    also have "\<dots> = (\<Sum>m<M. elt dout [n0, m] * elt w [r0, m])"
      using n0 by (simp add: sum.delta)
    finally show ?thesis .
  qed
  have T: "data (mk [N, ?D] (\<lambda>i. \<Sum>m \<leftarrow> [0..<M]. elt dout [i ! 0, m] * elt (np_T w) [m, i ! 1]))
             ! ravel (N # ds) idx = (\<Sum>m<M. elt dout [n0, m] * elt w [r0, m])"
  proof -
    have "data (mk [N, ?D] (\<lambda>i. \<Sum>m \<leftarrow> [0..<M]. elt dout [i ! 0, m] * elt (np_T w) [m, i ! 1]))
             ! ravel (N # ds) idx
          = elt (mk [N, ?D] (\<lambda>i. \<Sum>m \<leftarrow> [0..<M]. elt dout [i ! 0, m] * elt (np_T w) [m, i ! 1])) [n0, r0]"
      by (simp add: elt_def rv p0_def)
    also have "\<dots> = (\<Sum>m<M. elt dout [n0, m] * elt (np_T w) [m, r0])"
      using n0 r0 by (simp add: sum_list_upt)
    also have "\<dots> = (\<Sum>m<M. elt dout [n0, m] * elt w [r0, m])"
      using r0 has_shapeD [OF w] by (intro sum.cong refl) (simp add: elt_np_T_2)
    finally show ?thesis .
  qed
  show ?thesis unfolding L T using D unfolding E .
qed


lemma has_shape_set_elt [simp]: "has_shape (set_elt a i t) sh = has_shape a sh"
  by (simp add: has_shape_def set_elt_def)

lemma shape_set_elt [simp]: "shape (set_elt a i t) = shape a"
  by (simp add: set_elt_def)

lemma elt_set_elt:
  assumes "has_shape a sh" "valid_idx sh i0" "valid_idx sh i"
  shows "elt (set_elt a i0 t) i = (if i = i0 then t else elt a i)"
proof -
  have l: "ravel sh i0 < length (data a)" "ravel sh i < length (data a)"
    using assms ravel_less by (simp_all add: has_shape_def)
  have "ravel sh i = ravel sh i0 \<longleftrightarrow> i = i0"
    using ravel_inj [OF assms(3) assms(2)] by auto
  then show ?thesis
    using l has_shapeD(1) [OF assms(1)] by (auto simp: elt_def set_elt_def)
qed

lemma DERIV_elt_set_elt:
  assumes "has_shape a sh" "valid_idx sh i0" "valid_idx sh i"
  shows "((\<lambda>t. elt (set_elt a i0 t) i) has_real_derivative (if i = i0 then 1 else 0)) (at t0)"
proof -
  have e: "\<And>t. elt (set_elt a i0 t) i = (if i = i0 then t else elt a i)"
    by (rule elt_set_elt [OF assms])
  show ?thesis unfolding e by (cases "i = i0") simp_all
qed

lemma affine_loss_eq':
  assumes N: "0 < N" and x: "has_shape x (N # ds)" and w: "has_shape w [prod_list ds, M]"
    and b: "has_shape b [M]" and dout: "has_shape dout [N, M]"
  shows "affine_loss dout x w b =
           (\<Sum>n<N. \<Sum>m<M. elt dout [n, m] *
              ((\<Sum>j<prod_list ds. elt \<lparr>shape = [N, prod_list ds], data = data x\<rparr> [n, j] * elt w [j, m])
                + elt b [m]))"
  unfolding affine_loss_def affine_forward_eq [OF N x w b]
  by (simp add: sum_prod_mk [OF dout] sum_indices_2 sum_list_upt del: indices.simps)

lemma affine_dw:
  assumes N: "0 < N" and x: "has_shape x (N # ds)" and w: "has_shape w [prod_list ds, M]"
    and b: "has_shape b [M]" and dout: "has_shape dout [N, M]"
    and i: "valid_idx [prod_list ds, M] idx"
  shows "((\<lambda>t. affine_loss dout x (set_elt w idx t) b) has_real_derivative
           elt (mk [prod_list ds, M] (\<lambda>i. \<Sum>n \<leftarrow> [0..<N].
                  elt (np_T \<lparr>shape = [N, prod_list ds], data = data x\<rparr>) [i ! 0, n] * elt dout [n, i ! 1]))
             idx) (at t0)"
proof -
  let ?D = "prod_list ds"
  let ?x2 = "\<lparr>shape = [N, ?D], data = data x\<rparr>"
  obtain j0 m0 where idx: "idx = [j0, m0]" and j0: "j0 < ?D" and m0: "m0 < M"
    using i by (auto simp: valid_idx_2)
  have L: "\<And>t. affine_loss dout x (set_elt w idx t) b =
           (\<Sum>n<N. \<Sum>m<M. elt dout [n, m] *
              ((\<Sum>j<?D. elt ?x2 [n, j] * elt (set_elt w idx t) [j, m]) + elt b [m]))"
    using w by (intro affine_loss_eq' [OF N x _ b dout]) simp
  have D: "((\<lambda>t. \<Sum>n<N. \<Sum>m<M. elt dout [n, m] *
              ((\<Sum>j<?D. elt ?x2 [n, j] * elt (set_elt w idx t) [j, m]) + elt b [m]))
            has_real_derivative
           (\<Sum>n<N. \<Sum>m<M. elt dout [n, m] *
              (\<Sum>j<?D. elt ?x2 [n, j] * (if [j, m] = idx then 1 else 0)))) (at t0)"
    by (intro DERIV_sum DERIV_cmult DERIV_plus_const DERIV_elt_set_elt [OF w i]) simp
  have E: "(\<Sum>n<N. \<Sum>m<M. elt dout [n, m] *
              (\<Sum>j<?D. elt ?x2 [n, j] * (if [j, m] = idx then 1 else 0)))
           = (\<Sum>n<N. elt ?x2 [n, j0] * elt dout [n, m0])"
  proof (rule sum.cong [OF refl])
    fix n
    have "\<And>m. (\<Sum>j<?D. elt ?x2 [n, j] * (if [j, m] = idx then 1 else 0))
               = (if m = m0 then elt ?x2 [n, j0] else 0)"
    proof -
      fix m
      have "(\<Sum>j<?D. elt ?x2 [n, j] * (if [j, m] = idx then 1 else 0))
            = (\<Sum>j<?D. if j = j0 then (if m = m0 then elt ?x2 [n, j0] else 0) else 0)"
        by (rule sum.cong) (auto simp: idx)
      also have "\<dots> = (if m = m0 then elt ?x2 [n, j0] else 0)"
        using j0 by (simp add: sum.delta)
      finally show "(\<Sum>j<?D. elt ?x2 [n, j] * (if [j, m] = idx then 1 else 0))
               = (if m = m0 then elt ?x2 [n, j0] else 0)" .
    qed
    then have "(\<Sum>m<M. elt dout [n, m] * (\<Sum>j<?D. elt ?x2 [n, j] * (if [j, m] = idx then 1 else 0)))
          = (\<Sum>m<M. if m = m0 then elt ?x2 [n, j0] * elt dout [n, m0] else 0)"
      by (intro sum.cong refl) auto
    also have "\<dots> = elt ?x2 [n, j0] * elt dout [n, m0]"
      using m0 by (simp add: sum.delta)
    finally show "(\<Sum>m<M. elt dout [n, m] * (\<Sum>j<?D. elt ?x2 [n, j] * (if [j, m] = idx then 1 else 0)))
          = elt ?x2 [n, j0] * elt dout [n, m0]" .
  qed
  have T: "elt (mk [?D, M] (\<lambda>i. \<Sum>n \<leftarrow> [0..<N]. elt (np_T ?x2) [i ! 0, n] * elt dout [n, i ! 1])) idx
           = (\<Sum>n<N. elt ?x2 [n, j0] * elt dout [n, m0])"
  proof -
    have "elt (mk [?D, M] (\<lambda>i. \<Sum>n \<leftarrow> [0..<N]. elt (np_T ?x2) [i ! 0, n] * elt dout [n, i ! 1])) idx
          = (\<Sum>n<N. elt (np_T ?x2) [j0, n] * elt dout [n, m0])"
      using j0 m0 by (simp add: idx sum_list_upt)
    also have "\<dots> = (\<Sum>n<N. elt ?x2 [n, j0] * elt dout [n, m0])"
      using j0 by (intro sum.cong refl) (simp add: elt_np_T_2)
    finally show ?thesis .
  qed
  show ?thesis unfolding L T using D unfolding E .
qed

lemma affine_db:
  assumes N: "0 < N" and x: "has_shape x (N # ds)" and w: "has_shape w [prod_list ds, M]"
    and b: "has_shape b [M]" and dout: "has_shape dout [N, M]"
    and i: "valid_idx [M] idx"
  shows "((\<lambda>t. affine_loss dout x w (set_elt b idx t)) has_real_derivative
           elt (mk [M] (\<lambda>i. \<Sum>n \<leftarrow> [0..<N]. elt dout (n # i))) idx) (at t0)"
proof -
  let ?D = "prod_list ds"
  let ?x2 = "\<lparr>shape = [N, ?D], data = data x\<rparr>"
  obtain m0 where idx: "idx = [m0]" and m0: "m0 < M"
    using i by (auto simp: valid_idx_1)
  have L: "\<And>t. affine_loss dout x w (set_elt b idx t) =
           (\<Sum>n<N. \<Sum>m<M. elt dout [n, m] *
              ((\<Sum>j<?D. elt ?x2 [n, j] * elt w [j, m]) + elt (set_elt b idx t) [m]))"
    using b by (intro affine_loss_eq' [OF N x w _ dout]) simp
  have D: "((\<lambda>t. \<Sum>n<N. \<Sum>m<M. elt dout [n, m] *
              ((\<Sum>j<?D. elt ?x2 [n, j] * elt w [j, m]) + elt (set_elt b idx t) [m]))
            has_real_derivative
           (\<Sum>n<N. \<Sum>m<M. elt dout [n, m] * (if [m] = idx then 1 else 0))) (at t0)"
    by (intro DERIV_sum DERIV_cmult DERIV_const_plus DERIV_elt_set_elt [OF b i]) simp
  have E: "(\<Sum>n<N. \<Sum>m<M. elt dout [n, m] * (if [m] = idx then 1 else 0))
           = (\<Sum>n<N. elt dout [n, m0])"
  proof (rule sum.cong [OF refl])
    fix n
    have "(\<Sum>m<M. elt dout [n, m] * (if [m] = idx then 1 else 0))
          = (\<Sum>m<M. if m = m0 then elt dout [n, m0] else 0)"
      by (intro sum.cong refl) (auto simp: idx)
    also have "\<dots> = elt dout [n, m0]"
      using m0 by (simp add: sum.delta)
    finally show "(\<Sum>m<M. elt dout [n, m] * (if [m] = idx then 1 else 0)) = elt dout [n, m0]" .
  qed
  have T: "elt (mk [M] (\<lambda>i. \<Sum>n \<leftarrow> [0..<N]. elt dout (n # i))) idx = (\<Sum>n<N. elt dout [n, m0])"
    using m0 by (simp add: idx sum_list_upt)
  show ?thesis unfolding L T using D unfolding E .
qed


lemma affine_backward_eq:
  assumes N: "0 < N" and x: "has_shape x (N # ds)" and w: "has_shape w [prod_list ds, M]"
    and dout: "has_shape dout [N, M]"
  shows "affine_backward dout (x, w, b) =
           Inr (\<lparr>shape = N # ds,
                 data = data (mk [N, prod_list ds]
                   (\<lambda>i. \<Sum>m \<leftarrow> [0..<M]. elt dout [i ! 0, m] * elt (np_T w) [m, i ! 1]))\<rparr>,
                mk [prod_list ds, M] (\<lambda>i. \<Sum>n \<leftarrow> [0..<N].
                  elt (np_T \<lparr>shape = [N, prod_list ds], data = data x\<rparr>) [i ! 0, n] * elt dout [n, i ! 1]),
                mk [M] (\<lambda>i. \<Sum>n \<leftarrow> [0..<N]. elt dout (n # i)))"
proof -
  let ?D = "prod_list ds"
  let ?x2 = "\<lparr>shape = [N, ?D], data = data x\<rparr>"
  let ?dxw = "mk [N, ?D] (\<lambda>i. \<Sum>m \<leftarrow> [0..<M]. elt dout [i ! 0, m] * elt (np_T w) [m, i ! 1])"
  have d1: "np_dot dout (np_T w) = Inr ?dxw"
    using has_shapeD [OF w] has_shapeD [OF dout] by (simp add: np_dot_def np_T_def)
  have r1: "reshape ?dxw (N # ds) = Inr \<lparr>shape = N # ds, data = data ?dxw\<rparr>"
    by (simp add: reshape_def mk_def length_indices del: indices.simps)
  have r2: "reshape_infer N x = Inr ?x2"
    using reshape_infer_rows [OF N, of x ?D] has_shapeD [OF x] by simp
  have d2: "np_dot (np_T ?x2) dout =
      Inr (mk [?D, M] (\<lambda>i. \<Sum>n \<leftarrow> [0..<N]. elt (np_T ?x2) [i ! 0, n] * elt dout [n, i ! 1]))"
    using has_shapeD [OF dout] by (simp add: np_dot_def np_T_def)
  have s: "np_sum0 dout = Inr (mk [M] (\<lambda>i. \<Sum>n \<leftarrow> [0..<N]. elt dout (n # i)))"
    using has_shapeD [OF dout] by (simp add: np_sum0_def)
  show ?thesis
    unfolding affine_backward_def prod.case d1 rbind_Inr has_shapeD(1) [OF x] r1 list.case r2 d2 s
    by (rule refl)
qed

subsection \<open>Max pooling\<close>

declare indices.simps [simp del]

lemma pool_extent:
  assumes "0 < S" "h \<le> H"
  shows "nat (py_int ((real H - real h) / real S + 1)) = (H - h) div S + 1"
proof -
  have e: "real H - real h = real (H - h)" using assms by simp
  have "\<lfloor>real (H - h) / real S + 1\<rfloor> = int ((H - h) div S) + 1"
    by (simp add: floor_divide_of_nat_eq)
  moreover have "0 \<le> real (H - h) / real S + 1" by simp
  ultimately show ?thesis unfolding e py_int_def by simp
qed

lemma window_in_bounds:
  assumes "h \<le> H" "i < (H - h) div S + 1"
  shows "S * i + h \<le> (H::nat)"
proof -
  have "i \<le> (H - h) div S" using assms by simp
  then have "S * i \<le> S * ((H - h) div S)" by simp
  also have "\<dots> \<le> H - h" by simp
  finally show ?thesis using assms by simp
qed

lemma for_loop_append:
  "for_loop (xs @ ys) body s = rbind (for_loop xs body s) (for_loop ys body)"
  by (induction xs arbitrary: s) (auto simp: rbind_def split: sum.splits)

lemma valid_idx_4:
  "valid_idx [N, C, H, W] idx = (\<exists>n c p q. idx = [n, c, p, q] \<and> n < N \<and> c < C \<and> p < H \<and> q < W)"
  by (auto simp: valid_idx_Cons)

lemma bidx_valid: "valid_idx s idx \<Longrightarrow> bidx s idx = idx"
proof -
  assume v: "valid_idx s idx"
  then have l: "length idx = length s" by (auto simp: valid_idx_def dest: list_all2_lengthD)
  have "map2 (\<lambda>d i. if d = 1 then 0 else i) s idx = idx"
    using v unfolding valid_idx_def
    by (induction idx s rule: list_all2_induct) auto
  then show ?thesis using l by (simp add: bidx_def)
qed

lemma bidx_4_11:
  "n < N \<Longrightarrow> c < C \<Longrightarrow> bidx [N, C, Suc 0, Suc 0] [n, c, p, q] = [n, c, 0, 0]"
  by (auto simp: bidx_def)

lemma broadcast_shapes_4_11 [simp]:
  "broadcast_shapes [N, C, h, w] [N, C, Suc 0, Suc 0] = Inr [N, C, h, w]"
  by (simp add: broadcast_shapes_def)

lemma ufunc2_4_11:
  assumes "shape a = [N, C, h, w]" "shape b = [N, C, 1, 1]"
  shows "ufunc2 f a b = Inr (mk [N, C, h, w] (\<lambda>idx. f (elt a idx) (elt b [idx ! 0, idx ! 1, 0, 0])))"
proof -
  have "mk [N, C, h, w] (\<lambda>idx. f (elt a (bidx [N, C, h, w] idx)) (elt b (bidx [N, C, Suc 0, Suc 0] idx)))
        = mk [N, C, h, w] (\<lambda>idx. f (elt a idx) (elt b [idx ! 0, idx ! 1, 0, 0]))"
  proof (rule mk_cong)
    fix idx assume v: "valid_idx [N, C, h, w] idx"
    then obtain n c p q where "idx = [n, c, p, q]" "n < N" "c < C" by (auto simp: valid_idx_4)
    then show "f (elt a (bidx [N, C, h, w] idx)) (elt b (bidx [N, C, Suc 0, Suc 0] idx))
               = f (elt a idx) (elt b [idx ! 0, idx ! 1, 0, 0])"
      using bidx_valid [OF v] by (simp add: bidx_4_11)
  qed
  then show ?thesis using assms by (simp add: ufunc2_def)
qed

lemma slice23_in_bounds:
  assumes "shape a = [N, C, H, W]" "r0 + h \<le> H" "c0 + w \<le> W"
  shows "slice23 a r0 (r0 + h) c0 (c0 + w)
           = mk [N, C, h, w] (\<lambda>idx. elt a [idx ! 0, idx ! 1, r0 + idx ! 2, c0 + idx ! 3])"
  using assms by (simp add: slice23_def Let_def min_def max_def)

lemma window_set:
  "set (concat (map (\<lambda>p. map (\<lambda>q. g p q) [0..<w]) [0..<h]))
     = (\<lambda>(p, q). g (p - r0) (q - c0)) ` ({r0..<r0 + h} \<times> {c0..<c0 + (w::nat)})"
proof -
  have "set (concat (map (\<lambda>p. map (\<lambda>q. g p q) [0..<w]) [0..<h])) = (\<lambda>(p, q). g p q) ` ({..<h} \<times> {..<w})"
    by (fastforce simp: image_iff)
  also have "\<dots> = (\<lambda>(p, q). g (p - r0) (q - c0)) ` ({r0..<r0 + h} \<times> {c0..<c0 + w})"
  proof (intro set_eqI iffI)
    fix v assume "v \<in> (\<lambda>(p, q). g p q) ` ({..<h} \<times> {..<w})"
    then obtain p q where "v = g p q" "p < h" "q < w" by auto
    then have "v = (\<lambda>(p, q). g (p - r0) (q - c0)) (r0 + p, c0 + q)"
      "(r0 + p, c0 + q) \<in> {r0..<r0 + h} \<times> {c0..<c0 + w}" by auto
    then show "v \<in> (\<lambda>(p, q). g (p - r0) (q - c0)) ` ({r0..<r0 + h} \<times> {c0..<c0 + w})" by blast
  next
    fix v assume "v \<in> (\<lambda>(p, q). g (p - r0) (q - c0)) ` ({r0..<r0 + h} \<times> {c0..<c0 + w})"
    then obtain p q where "v = g (p - r0) (q - c0)" "r0 \<le> p" "p < r0 + h" "c0 \<le> q" "q < c0 + w"
      by auto
    then have "v = (\<lambda>(p, q). g p q) (p - r0, q - c0)" "(p - r0, q - c0) \<in> {..<h} \<times> {..<w}"
      by auto
    then show "v \<in> (\<lambda>(p, q). g p q) ` ({..<h} \<times> {..<w})" by blast
  qed
  finally show ?thesis .
qed


lemma iadd_slice23_in_bounds:
  assumes "shape a = [N, C, H, W]" "r0 + h \<le> H" "c0 + w \<le> W" "shape v = [N, C, h, w]"
  shows "iadd_slice23 a r0 (r0 + h) c0 (c0 + w) v
         = Inr (mk [N, C, H, W]
             (\<lambda>idx. if r0 \<le> idx ! 2 \<and> idx ! 2 < r0 + h \<and> c0 \<le> idx ! 3 \<and> idx ! 3 < c0 + w
                    then elt a idx + elt v (bidx [N, C, h, w] [idx ! 0, idx ! 1, idx ! 2 - r0, idx ! 3 - c0])
                    else elt a idx))"
  using assms by (simp add: iadd_slice23_def Let_def min_def max_def cong: if_cong)

lemma pool_step:
  assumes x: "shape x = [N, C, H, W]" and d: "shape dout = [N, C, HH, WW]"
    and bh: "S * i + h \<le> H" and bw: "S * j + w \<le> W" and h: "0 < h" and w: "0 < w"
    and i: "i < HH" and j: "j < WW"
  shows "(let a = slice23 x (S * i) (S * i + h) (S * j) (S * j + w)
          in rbind (np_max23_keepdims a) (\<lambda>amax.
             rbind (np_equal a amax) (\<lambda>eq.
             rbind (np_mul eq (slice23 dout i (i + 1) j (j + 1))) (\<lambda>inc.
             iadd_slice23 (mk [N, C, H, W] F) (S * i) (S * i + h) (S * j) (S * j + w) inc))))
         = Inr (mk [N, C, H, W] (\<lambda>idx. F idx + routed x dout S h w i j idx))"
proof -
  let ?A = "\<lambda>idx. elt x [idx ! 0, idx ! 1, S * i + idx ! 2, S * j + idx ! 3]"
  let ?a = "mk [N, C, h, w] ?A"
  let ?MX = "\<lambda>idx. Max (set (concat (map (\<lambda>p. map (\<lambda>q. elt ?a [idx ! 0, idx ! 1, p, q])
                                [0..<w]) [0..<h])))"
  let ?amax = "mk [N, C, 1, 1] ?MX"
  let ?eq = "mk [N, C, h, w] (\<lambda>idx. if elt ?a idx = elt ?amax [idx ! 0, idx ! 1, 0, 0] then 1 else 0 :: real)"
  let ?dsl = "mk [N, C, 1, 1] (\<lambda>idx. elt dout [idx ! 0, idx ! 1, i + idx ! 2, j + idx ! 3])"
  let ?inc = "mk [N, C, h, w] (\<lambda>idx. elt ?eq idx * elt ?dsl [idx ! 0, idx ! 1, 0, 0])"
  have a: "slice23 x (S * i) (S * i + h) (S * j) (S * j + w) = ?a"
    by (rule slice23_in_bounds [OF x bh bw])
  have m: "np_max23_keepdims ?a = Inr ?amax"
    using h w by (simp add: np_max23_keepdims_def)
  have e: "np_equal ?a ?amax = Inr ?eq"
    unfolding np_equal_def by (rule ufunc2_4_11) simp_all
  have ds: "slice23 dout i (i + 1) j (j + 1) = ?dsl"
    using slice23_in_bounds [OF d, of i 1 j 1] i j by simp
  have mu: "np_mul ?eq ?dsl = Inr ?inc"
    unfolding np_mul_def by (rule ufunc2_4_11) simp_all
  have mx: "?MX [n, c, 0, 0] = window_max x S h w n c i j" if "n < N" "c < C" for n c
  proof -
    have "set (concat (map (\<lambda>p. map (\<lambda>q. elt ?a [n, c, p, q]) [0..<w]) [0..<h]))
          = (\<lambda>(p, q). elt ?a [n, c, p - S * i, q - S * j]) ` ({S * i..<S * i + h} \<times> {S * j..<S * j + w})"
      by (rule window_set)
    also have "\<dots> = (\<lambda>(p, q). elt x [n, c, p, q]) ` ({S * i..<S * i + h} \<times> {S * j..<S * j + w})"
    proof (rule image_cong [OF refl])
      fix pq assume "pq \<in> {S * i..<S * i + h} \<times> {S * j..<S * j + w}"
      then obtain p q where pq: "pq = (p, q)" "S * i \<le> p" "p < S * i + h" "S * j \<le> q" "q < S * j + w"
        by auto
      then have "p - S * i < h" "q - S * j < w" by linarith+
      then have "elt ?a [n, c, p - S * i, q - S * j] = elt x [n, c, p, q]"
        using that pq by simp
      then show "(case pq of (p, q) \<Rightarrow> elt ?a [n, c, p - S * i, q - S * j])
                 = (case pq of (p, q) \<Rightarrow> elt x [n, c, p, q])"
        by (simp add: pq)
    qed
    finally show ?thesis by (simp add: window_max_def)
  qed
  have ia: "iadd_slice23 (mk [N, C, H, W] F) (S * i) (S * i + h) (S * j) (S * j + w) ?inc
            = Inr (mk [N, C, H, W] (\<lambda>idx. F idx + routed x dout S h w i j idx))"
  proof -
    have "mk [N, C, H, W]
            (\<lambda>idx. if S * i \<le> idx ! 2 \<and> idx ! 2 < S * i + h \<and> S * j \<le> idx ! 3 \<and> idx ! 3 < S * j + w
                   then elt (mk [N, C, H, W] F) idx
                        + elt ?inc (bidx [N, C, h, w] [idx ! 0, idx ! 1, idx ! 2 - S * i, idx ! 3 - S * j])
                   else elt (mk [N, C, H, W] F) idx)
          = mk [N, C, H, W] (\<lambda>idx. F idx + routed x dout S h w i j idx)"
    proof (rule mk_cong)
      fix idx assume v: "valid_idx [N, C, H, W] idx"
      then obtain n c p q where idx: "idx = [n, c, p, q]" and n: "n < N" and c: "c < C"
        and p: "p < H" and q: "q < W" by (auto simp: valid_idx_4)
      show "(if S * i \<le> idx ! 2 \<and> idx ! 2 < S * i + h \<and> S * j \<le> idx ! 3 \<and> idx ! 3 < S * j + w
                   then elt (mk [N, C, H, W] F) idx
                        + elt ?inc (bidx [N, C, h, w] [idx ! 0, idx ! 1, idx ! 2 - S * i, idx ! 3 - S * j])
                   else elt (mk [N, C, H, W] F) idx)
            = F idx + routed x dout S h w i j idx"
      proof (cases "S * i \<le> p \<and> p < S * i + h \<and> S * j \<le> q \<and> q < S * j + w")
        case True
        then have v2: "valid_idx [N, C, h, w] [n, c, p - S * i, q - S * j]"
          using n c by auto
        have "elt ?inc [n, c, p - S * i, q - S * j]
              = (if elt x [n, c, p, q] = window_max x S h w n c i j then elt dout [n, c, i, j] else 0)"
          using v2 True n c mx [OF n c] by simp
        then show ?thesis
          using True v bidx_valid [OF v2]
          by (simp add: idx routed_def window_ties_def)
      next
        case False
        then show ?thesis
          using v by (auto simp: idx routed_def window_ties_def)
      qed
    qed
    moreover have "iadd_slice23 (mk [N, C, H, W] F) (S * i) (S * i + h) (S * j) (S * j + w) ?inc
          = Inr (mk [N, C, H, W]
            (\<lambda>idx. if S * i \<le> idx ! 2 \<and> idx ! 2 < S * i + h \<and> S * j \<le> idx ! 3 \<and> idx ! 3 < S * j + w
                   then elt (mk [N, C, H, W] F) idx
                        + elt ?inc (bidx [N, C, h, w] [idx ! 0, idx ! 1, idx ! 2 - S * i, idx ! 3 - S * j])
                   else elt (mk [N, C, H, W] F) idx))"
      by (rule iadd_slice23_in_bounds [OF _ bh bw]) simp_all
    ultimately show ?thesis by (simp only:)
  qed
  show ?thesis unfolding Let_def a m rbind_Inr e ds mu ia by (rule refl)
qed


lemma upt_Suc_snoc: "[0..<Suc n] = [0..<n] @ [n]"
  by simp

lemma pool_inner_loop:
  assumes x: "shape x = [N, C, H, W]" and d: "shape dout = [N, C, HH, WW]"
    and bh: "S * i + h \<le> H" and bw: "\<And>j. j < WW \<Longrightarrow> S * j + w \<le> W"
    and h: "0 < h" and w: "0 < w" and i: "i < HH" and b: "b \<le> WW"
  shows "for_loop [0..<b] (\<lambda>j dx.
             let a = slice23 x (S * i) (S * i + h) (S * j) (S * j + w)
             in rbind (np_max23_keepdims a) (\<lambda>amax.
                rbind (np_equal a amax) (\<lambda>eq.
                rbind (np_mul eq (slice23 dout i (i + 1) j (j + 1))) (\<lambda>inc.
                iadd_slice23 dx (S * i) (S * i + h) (S * j) (S * j + w) inc))))
           (mk [N, C, H, W] F)
         = Inr (mk [N, C, H, W] (\<lambda>idx. F idx + (\<Sum>j<b. routed x dout S h w i j idx)))"
  using b
proof (induction b)
  case 0
  then show ?case by simp
next
  case (Suc b)
  then have b: "b < WW" "b \<le> WW" by simp_all
  show ?case
    unfolding upt_Suc_snoc for_loop_append Suc.IH [OF b(2)] rbind_Inr for_loop.simps
      pool_step [OF x d bh bw [OF b(1)] h w i b(1)]
    by (simp add: add.assoc)
qed

lemma pool_outer_loop:
  assumes x: "shape x = [N, C, H, W]" and d: "shape dout = [N, C, HH, WW]"
    and bh: "\<And>i. i < HH \<Longrightarrow> S * i + h \<le> H" and bw: "\<And>j. j < WW \<Longrightarrow> S * j + w \<le> W"
    and h: "0 < h" and w: "0 < w" and a: "a \<le> HH"
  shows "for_loop [0..<a] (\<lambda>i.
           for_loop [0..<WW] (\<lambda>j dx.
             let a = slice23 x (S * i) (S * i + h) (S * j) (S * j + w)
             in rbind (np_max23_keepdims a) (\<lambda>amax.
                rbind (np_equal a amax) (\<lambda>eq.
                rbind (np_mul eq (slice23 dout i (i + 1) j (j + 1))) (\<lambda>inc.
                iadd_slice23 dx (S * i) (S * i + h) (S * j) (S * j + w) inc)))))
           (mk [N, C, H, W] F)
         = Inr (mk [N, C, H, W] (\<lambda>idx. F idx + (\<Sum>i<a. \<Sum>j<WW. routed x dout S h w i j idx)))"
  using a
proof (induction a)
  case 0
  then show ?case by simp
next
  case (Suc a)
  then have a: "a < HH" "a \<le> HH" by simp_all
  show ?case
    apply (simp only: upt_Suc_snoc for_loop_append Suc.IH [OF a(2)] rbind_Inr for_loop.simps)
    apply (simp only: pool_inner_loop [OF x d bh [OF a(1)] bw h w a(1) order_refl])
    apply (simp add: add.assoc)
    done
qed

lemma max_pool_backward_eq:
  assumes x: "shape x = [N, C, H, W]" and S: "0 < S" and h: "0 < h" "h \<le> H" and w: "0 < w" "w \<le> W"
    and d: "shape dout = [N, C, (H - h) div S + 1, (W - w) div S + 1]"
  shows "max_pool_backward_naive dout (x, \<lparr>pool_height = h, pool_width = w, stride = S\<rparr>)
         = Inr (mk [N, C, H, W]
             (\<lambda>idx. \<Sum>i<(H - h) div S + 1. \<Sum>j<(W - w) div S + 1. routed x dout S h w i j idx))"
proof -
  have e: "nat (py_int ((real H - real h) / real S + 1)) = (H - h) div S + 1"
    "nat (py_int ((real W - real w) / real S + 1)) = (W - w) div S + 1"
    using pool_extent [OF S h(2)] pool_extent [OF S w(2)] by simp_all
  have z: "np_zeros [N, C, H, W] = mk [N, C, H, W] (\<lambda>idx. 0)" by (simp add: np_zeros_def)
  show ?thesis
    using S
    apply (simp only: max_pool_backward_naive_def prod.case x list.case Let_def pool_param.simps e z)
    apply (simp only: pool_outer_loop [OF x d window_in_bounds [OF h(2)] window_in_bounds [OF w(2)] h(1) w(1) order_refl,
        unfolded Let_def])
    apply simp
    done
qed

lemma ties_sum:
  assumes bh: "S * i + h \<le> H" and bw: "S * j + w \<le> W"
  shows "(\<Sum>p<H. \<Sum>q<W. routed x dout S h w i j [n, c, p, q])
         = real (card (window_ties x S h w n c i j)) * elt dout [n, c, i, j]"
proof -
  let ?T = "window_ties x S h w n c i j"
  have sub: "?T \<subseteq> {..<H} \<times> {..<W}"
    using bh bw by (auto simp: window_ties_def)
  have fin: "finite ?T" using sub by (rule finite_subset) simp
  have "(\<Sum>p<H. \<Sum>q<W. routed x dout S h w i j [n, c, p, q])
        = (\<Sum>pq \<in> {..<H} \<times> {..<W}. if pq \<in> ?T then elt dout [n, c, i, j] else 0)"
    by (simp add: sum.cartesian_product routed_def split_def cong: if_cong)
  also have "\<dots> = (\<Sum>pq \<in> ?T. elt dout [n, c, i, j])"
    using sub by (simp add: sum.inter_restrict [symmetric] Int_absorb1)
  also have "\<dots> = real (card ?T) * elt dout [n, c, i, j]" by simp
  finally show ?thesis .
qed

lemma ties_nonempty:
  assumes h: "0 < h" and w: "0 < w"
  shows "1 \<le> card (window_ties x S h w n c i j)"
proof -
  let ?W = "{S * i..<S * i + h} \<times> {S * j..<S * j + w}"
  let ?f = "\<lambda>(p, q). elt x [n, c, p, q]"
  have ne: "?f ` ?W \<noteq> {}" using h w by auto
  have "Max (?f ` ?W) \<in> ?f ` ?W" by (rule Max_in) (use ne in auto)
  then obtain p q where "(p, q) \<in> ?W" "elt x [n, c, p, q] = Max (?f ` ?W)" by auto
  then have m: "(p, q) \<in> window_ties x S h w n c i j"
    by (auto simp: window_ties_def window_max_def)
  have "window_ties x S h w n c i j \<subseteq> ?W" by (auto simp: window_ties_def)
  then have "finite (window_ties x S h w n c i j)" by (rule finite_subset) simp
  then show ?thesis using m by (metis One_nat_def Suc_leI card_gt_0_iff empty_iff)
qed


lemma window_ties_example:
  "window_ties \<lparr>shape = [1, 1, 2, 3], data = [1, 5, 5, 5, 2, 7]\<rparr> 1 2 2 0 0 0 0 = {(0, 1), (1, 0)}"
proof -
  let ?X = "\<lparr>shape = [1, 1, 2, 3], data = [1, 5, 5, 5, 2, 7::real]\<rparr>"
  have s: "{1 * 0..<1 * 0 + 2::nat} = {0, 1}" by auto
  have e: "elt ?X [0, 0, 0, 0] = 1" "elt ?X [0, 0, 0, 1] = 5" "elt ?X [0, 0, 1, 0] = 5"
    "elt ?X [0, 0, 1, 1] = 2"
    by (simp_all add: elt_def)
  have "(\<lambda>(p, q). elt ?X [0, 0, p, q]) ` ({0, 1} \<times> {0, 1}) = {1, 5, 2}"
    using e by auto
  then have m: "window_max ?X 1 2 2 0 0 0 0 = 5"
    unfolding window_max_def s by simp
  show ?thesis
    unfolding window_ties_def m s using e by auto
qed

subsection \<open>The LSTM step\<close>

lemma np_dot_mk:
  "np_dot (mk [n, k] F) (mk [k, m] G)
     = Inr (mk [n, m] (\<lambda>idx. \<Sum>j<k. F [idx ! 0, j] * G [j, idx ! 1]))"
proof -
  have "mk [n, m] (\<lambda>idx. \<Sum>j \<leftarrow> [0..<k]. elt (mk [n, k] F) [idx ! 0, j] * elt (mk [k, m] G) [j, idx ! 1])
        = mk [n, m] (\<lambda>idx. \<Sum>j<k. F [idx ! 0, j] * G [j, idx ! 1])"
  proof (rule mk_cong)
    fix idx assume "valid_idx [n, m] idx"
    then obtain a c where i: "idx = [a, c]" "a < n" "c < m" by (auto simp: valid_idx_2)
    show "(\<Sum>j \<leftarrow> [0..<k]. elt (mk [n, k] F) [idx ! 0, j] * elt (mk [k, m] G) [j, idx ! 1])
          = (\<Sum>j<k. F [idx ! 0, j] * G [j, idx ! 1])"
      unfolding sum_list_upt using i by (intro sum.cong refl) simp
  qed
  then show ?thesis by (simp add: np_dot_def)
qed

lemma ufunc2_mk_same:
  "ufunc2 f (mk sh F) (mk sh G) = Inr (mk sh (\<lambda>idx. f (F idx) (G idx)))"
proof -
  have "mk sh (\<lambda>idx. f (elt (mk sh F) (bidx sh idx)) (elt (mk sh G) (bidx sh idx)))
        = mk sh (\<lambda>idx. f (F idx) (G idx))"
    by (rule mk_cong) (simp add: bidx_valid)
  then show ?thesis by (simp add: ufunc2_def)
qed

lemma bidx_1_2: "bidx [M] [n, j] = [if M = Suc 0 then 0 else j]"
  by (simp add: bidx_def)

lemma ufunc2_mk_row:
  "ufunc2 f (mk [N, M] F) (mk [M] G) = Inr (mk [N, M] (\<lambda>idx. f (F idx) (G [idx ! 1])))"
proof -
  have "mk [N, M] (\<lambda>idx. f (elt (mk [N, M] F) (bidx [N, M] idx)) (elt (mk [M] G) (bidx [M] idx)))
        = mk [N, M] (\<lambda>idx. f (F idx) (G [idx ! 1]))"
  proof (rule mk_cong)
    fix idx assume v: "valid_idx [N, M] idx"
    then obtain n j where i: "idx = [n, j]" "n < N" "j < M" by (auto simp: valid_idx_2)
    have "elt (mk [M] G) (bidx [M] [n, j]) = G [j]"
      using i by (auto simp: bidx_1_2)
    then show "f (elt (mk [N, M] F) (bidx [N, M] idx)) (elt (mk [M] G) (bidx [M] idx))
               = f (F idx) (G [idx ! 1])"
      using bidx_valid [OF v] v by (simp add: i)
  qed
  then show ?thesis by (simp add: ufunc2_def)
qed

lemma ufunc1_mk: "ufunc1 f (mk sh F) = mk sh (\<lambda>idx. f (F idx))"
  by (simp add: ufunc1_def mk_def)

lemma slice_cols_mk:
  assumes "c0 + w \<le> M"
  shows "slice_cols (mk [N, M] F) c0 (c0 + w) = Inr (mk [N, w] (\<lambda>idx. F [idx ! 0, c0 + idx ! 1]))"
proof -
  have "mk [N, w] (\<lambda>idx. elt (mk [N, M] F) [idx ! 0, c0 + idx ! 1])
        = mk [N, w] (\<lambda>idx. F [idx ! 0, c0 + idx ! 1])"
  proof (rule mk_cong)
    fix idx assume "valid_idx [N, w] idx"
    then obtain n j where i: "idx = [n, j]" "n < N" "j < w" by (auto simp: valid_idx_2)
    then have "c0 + j < M" using assms by simp
    then show "elt (mk [N, M] F) [idx ! 0, c0 + idx ! 1] = F [idx ! 0, c0 + idx ! 1]"
      using i by simp
  qed
  then show ?thesis using assms by (simp add: slice_cols_def Let_def min_def max_def)
qed

lemma np_T_mk: "np_T (mk [n, m] F) = mk [m, n] (\<lambda>idx. F [idx ! 1, idx ! 0])"
proof -
  have "mk [m, n] (\<lambda>idx. elt (mk [n, m] F) (rev idx)) = mk [m, n] (\<lambda>idx. F [idx ! 1, idx ! 0])"
    by (rule mk_cong) (auto simp: valid_idx_2)
  then show ?thesis by (simp add: np_T_def)
qed

lemma np_sum0_mk:
  "np_sum0 (mk [N, M] F) = Inr (mk [M] (\<lambda>idx. \<Sum>n<N. F [n, idx ! 0]))"
proof -
  have "mk [M] (\<lambda>idx. \<Sum>n \<leftarrow> [0..<N]. elt (mk [N, M] F) (n # idx))
        = mk [M] (\<lambda>idx. \<Sum>n<N. F [n, idx ! 0])"
  proof (rule mk_cong)
    fix idx assume "valid_idx [M] idx"
    then obtain j where i: "idx = [j]" "j < M" by (auto simp: valid_idx_1)
    show "(\<Sum>n \<leftarrow> [0..<N]. elt (mk [N, M] F) (n # idx)) = (\<Sum>n<N. F [n, idx ! 0])"
      unfolding sum_list_upt using i by (intro sum.cong refl) simp
  qed
  then show ?thesis by (simp add: np_sum0_def)
qed

lemma np_hstack_mk4:
  "np_hstack [mk [N, H] F0, mk [N, H] F1, mk [N, H] F2, mk [N, H] F3]
     = Inr (mk [N, 4 * H]
         (\<lambda>idx. if idx ! 1 < H then F0 [idx ! 0, idx ! 1]
                else if idx ! 1 < 2 * H then F1 [idx ! 0, idx ! 1 - H]
                else if idx ! 1 < 3 * H then F2 [idx ! 0, idx ! 1 - 2 * H]
                else F3 [idx ! 0, idx ! 1 - 3 * H]))"
proof -
  let ?as = "[mk [N, H] F0, mk [N, H] F1, mk [N, H] F2, mk [N, H] F3]"
  have "mk [N, 4 * H] (\<lambda>idx. hstack_elt ?as (idx ! 0) (idx ! 1))
      = mk [N, 4 * H]
         (\<lambda>idx. if idx ! 1 < H then F0 [idx ! 0, idx ! 1]
                else if idx ! 1 < 2 * H then F1 [idx ! 0, idx ! 1 - H]
                else if idx ! 1 < 3 * H then F2 [idx ! 0, idx ! 1 - 2 * H]
                else F3 [idx ! 0, idx ! 1 - 3 * H])"
  proof (rule mk_cong)
    fix idx assume "valid_idx [N, 4 * H] idx"
    then obtain n j where i: "idx = [n, j]" "n < N" "j < 4 * H" by (auto simp: valid_idx_2)
    have a: "j - (H + H) = j - 2 * H" "j - (H + H + H) = j - 3 * H" by simp_all
    show "hstack_elt ?as (idx ! 0) (idx ! 1)
          = (if idx ! 1 < H then F0 [idx ! 0, idx ! 1]
                else if idx ! 1 < 2 * H then F1 [idx ! 0, idx ! 1 - H]
                else if idx ! 1 < 3 * H then F2 [idx ! 0, idx ! 1 - 2 * H]
                else F3 [idx ! 0, idx ! 1 - 3 * H])"
      using i by (auto simp: a)
  qed
  moreover have "np_hstack ?as = Inr (mk [N, 4 * H] (\<lambda>idx. hstack_elt ?as (idx ! 0) (idx ! 1)))"
  proof -
    have e4: "H + (H + (H + H)) = 4 * H" by simp
    show ?thesis by (simp add: np_hstack_def e4)
  qed
  ultimately show ?thesis by (simp only:)
qed

lemma slice_cols_mk':
  assumes "c0 \<le> c1" "c1 \<le> M"
  shows "slice_cols (mk [N, M] F) c0 c1 = Inr (mk [N, c1 - c0] (\<lambda>idx. F [idx ! 0, c0 + idx ! 1]))"
  using slice_cols_mk [of c0 "c1 - c0" M N F] assms by simp

lemma lstm_gates_mk:
  "lstm_gates (mk [N, D] X) (mk [N, H] PH) (mk [D, 4 * H] WX) (mk [H, 4 * H] WH) (mk [4 * H] B) H
     = Inr (mk [N, H] (\<lambda>idx. sigmoid_elt (lstm_A_fn X PH WX WH B D H (idx ! 0) (idx ! 1))),
            mk [N, H] (\<lambda>idx. sigmoid_elt (lstm_A_fn X PH WX WH B D H (idx ! 0) (H + idx ! 1))),
            mk [N, H] (\<lambda>idx. sigmoid_elt (lstm_A_fn X PH WX WH B D H (idx ! 0) (2 * H + idx ! 1))),
            mk [N, H] (\<lambda>idx. tanh (lstm_A_fn X PH WX WH B D H (idx ! 0) (3 * H + idx ! 1))))"
proof -
  let ?A = "mk [N, 4 * H] (\<lambda>idx. lstm_A_fn X PH WX WH B D H (idx ! 0) (idx ! 1))"
  have A: "rbind (np_dot (mk [N, D] X) (mk [D, 4 * H] WX)) (\<lambda>xw.
           rbind (np_dot (mk [N, H] PH) (mk [H, 4 * H] WH)) (\<lambda>hw.
           rbind (np_add xw hw) (\<lambda>s. np_add s (mk [4 * H] B)))) = Inr ?A"
    by (simp add: np_dot_mk np_add_def ufunc2_mk_same ufunc2_mk_row lstm_A_fn_def)
  have s0: "slice_cols ?A 0 H = Inr (mk [N, H] (\<lambda>idx. lstm_A_fn X PH WX WH B D H (idx ! 0) (idx ! 1)))"
    using slice_cols_mk' [of 0 H "4 * H" N] by simp
  have s1: "slice_cols ?A H (2 * H) = Inr (mk [N, H] (\<lambda>idx. lstm_A_fn X PH WX WH B D H (idx ! 0) (H + idx ! 1)))"
    using slice_cols_mk' [of H "2 * H" "4 * H" N] by simp
  have s2: "slice_cols ?A (2 * H) (3 * H) = Inr (mk [N, H] (\<lambda>idx. lstm_A_fn X PH WX WH B D H (idx ! 0) (2 * H + idx ! 1)))"
    using slice_cols_mk' [of "2 * H" "3 * H" "4 * H" N] by simp
  have s3: "slice_cols ?A (3 * H) (shape ?A ! 1) = Inr (mk [N, H] (\<lambda>idx. lstm_A_fn X PH WX WH B D H (idx ! 0) (3 * H + idx ! 1)))"
    using slice_cols_mk' [of "3 * H" "4 * H" "4 * H" N] by simp
  have "lstm_gates (mk [N, D] X) (mk [N, H] PH) (mk [D, 4 * H] WX) (mk [H, 4 * H] WH) (mk [4 * H] B) H
        = rbind (rbind (np_dot (mk [N, D] X) (mk [D, 4 * H] WX)) (\<lambda>xw.
           rbind (np_dot (mk [N, H] PH) (mk [H, 4 * H] WH)) (\<lambda>hw.
           rbind (np_add xw hw) (\<lambda>s. np_add s (mk [4 * H] B))))) (\<lambda>A.
     rbind (slice_cols A 0 H) (\<lambda>Ai.
     rbind (slice_cols A H (2 * H)) (\<lambda>Af.
     rbind (slice_cols A (2 * H) (3 * H)) (\<lambda>Ao.
     rbind (slice_cols A (3 * H) (shape A ! 1)) (\<lambda>Ag.
     Inr (sigmoid Ai, sigmoid Af, sigmoid Ao, ufunc1 tanh Ag))))))"
    unfolding lstm_gates_def by (simp add: rbind_def split: sum.splits)
  also have "\<dots> = Inr (mk [N, H] (\<lambda>idx. sigmoid_elt (lstm_A_fn X PH WX WH B D H (idx ! 0) (idx ! 1))),
            mk [N, H] (\<lambda>idx. sigmoid_elt (lstm_A_fn X PH WX WH B D H (idx ! 0) (H + idx ! 1))),
            mk [N, H] (\<lambda>idx. sigmoid_elt (lstm_A_fn X PH WX WH B D H (idx ! 0) (2 * H + idx ! 1))),
            mk [N, H] (\<lambda>idx. tanh (lstm_A_fn X PH WX WH B D H (idx ! 0) (3 * H + idx ! 1))))"
    unfolding A rbind_Inr s0 s1 s2 s3 sigmoid_def ufunc1_mk by (rule refl)
  finally show ?thesis .
qed

lemma sigmoid_elt_eq: "sigmoid_elt u = 1 / (1 + exp (- u))"
proof (cases "0 \<le> u")
  case True
  then show ?thesis by (simp add: sigmoid_elt_def)
next
  case False
  have "exp u / (1 + exp u) = 1 / (1 + exp (- u))"
    by (simp add: exp_minus field_simps)
  with False show ?thesis by (simp add: sigmoid_elt_def)
qed

lemma DERIV_sigmoid_elt:
  assumes "(f has_real_derivative f') (at t)"
  shows "((\<lambda>t. sigmoid_elt (f t)) has_real_derivative sigmoid_elt (f t) * (1 - sigmoid_elt (f t)) * f') (at t)"
proof -
  have p: "1 + exp (- f t) \<noteq> 0"
    using exp_gt_zero [of "- f t"] by linarith
  have "((\<lambda>t. 1 / (1 + exp (- f t))) has_real_derivative
          (1 / (1 + exp (- f t))) * (1 - 1 / (1 + exp (- f t))) * f') (at t)"
    using p by (auto intro!: derivative_eq_intros assms simp: field_simps power2_eq_square)
  then show ?thesis by (simp add: sigmoid_elt_eq [abs_def])
qed

lemma DERIV_tanh_fn:
  assumes "(f has_real_derivative f') (at t)"
  shows "((\<lambda>t. tanh (f t)) has_real_derivative (1 - (tanh (f t))\<^sup>2) * f') (at t)"
  by (auto intro!: derivative_eq_intros assms)

lemma DERIV_times:
  fixes f g :: "real \<Rightarrow> real"
  assumes "(f has_real_derivative f') (at t)" "(g has_real_derivative g') (at t)"
  shows "((\<lambda>s. f s * g s) has_real_derivative f' * g t + f t * g') (at t)"
  by (auto intro!: derivative_eq_intros assms)

lemma lstm_elt_DERIV:
  fixes Ai Af Ao Ag P :: "real \<Rightarrow> real" and dh dc :: real
  assumes "(Ai has_real_derivative Ai') (at t)" "(Af has_real_derivative Af') (at t)"
    "(Ao has_real_derivative Ao') (at t)" "(Ag has_real_derivative Ag') (at t)"
    "(P has_real_derivative P') (at t)"
  defines "c \<equiv> sigmoid_elt (Af t) * P t + sigmoid_elt (Ai t) * tanh (Ag t)"
  defines "dct \<equiv> dc + dh * sigmoid_elt (Ao t) * (1 - (tanh c)\<^sup>2)"
  shows "((\<lambda>s. dh * (sigmoid_elt (Ao s) * tanh (sigmoid_elt (Af s) * P s + sigmoid_elt (Ai s) * tanh (Ag s)))
            + dc * (sigmoid_elt (Af s) * P s + sigmoid_elt (Ai s) * tanh (Ag s)))
          has_real_derivative
           (dct * tanh (Ag t) * sigmoid_elt (Ai t) * (1 - sigmoid_elt (Ai t)) * Ai'
            + dct * P t * sigmoid_elt (Af t) * (1 - sigmoid_elt (Af t)) * Af'
            + dh * tanh c * sigmoid_elt (Ao t) * (1 - sigmoid_elt (Ao t)) * Ao'
            + dct * sigmoid_elt (Ai t) * (1 - (tanh (Ag t))\<^sup>2) * Ag'
            + dct * sigmoid_elt (Af t) * P')) (at t)"
proof -
  have dc': "((\<lambda>s. sigmoid_elt (Af s) * P s + sigmoid_elt (Ai s) * tanh (Ag s)) has_real_derivative
        (sigmoid_elt (Af t) * (1 - sigmoid_elt (Af t)) * Af' * P t + sigmoid_elt (Af t) * P'
         + (sigmoid_elt (Ai t) * (1 - sigmoid_elt (Ai t)) * Ai' * tanh (Ag t)
            + sigmoid_elt (Ai t) * ((1 - (tanh (Ag t))\<^sup>2) * Ag')))) (at t)"
    by (intro DERIV_add DERIV_times DERIV_sigmoid_elt DERIV_tanh_fn assms)
  note th = DERIV_tanh_fn [OF dc']
  have dh': "((\<lambda>s. sigmoid_elt (Ao s) * tanh (sigmoid_elt (Af s) * P s + sigmoid_elt (Ai s) * tanh (Ag s)))
       has_real_derivative
        (sigmoid_elt (Ao t) * (1 - sigmoid_elt (Ao t)) * Ao' * tanh c
         + sigmoid_elt (Ao t) * ((1 - (tanh c)\<^sup>2) *
              (sigmoid_elt (Af t) * (1 - sigmoid_elt (Af t)) * Af' * P t + sigmoid_elt (Af t) * P'
         + (sigmoid_elt (Ai t) * (1 - sigmoid_elt (Ai t)) * Ai' * tanh (Ag t)
            + sigmoid_elt (Ai t) * ((1 - (tanh (Ag t))\<^sup>2) * Ag')))))) (at t)"
    unfolding c_def
    by (intro DERIV_times DERIV_sigmoid_elt assms th)
  have "((\<lambda>s. dh * (sigmoid_elt (Ao s) * tanh (sigmoid_elt (Af s) * P s + sigmoid_elt (Ai s) * tanh (Ag s)))
            + dc * (sigmoid_elt (Af s) * P s + sigmoid_elt (Ai s) * tanh (Ag s)))
          has_real_derivative
           (dh * (sigmoid_elt (Ao t) * (1 - sigmoid_elt (Ao t)) * Ao' * tanh c
         + sigmoid_elt (Ao t) * ((1 - (tanh c)\<^sup>2) *
              (sigmoid_elt (Af t) * (1 - sigmoid_elt (Af t)) * Af' * P t + sigmoid_elt (Af t) * P'
         + (sigmoid_elt (Ai t) * (1 - sigmoid_elt (Ai t)) * Ai' * tanh (Ag t)
            + sigmoid_elt (Ai t) * ((1 - (tanh (Ag t))\<^sup>2) * Ag')))))
            + dc * (sigmoid_elt (Af t) * (1 - sigmoid_elt (Af t)) * Af' * P t + sigmoid_elt (Af t) * P'
         + (sigmoid_elt (Ai t) * (1 - sigmoid_elt (Ai t)) * Ai' * tanh (Ag t)
            + sigmoid_elt (Ai t) * ((1 - (tanh (Ag t))\<^sup>2) * Ag'))))) (at t)"
    by (intro DERIV_add DERIV_cmult dh' dc')
  then show ?thesis
    by (rule DERIV_cong) (simp add: dct_def algebra_simps)
qed

lemma lstm_step_forward_mk:
  "lstm_step_forward (mk [N, D] X) (mk [N, H] PH) (mk [N, H] PC) (mk [D, 4 * H] WX) (mk [H, 4 * H] WH)
       (mk [4 * H] B)
     = Inr (mk [N, H] (\<lambda>idx. lstm_h_of (lstm_A_fn X PH WX WH B D H) PC H (idx ! 0) (idx ! 1)),
            mk [N, H] (\<lambda>idx. lstm_c_of (lstm_A_fn X PH WX WH B D H) PC H (idx ! 0) (idx ! 1)),
            (mk [N, D] X, mk [N, H] PH, mk [N, H] PC, mk [D, 4 * H] WX, mk [H, 4 * H] WH, mk [4 * H] B,
             mk [N, H] (\<lambda>idx. lstm_h_of (lstm_A_fn X PH WX WH B D H) PC H (idx ! 0) (idx ! 1)),
             mk [N, H] (\<lambda>idx. lstm_c_of (lstm_A_fn X PH WX WH B D H) PC H (idx ! 0) (idx ! 1))))"
proof -
  let ?A = "lstm_A_fn X PH WX WH B D H"
  have c: "mk [N, H] (\<lambda>idx. sigmoid_elt (?A (idx ! 0) (H + idx ! 1)) * PC idx
              + sigmoid_elt (?A (idx ! 0) (idx ! 1)) * tanh (?A (idx ! 0) (3 * H + idx ! 1)))
           = mk [N, H] (\<lambda>idx. lstm_c_of ?A PC H (idx ! 0) (idx ! 1))"
    by (rule mk_cong) (auto simp: valid_idx_2 lstm_c_of_def)
  have h: "mk [N, H] (\<lambda>idx. sigmoid_elt (?A (idx ! 0) (2 * H + idx ! 1))
              * tanh (lstm_c_of ?A PC H (idx ! 0) (idx ! 1)))
           = mk [N, H] (\<lambda>idx. lstm_h_of ?A PC H (idx ! 0) (idx ! 1))"
    by (rule mk_cong) (auto simp: valid_idx_2 lstm_h_of_def)
  show ?thesis
    unfolding lstm_step_forward_def shape_mk list.case lstm_gates_mk rbind_Inr prod.case
      np_mul_def np_add_def ufunc2_mk_same c ufunc1_mk h
    by (rule refl)
qed

lemma lstm_loss_mk:
  assumes "has_shape dnh [N, H]" "has_shape dnc [N, H]"
  shows "lstm_loss dnh dnc (mk [N, D] X) (mk [N, H] PH) (mk [N, H] PC) (mk [D, 4 * H] WX)
           (mk [H, 4 * H] WH) (mk [4 * H] B)
         = (\<Sum>n<N. \<Sum>j<H. elt dnh [n, j] * lstm_h_of (lstm_A_fn X PH WX WH B D H) PC H n j
                          + elt dnc [n, j] * lstm_c_of (lstm_A_fn X PH WX WH B D H) PC H n j)"
  unfolding lstm_loss_def lstm_step_forward_mk
  by (simp add: sum_prod_mk [OF assms(1)] sum_prod_mk [OF assms(2)] sum_indices_2 sum.distrib)

lemma sum_4_blocks:
  fixes F :: "nat \<Rightarrow> real"
  shows "(\<Sum>k<4 * H. F k) = (\<Sum>j<H. F j + F (H + j) + F (2 * H + j) + F (3 * H + j))"
proof -
  have s: "\<And>a b. b = a + H \<Longrightarrow> sum F {a..<b} = (\<Sum>j<H. F (a + j))"
    using sum.shift_bounds_nat_ivl [of F 0 _ H] by (simp add: lessThan_atLeast0 add.commute)
  have c1: "sum F {0..<H} + sum F {H..<2 * H} = sum F {0..<2 * H}"
    by (rule sum.atLeastLessThan_concat) simp_all
  have c2: "sum F {0..<2 * H} + sum F {2 * H..<3 * H} = sum F {0..<3 * H}"
    by (rule sum.atLeastLessThan_concat) simp_all
  have c3: "sum F {0..<3 * H} + sum F {3 * H..<4 * H} = sum F {0..<4 * H}"
    by (rule sum.atLeastLessThan_concat) simp_all
  have "(\<Sum>k<4 * H. F k) = sum F {0..<H} + sum F {H..<2 * H}
          + sum F {2 * H..<3 * H} + sum F {3 * H..<4 * H}"
    unfolding lessThan_atLeast0 c3 [symmetric] c2 [symmetric] c1 [symmetric] by (rule refl)
  also have "\<dots> = (\<Sum>j<H. F (0 + j)) + (\<Sum>j<H. F (H + j)) + (\<Sum>j<H. F (2 * H + j)) + (\<Sum>j<H. F (3 * H + j))"
    by (simp only: s [of H 0] s [of "2 * H" H] s [of "3 * H" "2 * H"] s [of "4 * H" "3 * H"])
  finally show ?thesis by (simp add: sum.distrib)
qed

lemma lstm_sum_DERIV:
  fixes A :: "real \<Rightarrow> nat \<Rightarrow> nat \<Rightarrow> real" and P :: "real \<Rightarrow> nat list \<Rightarrow> real"
  assumes A: "\<And>n k. n < N \<Longrightarrow> k < 4 * H \<Longrightarrow> ((\<lambda>t. A t n k) has_real_derivative A' n k) (at t0)"
    and P: "\<And>n j. n < N \<Longrightarrow> j < H \<Longrightarrow> ((\<lambda>t. P t [n, j]) has_real_derivative P' n j) (at t0)"
  shows "((\<lambda>t. \<Sum>n<N. \<Sum>j<H. DH [n, j] * lstm_h_of (A t) (P t) H n j
                            + DC [n, j] * lstm_c_of (A t) (P t) H n j)
          has_real_derivative
           ((\<Sum>n<N. \<Sum>k<4 * H. lstm_dA_of DH DC (A t0) (P t0) H n k * A' n k)
            + (\<Sum>n<N. \<Sum>j<H. lstm_dpc_of DH DC (A t0) (P t0) H n j * P' n j))) (at t0)"
proof -
  have E: "\<And>n j. n < N \<Longrightarrow> j < H \<Longrightarrow>
     ((\<lambda>t. DH [n, j] * lstm_h_of (A t) (P t) H n j + DC [n, j] * lstm_c_of (A t) (P t) H n j)
       has_real_derivative
        (lstm_dA_of DH DC (A t0) (P t0) H n j * A' n j
         + lstm_dA_of DH DC (A t0) (P t0) H n (H + j) * A' n (H + j)
         + lstm_dA_of DH DC (A t0) (P t0) H n (2 * H + j) * A' n (2 * H + j)
         + lstm_dA_of DH DC (A t0) (P t0) H n (3 * H + j) * A' n (3 * H + j)
         + lstm_dpc_of DH DC (A t0) (P t0) H n j * P' n j)) (at t0)"
  proof -
    fix n j assume n: "n < N" and j: "j < H"
    have k: "j < 4 * H" "H + j < 4 * H" "2 * H + j < 4 * H" "3 * H + j < 4 * H"
      using j by simp_all
    show "((\<lambda>t. DH [n, j] * lstm_h_of (A t) (P t) H n j + DC [n, j] * lstm_c_of (A t) (P t) H n j)
       has_real_derivative
        (lstm_dA_of DH DC (A t0) (P t0) H n j * A' n j
         + lstm_dA_of DH DC (A t0) (P t0) H n (H + j) * A' n (H + j)
         + lstm_dA_of DH DC (A t0) (P t0) H n (2 * H + j) * A' n (2 * H + j)
         + lstm_dA_of DH DC (A t0) (P t0) H n (3 * H + j) * A' n (3 * H + j)
         + lstm_dpc_of DH DC (A t0) (P t0) H n j * P' n j)) (at t0)"
      using lstm_elt_DERIV [OF A [OF n k(1)] A [OF n k(2)] A [OF n k(3)] A [OF n k(4)] P [OF n j],
          of "DH [n, j]" "DC [n, j]"] j
      by (simp add: lstm_h_of_def lstm_c_of_def lstm_dA_of_def lstm_dpc_of_def lstm_dct_of_def
            algebra_simps)
  qed
  have "((\<lambda>t. \<Sum>n<N. \<Sum>j<H. DH [n, j] * lstm_h_of (A t) (P t) H n j
                            + DC [n, j] * lstm_c_of (A t) (P t) H n j)
          has_real_derivative
           (\<Sum>n<N. \<Sum>j<H. lstm_dA_of DH DC (A t0) (P t0) H n j * A' n j
         + lstm_dA_of DH DC (A t0) (P t0) H n (H + j) * A' n (H + j)
         + lstm_dA_of DH DC (A t0) (P t0) H n (2 * H + j) * A' n (2 * H + j)
         + lstm_dA_of DH DC (A t0) (P t0) H n (3 * H + j) * A' n (3 * H + j)
         + lstm_dpc_of DH DC (A t0) (P t0) H n j * P' n j)) (at t0)"
    by (intro DERIV_sum E) simp_all
  then show ?thesis
    by (simp add: sum_4_blocks sum.distrib)
qed

lemma lstm_step_backward_mk:
  "lstm_step_backward (mk [N, H] DH) (mk [N, H] DC)
       (mk [N, D] X, mk [N, H] PH, mk [N, H] PC, mk [D, 4 * H] WX, mk [H, 4 * H] WH, mk [4 * H] B, nh,
        mk [N, H] (\<lambda>idx. lstm_c_of (lstm_A_fn X PH WX WH B D H) PC H (idx ! 0) (idx ! 1)))
     = Inr (mk [N, D] (\<lambda>idx. \<Sum>k<4 * H.
                lstm_dA_of DH DC (lstm_A_fn X PH WX WH B D H) PC H (idx ! 0) k * WX [idx ! 1, k]),
            mk [N, H] (\<lambda>idx. \<Sum>k<4 * H.
                lstm_dA_of DH DC (lstm_A_fn X PH WX WH B D H) PC H (idx ! 0) k * WH [idx ! 1, k]),
            mk [N, H] (\<lambda>idx. lstm_dpc_of DH DC (lstm_A_fn X PH WX WH B D H) PC H (idx ! 0) (idx ! 1)),
            mk [D, 4 * H] (\<lambda>idx. \<Sum>n<N.
                X [n, idx ! 0] * lstm_dA_of DH DC (lstm_A_fn X PH WX WH B D H) PC H n (idx ! 1)),
            mk [H, 4 * H] (\<lambda>idx. \<Sum>n<N.
                PH [n, idx ! 0] * lstm_dA_of DH DC (lstm_A_fn X PH WX WH B D H) PC H n (idx ! 1)),
            mk [4 * H] (\<lambda>idx. \<Sum>n<N.
                lstm_dA_of DH DC (lstm_A_fn X PH WX WH B D H) PC H n (idx ! 0)))"
  apply (simp add: lstm_step_backward_def lstm_gates_mk np_mul_def np_add_def ufunc2_mk_same ufunc1_mk
      np_hstack_mk4 np_dot_mk np_T_mk np_sum0_mk)
  apply (intro conjI mk_cong sum.cong refl)
  apply (auto simp: valid_idx_2 valid_idx_1 lstm_dA_of_def lstm_dct_of_def lstm_dpc_of_def)
  done

lemma set_elt_eq_mk:
  assumes "has_shape a sh" "valid_idx sh i0"
  shows "set_elt a i0 t = mk sh ((elt a)(i0 := t))"
proof -
  have "set_elt a i0 t = mk sh (elt (set_elt a i0 t))"
    using mk_elt [of "set_elt a i0 t" sh] assms(1) by simp
  also have "\<dots> = mk sh ((elt a)(i0 := t))"
    by (rule mk_cong) (simp add: elt_set_elt [OF assms])
  finally show ?thesis .
qed

lemma DERIV_fun_upd:
  "((\<lambda>t. (F(i0 := t)) i) has_real_derivative (if i = i0 then 1 else 0)) (at t0)"
  by (cases "i = i0") simp_all

lemma DERIV_dot_upd_left:
  fixes F :: "nat list \<Rightarrow> real"
  assumes "j0 < K"
  shows "((\<lambda>t. \<Sum>j<K. (F([a0, j0] := t)) [a, j] * G j) has_real_derivative
           (if a = a0 then G j0 else 0)) (at t0)"
proof -
  have "((\<lambda>t. \<Sum>j<K. (F([a0, j0] := t)) [a, j] * G j) has_real_derivative
           (\<Sum>j<K. (if [a, j] = [a0, j0] then 1 else 0) * G j)) (at t0)"
    by (intro DERIV_sum DERIV_cmult_right DERIV_fun_upd)
  moreover have "(\<Sum>j<K. (if [a, j] = [a0, j0] then 1 else 0) * G j)
                 = (\<Sum>j<K. if j = j0 then (if a = a0 then G j0 else 0) else 0)"
    by (rule sum.cong) auto
  ultimately show ?thesis using assms by (simp add: sum.delta)
qed

lemma DERIV_dot_upd_right:
  fixes F :: "nat list \<Rightarrow> real"
  assumes "j0 < K"
  shows "((\<lambda>t. \<Sum>j<K. G j * (F([j0, b0] := t)) [j, b]) has_real_derivative
           (if b = b0 then G j0 else 0)) (at t0)"
proof -
  have "((\<lambda>t. \<Sum>j<K. G j * (F([j0, b0] := t)) [j, b]) has_real_derivative
           (\<Sum>j<K. G j * (if [j, b] = [j0, b0] then 1 else 0))) (at t0)"
    by (intro DERIV_sum DERIV_cmult DERIV_fun_upd)
  moreover have "(\<Sum>j<K. G j * (if [j, b] = [j0, b0] then 1 else 0))
                 = (\<Sum>j<K. if j = j0 then (if b = b0 then G j0 else 0) else 0)"
    by (rule sum.cong) auto
  ultimately show ?thesis using assms by (simp add: sum.delta)
qed

lemma lstm_A_DERIV_x:
  assumes "d0 < D"
  shows "((\<lambda>t. lstm_A_fn (X([n0, d0] := t)) PH WX WH B D H n k) has_real_derivative
           (if n = n0 then WX [d0, k] else 0)) (at t0)"
  unfolding lstm_A_fn_def
  by (intro DERIV_plus_const DERIV_dot_upd_left assms)

lemma lstm_A_DERIV_prev_h:
  assumes "j0 < H"
  shows "((\<lambda>t. lstm_A_fn X (PH([n0, j0] := t)) WX WH B D H n k) has_real_derivative
           (if n = n0 then WH [j0, k] else 0)) (at t0)"
  unfolding lstm_A_fn_def
  by (intro DERIV_plus_const DERIV_const_plus DERIV_dot_upd_left assms)

lemma lstm_A_DERIV_Wx:
  assumes "d0 < D"
  shows "((\<lambda>t. lstm_A_fn X PH (WX([d0, k0] := t)) WH B D H n k) has_real_derivative
           (if k = k0 then X [n, d0] else 0)) (at t0)"
  unfolding lstm_A_fn_def
  by (intro DERIV_plus_const DERIV_dot_upd_right assms)

lemma lstm_A_DERIV_Wh:
  assumes "j0 < H"
  shows "((\<lambda>t. lstm_A_fn X PH WX (WH([j0, k0] := t)) B D H n k) has_real_derivative
           (if k = k0 then PH [n, j0] else 0)) (at t0)"
  unfolding lstm_A_fn_def
  by (intro DERIV_plus_const DERIV_const_plus DERIV_dot_upd_right assms)

lemma lstm_A_DERIV_b:
  "((\<lambda>t. lstm_A_fn X PH WX WH (B([k0] := t)) D H n k) has_real_derivative
           (if k = k0 then 1 else 0)) (at t0)"
proof -
  have "((\<lambda>t. (B([k0] := t)) [k]) has_real_derivative (if [k] = [k0] then 1 else 0)) (at t0)"
    by (rule DERIV_fun_upd)
  then show ?thesis
    unfolding lstm_A_fn_def by (intro DERIV_const_plus) simp
qed

lemma set_elt_mk:
  assumes "valid_idx sh i0"
  shows "set_elt (mk sh F) i0 t = mk sh (F(i0 := t))"
proof -
  have "set_elt (mk sh F) i0 t = mk sh ((elt (mk sh F))(i0 := t))"
    by (rule set_elt_eq_mk [OF _ assms]) simp
  also have "\<dots> = mk sh (F(i0 := t))"
    by (rule mk_cong) simp
  finally show ?thesis .
qed

lemma lstm_loss_mk2:
  "lstm_loss (mk [N, H] DH) (mk [N, H] DC) (mk [N, D] X) (mk [N, H] PH) (mk [N, H] PC) (mk [D, 4 * H] WX)
           (mk [H, 4 * H] WH) (mk [4 * H] B)
         = (\<Sum>n<N. \<Sum>j<H. DH [n, j] * lstm_h_of (lstm_A_fn X PH WX WH B D H) PC H n j
                          + DC [n, j] * lstm_c_of (lstm_A_fn X PH WX WH B D H) PC H n j)"
  proof -
  have s: "has_shape (mk [N, H] DH) [N, H]" "has_shape (mk [N, H] DC) [N, H]" by simp_all
  show ?thesis
    unfolding lstm_loss_mk [OF s]
    by (intro sum.cong refl) (simp add: valid_idx_2)
qed

lemma sum_delta_outer:
  fixes F :: "nat \<Rightarrow> nat \<Rightarrow> real"
  assumes "n0 < N"
  shows "(\<Sum>n<N. \<Sum>k<K. F n k * (if n = n0 then G k else 0)) = (\<Sum>k<K. F n0 k * G k)"
proof -
  have "(\<Sum>n<N. \<Sum>k<K. F n k * (if n = n0 then G k else 0))
        = (\<Sum>n<N. if n = n0 then (\<Sum>k<K. F n0 k * G k) else 0)"
    by (intro sum.cong refl) auto
  then show ?thesis using assms by (simp add: sum.delta)
qed

lemma sum_delta_inner:
  fixes F :: "nat \<Rightarrow> nat \<Rightarrow> real"
  assumes "k0 < K"
  shows "(\<Sum>n<N. \<Sum>k<K. F n k * (if k = k0 then G n else 0)) = (\<Sum>n<N. F n k0 * G n)"
proof -
  have "\<And>n. (\<Sum>k<K. F n k * (if k = k0 then G n else 0))
             = (\<Sum>k<K. if k = k0 then F n k0 * G n else 0)"
    by (intro sum.cong refl) auto
  then show ?thesis using assms by (simp add: sum.delta)
qed

lemma sum_delta_inner_comm:
  fixes F :: "nat \<Rightarrow> nat \<Rightarrow> real"
  assumes "k0 < K"
  shows "(\<Sum>n<N. \<Sum>k<K. F n k * (if k = k0 then G n else 0)) = (\<Sum>n<N. G n * F n k0)"
  unfolding sum_delta_inner [OF assms] by (intro sum.cong refl) (simp add: mult.commute)

lemma lstm_grad_x:
  assumes n0: "n0 < N" and d0: "d0 < D"
  shows "((\<lambda>t. lstm_loss (mk [N, H] DH) (mk [N, H] DC) (mk [N, D] (X([n0, d0] := t))) (mk [N, H] PH)
                (mk [N, H] PC) (mk [D, 4 * H] WX) (mk [H, 4 * H] WH) (mk [4 * H] B))
          has_real_derivative
           (\<Sum>k<4 * H. lstm_dA_of DH DC (lstm_A_fn X PH WX WH B D H) PC H n0 k * WX [d0, k]))
          (at (X [n0, d0]))"
  unfolding lstm_loss_mk2
  using lstm_sum_DERIV [where A = "\<lambda>t. lstm_A_fn (X([n0, d0] := t)) PH WX WH B D H" and P = "\<lambda>t. PC"
      and A' = "\<lambda>n k. if n = n0 then WX [d0, k] else 0" and P' = "\<lambda>n j. 0" and ?t0.0 = "X [n0, d0]"
      and N = N and H = H and DH = DH and DC = DC,
      OF lstm_A_DERIV_x [OF d0] DERIV_const]
  by (simp add: sum_delta_outer [OF n0])

lemma lstm_grad_prev_h:
  assumes n0: "n0 < N" and j0: "j0 < H"
  shows "((\<lambda>t. lstm_loss (mk [N, H] DH) (mk [N, H] DC) (mk [N, D] X) (mk [N, H] (PH([n0, j0] := t)))
                (mk [N, H] PC) (mk [D, 4 * H] WX) (mk [H, 4 * H] WH) (mk [4 * H] B))
          has_real_derivative
           (\<Sum>k<4 * H. lstm_dA_of DH DC (lstm_A_fn X PH WX WH B D H) PC H n0 k * WH [j0, k]))
          (at (PH [n0, j0]))"
  unfolding lstm_loss_mk2
  using lstm_sum_DERIV [where A = "\<lambda>t. lstm_A_fn X (PH([n0, j0] := t)) WX WH B D H" and P = "\<lambda>t. PC"
      and A' = "\<lambda>n k. if n = n0 then WH [j0, k] else 0" and P' = "\<lambda>n j. 0" and ?t0.0 = "PH [n0, j0]"
      and N = N and H = H and DH = DH and DC = DC,
      OF lstm_A_DERIV_prev_h [OF j0] DERIV_const]
  by (simp add: sum_delta_outer [OF n0])

lemma lstm_grad_Wx:
  assumes d0: "d0 < D" and k0: "k0 < 4 * H"
  shows "((\<lambda>t. lstm_loss (mk [N, H] DH) (mk [N, H] DC) (mk [N, D] X) (mk [N, H] PH)
                (mk [N, H] PC) (mk [D, 4 * H] (WX([d0, k0] := t))) (mk [H, 4 * H] WH) (mk [4 * H] B))
          has_real_derivative
           (\<Sum>n<N. X [n, d0] * lstm_dA_of DH DC (lstm_A_fn X PH WX WH B D H) PC H n k0))
          (at (WX [d0, k0]))"
  unfolding lstm_loss_mk2
  using lstm_sum_DERIV [where A = "\<lambda>t. lstm_A_fn X PH (WX([d0, k0] := t)) WH B D H" and P = "\<lambda>t. PC"
      and A' = "\<lambda>n k. if k = k0 then X [n, d0] else 0" and P' = "\<lambda>n j. 0" and ?t0.0 = "WX [d0, k0]"
      and N = N and H = H and DH = DH and DC = DC,
      OF lstm_A_DERIV_Wx [OF d0] DERIV_const]
  by (simp add: sum_delta_inner_comm [OF k0])

lemma lstm_grad_Wh:
  assumes j0: "j0 < H" and k0: "k0 < 4 * H"
  shows "((\<lambda>t. lstm_loss (mk [N, H] DH) (mk [N, H] DC) (mk [N, D] X) (mk [N, H] PH)
                (mk [N, H] PC) (mk [D, 4 * H] WX) (mk [H, 4 * H] (WH([j0, k0] := t))) (mk [4 * H] B))
          has_real_derivative
           (\<Sum>n<N. PH [n, j0] * lstm_dA_of DH DC (lstm_A_fn X PH WX WH B D H) PC H n k0))
          (at (WH [j0, k0]))"
  unfolding lstm_loss_mk2
  using lstm_sum_DERIV [where A = "\<lambda>t. lstm_A_fn X PH WX (WH([j0, k0] := t)) B D H" and P = "\<lambda>t. PC"
      and A' = "\<lambda>n k. if k = k0 then PH [n, j0] else 0" and P' = "\<lambda>n j. 0" and ?t0.0 = "WH [j0, k0]"
      and N = N and H = H and DH = DH and DC = DC,
      OF lstm_A_DERIV_Wh [OF j0] DERIV_const]
  by (simp add: sum_delta_inner_comm [OF k0])

lemma lstm_grad_b:
  assumes k0: "k0 < 4 * H"
  shows "((\<lambda>t. lstm_loss (mk [N, H] DH) (mk [N, H] DC) (mk [N, D] X) (mk [N, H] PH)
                (mk [N, H] PC) (mk [D, 4 * H] WX) (mk [H, 4 * H] WH) (mk [4 * H] (B([k0] := t))))
          has_real_derivative
           (\<Sum>n<N. lstm_dA_of DH DC (lstm_A_fn X PH WX WH B D H) PC H n k0))
          (at (B [k0]))"
  unfolding lstm_loss_mk2
  using lstm_sum_DERIV [where A = "\<lambda>t. lstm_A_fn X PH WX WH (B([k0] := t)) D H" and P = "\<lambda>t. PC"
      and A' = "\<lambda>n k. if k = k0 then 1 else 0" and P' = "\<lambda>n j. 0" and ?t0.0 = "B [k0]"
      and N = N and H = H and DH = DH and DC = DC,
      OF lstm_A_DERIV_b DERIV_const]
  by (simp add: sum_delta_inner [OF k0, where G = "\<lambda>n. 1", simplified])

lemma lstm_grad_prev_c:
  assumes n0: "n0 < N" and j0: "j0 < H"
  shows "((\<lambda>t. lstm_loss (mk [N, H] DH) (mk [N, H] DC) (mk [N, D] X) (mk [N, H] PH)
                (mk [N, H] (PC([n0, j0] := t))) (mk [D, 4 * H] WX) (mk [H, 4 * H] WH) (mk [4 * H] B))
          has_real_derivative
           lstm_dpc_of DH DC (lstm_A_fn X PH WX WH B D H) PC H n0 j0)
          (at (PC [n0, j0]))"
proof -
  have c: "(\<Sum>n<N. \<Sum>j<H. lstm_dpc_of DH DC (lstm_A_fn X PH WX WH B D H) PC H n j
              * (if [n, j] = [n0, j0] then 1 else 0))
           = lstm_dpc_of DH DC (lstm_A_fn X PH WX WH B D H) PC H n0 j0"
  proof -
    have "(\<Sum>n<N. \<Sum>j<H. lstm_dpc_of DH DC (lstm_A_fn X PH WX WH B D H) PC H n j
              * (if [n, j] = [n0, j0] then 1 else 0))
          = (\<Sum>n<N. \<Sum>j<H. lstm_dpc_of DH DC (lstm_A_fn X PH WX WH B D H) PC H n j
              * (if n = n0 then (if j = j0 then 1 else 0) else 0))"
      by (intro sum.cong refl) auto
    also have "\<dots> = (\<Sum>j<H. lstm_dpc_of DH DC (lstm_A_fn X PH WX WH B D H) PC H n0 j
              * (if j = j0 then 1 else 0))"
      by (rule sum_delta_outer [OF n0])
    also have "\<dots> = (\<Sum>j<H. if j = j0 then lstm_dpc_of DH DC (lstm_A_fn X PH WX WH B D H) PC H n0 j0 else 0)"
      by (intro sum.cong refl) auto
    also have "\<dots> = lstm_dpc_of DH DC (lstm_A_fn X PH WX WH B D H) PC H n0 j0"
      using j0 by (simp add: sum.delta)
    finally show ?thesis .
  qed
  show ?thesis
    unfolding lstm_loss_mk2
    using lstm_sum_DERIV [where A = "\<lambda>t. lstm_A_fn X PH WX WH B D H" and P = "\<lambda>t. PC([n0, j0] := t)"
      and A' = "\<lambda>n k. 0" and P' = "\<lambda>n j. if [n, j] = [n0, j0] then 1 else 0" and ?t0.0 = "PC [n0, j0]"
      and N = N and H = H and DH = DH and DC = DC,
      OF DERIV_const DERIV_fun_upd]
    by (simp only: c fun_upd_triv mult_zero_right sum.neutral_const add_0)
qed

lemma lstm_is_gradient_x:
  "is_gradient (\<lambda>x'. lstm_loss (mk [N, H] DH) (mk [N, H] DC) x' (mk [N, H] PH) (mk [N, H] PC)
                  (mk [D, 4 * H] WX) (mk [H, 4 * H] WH) (mk [4 * H] B))
     (mk [N, D] X)
     (mk [N, D] (\<lambda>idx. \<Sum>k<4 * H.
        lstm_dA_of DH DC (lstm_A_fn X PH WX WH B D H) PC H (idx ! 0) k * WX [idx ! 1, k]))"
  unfolding is_gradient_def shape_mk
proof (intro conjI allI impI refl)
  fix idx assume v: "valid_idx [N, D] idx"
  then obtain n0 d0 where i: "idx = [n0, d0]" "n0 < N" "d0 < D" by (auto simp: valid_idx_2)
  show "((\<lambda>t. lstm_loss (mk [N, H] DH) (mk [N, H] DC) (set_elt (mk [N, D] X) idx t) (mk [N, H] PH)
              (mk [N, H] PC) (mk [D, 4 * H] WX) (mk [H, 4 * H] WH) (mk [4 * H] B))
         has_real_derivative
          elt (mk [N, D] (\<lambda>idx. \<Sum>k<4 * H.
            lstm_dA_of DH DC (lstm_A_fn X PH WX WH B D H) PC H (idx ! 0) k * WX [idx ! 1, k])) idx)
         (at (elt (mk [N, D] X) idx))"
    unfolding set_elt_mk [OF v] elt_mk [OF v]
    using lstm_grad_x [OF i(2,3)] by (simp add: i(1))
qed

lemma lstm_is_gradient_prev_h:
  "is_gradient (\<lambda>x'. lstm_loss (mk [N, H] DH) (mk [N, H] DC) (mk [N, D] X) x' (mk [N, H] PC) (mk [D, 4 * H] WX) (mk [H, 4 * H] WH) (mk [4 * H] B))
     (mk [N, H] PH)
     (mk [N, H] (\<lambda>idx. \<Sum>k<4 * H. lstm_dA_of DH DC (lstm_A_fn X PH WX WH B D H) PC H (idx ! 0) k * WH [idx ! 1, k]))"
  unfolding is_gradient_def shape_mk
proof (intro conjI allI impI refl)
  fix idx assume v: "valid_idx [N, H] idx"
  then obtain n0 j0 where i: "idx = [n0, j0]" "n0 < N" "j0 < H" by (auto simp: valid_idx_2)
  show "((\<lambda>t. lstm_loss (mk [N, H] DH) (mk [N, H] DC) (mk [N, D] X) (set_elt (mk [N, H] PH) idx t) (mk [N, H] PC) (mk [D, 4 * H] WX) (mk [H, 4 * H] WH) (mk [4 * H] B))
         has_real_derivative
          elt (mk [N, H] (\<lambda>idx. \<Sum>k<4 * H. lstm_dA_of DH DC (lstm_A_fn X PH WX WH B D H) PC H (idx ! 0) k * WH [idx ! 1, k])) idx)
         (at (elt (mk [N, H] PH) idx))"
    unfolding set_elt_mk [OF v] elt_mk [OF v]
    using lstm_grad_prev_h [OF i(2,3)] by (simp add: i(1))
qed

lemma lstm_is_gradient_prev_c:
  "is_gradient (\<lambda>x'. lstm_loss (mk [N, H] DH) (mk [N, H] DC) (mk [N, D] X) (mk [N, H] PH) x' (mk [D, 4 * H] WX) (mk [H, 4 * H] WH) (mk [4 * H] B))
     (mk [N, H] PC)
     (mk [N, H] (\<lambda>idx. lstm_dpc_of DH DC (lstm_A_fn X PH WX WH B D H) PC H (idx ! 0) (idx ! 1)))"
  unfolding is_gradient_def shape_mk
proof (intro conjI allI impI refl)
  fix idx assume v: "valid_idx [N, H] idx"
  then obtain n0 j0 where i: "idx = [n0, j0]" "n0 < N" "j0 < H" by (auto simp: valid_idx_2)
  show "((\<lambda>t. lstm_loss (mk [N, H] DH) (mk [N, H] DC) (mk [N, D] X) (mk [N, H] PH) (set_elt (mk [N, H] PC) idx t) (mk [D, 4 * H] WX) (mk [H, 4 * H] WH) (mk [4 * H] B))
         has_real_derivative
          elt (mk [N, H] (\<lambda>idx. lstm_dpc_of DH DC (lstm_A_fn X PH WX WH B D H) PC H (idx ! 0) (idx ! 1))) idx)
         (at (elt (mk [N, H] PC) idx))"
    unfolding set_elt_mk [OF v] elt_mk [OF v]
    using lstm_grad_prev_c [OF i(2,3)] by (simp add: i(1))
qed

lemma lstm_is_gradient_Wx:
  "is_gradient (\<lambda>x'. lstm_loss (mk [N, H] DH) (mk [N, H] DC) (mk [N, D] X) (mk [N, H] PH) (mk [N, H] PC) x' (mk [H, 4 * H] WH) (mk [4 * H] B))
     (mk [D, 4 * H] WX)
     (mk [D, 4 * H] (\<lambda>idx. \<Sum>n<N. X [n, idx ! 0] * lstm_dA_of DH DC (lstm_A_fn X PH WX WH B D H) PC H n (idx ! 1)))"
  unfolding is_gradient_def shape_mk
proof (intro conjI allI impI refl)
  fix idx assume v: "valid_idx [D, 4 * H] idx"
  then obtain d0 k0 where i: "idx = [d0, k0]" "d0 < D" "k0 < 4 * H" by (auto simp: valid_idx_2)
  show "((\<lambda>t. lstm_loss (mk [N, H] DH) (mk [N, H] DC) (mk [N, D] X) (mk [N, H] PH) (mk [N, H] PC) (set_elt (mk [D, 4 * H] WX) idx t) (mk [H, 4 * H] WH) (mk [4 * H] B))
         has_real_derivative
          elt (mk [D, 4 * H] (\<lambda>idx. \<Sum>n<N. X [n, idx ! 0] * lstm_dA_of DH DC (lstm_A_fn X PH WX WH B D H) PC H n (idx ! 1))) idx)
         (at (elt (mk [D, 4 * H] WX) idx))"
    unfolding set_elt_mk [OF v] elt_mk [OF v]
    using lstm_grad_Wx [OF i(2,3)] by (simp add: i(1))
qed

lemma lstm_is_gradient_Wh:
  "is_gradient (\<lambda>x'. lstm_loss (mk [N, H] DH) (mk [N, H] DC) (mk [N, D] X) (mk [N, H] PH) (mk [N, H] PC) (mk [D, 4 * H] WX) x' (mk [4 * H] B))
     (mk [H, 4 * H] WH)
     (mk [H, 4 * H] (\<lambda>idx. \<Sum>n<N. PH [n, idx ! 0] * lstm_dA_of DH DC (lstm_A_fn X PH WX WH B D H) PC H n (idx ! 1)))"
  unfolding is_gradient_def shape_mk
proof (intro conjI allI impI refl)
  fix idx assume v: "valid_idx [H, 4 * H] idx"
  then obtain j0 k0 where i: "idx = [j0, k0]" "j0 < H" "k0 < 4 * H" by (auto simp: valid_idx_2)
  show "((\<lambda>t. lstm_loss (mk [N, H] DH) (mk [N, H] DC) (mk [N, D] X) (mk [N, H] PH) (mk [N, H] PC) (mk [D, 4 * H] WX) (set_elt (mk [H, 4 * H] WH) idx t) (mk [4 * H] B))
         has_real_derivative
          elt (mk [H, 4 * H] (\<lambda>idx. \<Sum>n<N. PH [n, idx ! 0] * lstm_dA_of DH DC (lstm_A_fn X PH WX WH B D H) PC H n (idx ! 1))) idx)
         (at (elt (mk [H, 4 * H] WH) idx))"
    unfolding set_elt_mk [OF v] elt_mk [OF v]
    using lstm_grad_Wh [OF i(2,3)] by (simp add: i(1))
qed

lemma lstm_is_gradient_b:
  "is_gradient (\<lambda>x'. lstm_loss (mk [N, H] DH) (mk [N, H] DC) (mk [N, D] X) (mk [N, H] PH) (mk [N, H] PC) (mk [D, 4 * H] WX) (mk [H, 4 * H] WH) x')
     (mk [4 * H] B)
     (mk [4 * H] (\<lambda>idx. \<Sum>n<N. lstm_dA_of DH DC (lstm_A_fn X PH WX WH B D H) PC H n (idx ! 0)))"
  unfolding is_gradient_def shape_mk
proof (intro conjI allI impI refl)
  fix idx assume v: "valid_idx [4 * H] idx"
  then obtain k0 where i: "idx = [k0]" "k0 < 4 * H" by (auto simp: valid_idx_1)
  show "((\<lambda>t. lstm_loss (mk [N, H] DH) (mk [N, H] DC) (mk [N, D] X) (mk [N, H] PH) (mk [N, H] PC) (mk [D, 4 * H] WX) (mk [H, 4 * H] WH) (set_elt (mk [4 * H] B) idx t))
         has_real_derivative
          elt (mk [4 * H] (\<lambda>idx. \<Sum>n<N. lstm_dA_of DH DC (lstm_A_fn X PH WX WH B D H) PC H n (idx ! 0))) idx)
         (at (elt (mk [4 * H] B) idx))"
    unfolding set_elt_mk [OF v] elt_mk [OF v]
    using lstm_grad_b [OF i(2)] by (simp add: i(1))
qed

subsection \<open>The vanilla RNN\<close>

declare rnn_h_fn.simps [simp del]

declare rnn_tangent.simps [simp del]

declare rnn_dh0_fn.simps [simp del]

lemma valid_idx_3:
  "valid_idx [N, T, M] idx = (\<exists>n t m. idx = [n, t, m] \<and> n < N \<and> t < T \<and> m < M)"
  by (auto simp: valid_idx_Cons)

lemma slice_mid_mk:
  assumes "t < T"
  shows "slice_mid (mk [N, T, M] F) (int t) = Inr (mk [N, M] (\<lambda>idx. F [idx ! 0, t, idx ! 1]))"
proof -
  have "mk [N, M] (\<lambda>idx. elt (mk [N, T, M] F) [idx ! 0, nat (int t mod int T), idx ! 1])
        = mk [N, M] (\<lambda>idx. F [idx ! 0, t, idx ! 1])"
    using assms by (intro mk_cong) (auto simp: valid_idx_2 valid_idx_3)
  then show ?thesis using assms by (simp add: slice_mid_def)
qed

lemma set_slice_mid_mk:
  assumes "t < T"
  shows "set_slice_mid (mk [N, T, M] F) (int t) (mk [N, M] G)
         = Inr (mk [N, T, M] (\<lambda>idx. if idx ! 1 = t then G [idx ! 0, idx ! 2] else F idx))"
proof -
  have "mk [N, T, M] (\<lambda>idx. if idx ! 1 = nat (int t mod int T)
           then elt (mk [N, M] G) (bidx [N, M] [idx ! 0, idx ! 2]) else elt (mk [N, T, M] F) idx)
        = mk [N, T, M] (\<lambda>idx. if idx ! 1 = t then G [idx ! 0, idx ! 2] else F idx)"
    using assms by (intro mk_cong) (auto simp: valid_idx_2 valid_idx_3 bidx_2_2)
  then show ?thesis using assms by (simp add: set_slice_mid_def broadcast_shapes_same cong: if_cong)
qed

lemma np_iadd_mk: "np_iadd (mk sh F) (mk sh G) = Inr (mk sh (\<lambda>idx. F idx + G idx))"
  by (simp add: np_iadd_def broadcast_shapes_same np_add_def ufunc2_mk_same)

lemma rnn_step_forward_mk:
  "rnn_step_forward (mk [N, D] X) (mk [N, H] P) (mk [D, H] WX) (mk [H, H] WH) (mk [H] B)
     = Inr (mk [N, H] (\<lambda>idx. tanh ((\<Sum>d<D. X [idx ! 0, d] * WX [d, idx ! 1])
                                   + (\<Sum>k<H. P [idx ! 0, k] * WH [k, idx ! 1]) + B [idx ! 1])),
            (mk [N, D] X, mk [N, H] P, mk [D, H] WX, mk [H, H] WH,
             mk [N, H] (\<lambda>idx. tanh ((\<Sum>d<D. X [idx ! 0, d] * WX [d, idx ! 1])
                                   + (\<Sum>k<H. P [idx ! 0, k] * WH [k, idx ! 1]) + B [idx ! 1]))))"
  by (simp add: rnn_step_forward_def np_dot_mk np_add_def ufunc2_mk_same ufunc2_mk_row ufunc1_mk Let_def)

lemma rnn_step_forward_h_fn:
  "rnn_step_forward (mk [N, D] (\<lambda>idx. X [idx ! 0, t, idx ! 1]))
       (mk [N, H] (\<lambda>idx. rnn_h_fn X H0 WX WH B D H t (idx ! 0) (idx ! 1)))
       (mk [D, H] WX) (mk [H, H] WH) (mk [H] B)
     = Inr (mk [N, H] (\<lambda>idx. rnn_h_fn X H0 WX WH B D H (Suc t) (idx ! 0) (idx ! 1)),
            (mk [N, D] (\<lambda>idx. X [idx ! 0, t, idx ! 1]),
             mk [N, H] (\<lambda>idx. rnn_h_fn X H0 WX WH B D H t (idx ! 0) (idx ! 1)),
             mk [D, H] WX, mk [H, H] WH,
             mk [N, H] (\<lambda>idx. rnn_h_fn X H0 WX WH B D H (Suc t) (idx ! 0) (idx ! 1))))"
  unfolding rnn_step_forward_mk by (simp add: rnn_h_fn.simps)

lemma slice_mid_h_part:
  assumes "t < k" "t < T"
  shows "slice_mid (rnn_h_part X H0 WX WH B N T D H k) (int t)
         = Inr (mk [N, H] (\<lambda>idx. rnn_h_fn X H0 WX WH B D H (Suc t) (idx ! 0) (idx ! 1)))"
  unfolding rnn_h_part_def slice_mid_mk [OF assms(2)]
  using assms(1) by (auto intro!: mk_cong simp: valid_idx_2)

lemma set_slice_mid_h_part:
  assumes "k < T"
  shows "set_slice_mid (rnn_h_part X H0 WX WH B N T D H k) (int k)
           (mk [N, H] (\<lambda>idx. rnn_h_fn X H0 WX WH B D H (Suc k) (idx ! 0) (idx ! 1)))
         = Inr (rnn_h_part X H0 WX WH B N T D H (Suc k))"
  unfolding rnn_h_part_def set_slice_mid_mk [OF assms]
  by (auto intro!: mk_cong simp: valid_idx_3)

lemma rnn_forward_body:
  assumes "Suc i < T"
  shows "rbind (slice_mid (mk [N, T, D] X) (int i + 1)) (\<lambda>xi.
         rbind (slice_mid (rnn_h_part X H0 WX WH B N T D H (Suc i)) (int i)) (\<lambda>hi.
         rbind (rnn_step_forward xi hi (mk [D, H] WX) (mk [H, H] WH) (mk [H] B)) (\<lambda>(v, _).
         set_slice_mid (rnn_h_part X H0 WX WH B N T D H (Suc i)) (int i + 1) v)))
         = Inr (rnn_h_part X H0 WX WH B N T D H (Suc (Suc i)))"
proof -
  have e: "int i + 1 = int (Suc i)" by simp
  have i: "i < Suc i" "i < T" using assms by simp_all
  show ?thesis
    unfolding e slice_mid_mk [OF assms] slice_mid_h_part [OF i] rbind_Inr rnn_step_forward_h_fn
      prod.case set_slice_mid_h_part [OF assms]
    by (rule refl)
qed

lemma rnn_forward_loop:
  assumes "m < T"
  shows "for_loop [0..<m]
           (\<lambda>i h. rbind (slice_mid (mk [N, T, D] X) (int i + 1)) (\<lambda>xi.
                  rbind (slice_mid h (int i)) (\<lambda>hi.
                  rbind (rnn_step_forward xi hi (mk [D, H] WX) (mk [H, H] WH) (mk [H] B)) (\<lambda>(v, _).
                  set_slice_mid h (int i + 1) v))))
           (rnn_h_part X H0 WX WH B N T D H (Suc 0))
         = Inr (rnn_h_part X H0 WX WH B N T D H (Suc m))"
  using assms
proof (induction m)
  case 0
  show ?case by simp
next
  case (Suc m)
  then have m: "m < T" "Suc m < T" by simp_all
  show ?case
    unfolding upt_Suc_snoc for_loop_append Suc.IH [OF m(1)] rbind_Inr
    by (simp add: rnn_forward_body [OF m(2)])
qed

lemma rnn_forward_mk:
  assumes "0 < T"
  shows "rnn_forward (mk [N, T, D] X) (mk [N, H] H0) (mk [D, H] WX) (mk [H, H] WH) (mk [H] B)
         = Inr (mk [N, T, H] (\<lambda>idx. rnn_h_fn X H0 WX WH B D H (Suc (idx ! 1)) (idx ! 0) (idx ! 2)),
                (mk [N, T, D] X,
                 mk [N, T, H] (\<lambda>idx. rnn_h_fn X H0 WX WH B D H (Suc (idx ! 1)) (idx ! 0) (idx ! 2)),
                 mk [D, H] WX, mk [H, H] WH, mk [H] B, mk [N, H] H0))"
proof -
  have z: "np_zeros [N, T, H] = rnn_h_part X H0 WX WH B N T D H 0"
    by (simp add: np_zeros_def rnn_h_part_def)
  have h0: "mk [N, H] H0 = mk [N, H] (\<lambda>idx. rnn_h_fn X H0 WX WH B D H 0 (idx ! 0) (idx ! 1))"
    by (rule mk_cong) (auto simp: valid_idx_2 rnn_h_fn.simps)
  have s0: "slice_mid (mk [N, T, D] X) 0 = Inr (mk [N, D] (\<lambda>idx. X [idx ! 0, 0, idx ! 1]))"
    using slice_mid_mk [OF assms, of N D X] by simp
  have st: "rnn_step_forward (mk [N, D] (\<lambda>idx. X [idx ! 0, 0, idx ! 1])) (mk [N, H] H0)
               (mk [D, H] WX) (mk [H, H] WH) (mk [H] B)
            = Inr (mk [N, H] (\<lambda>idx. rnn_h_fn X H0 WX WH B D H (Suc 0) (idx ! 0) (idx ! 1)),
                   (mk [N, D] (\<lambda>idx. X [idx ! 0, 0, idx ! 1]), mk [N, H] H0, mk [D, H] WX, mk [H, H] WH,
                    mk [N, H] (\<lambda>idx. rnn_h_fn X H0 WX WH B D H (Suc 0) (idx ! 0) (idx ! 1))))"
    using rnn_step_forward_h_fn [of N D X 0 H H0 WX WH B] unfolding h0 [symmetric] .
  have ss: "set_slice_mid (rnn_h_part X H0 WX WH B N T D H 0) 0
              (mk [N, H] (\<lambda>idx. rnn_h_fn X H0 WX WH B D H (Suc 0) (idx ! 0) (idx ! 1)))
            = Inr (rnn_h_part X H0 WX WH B N T D H (Suc 0))"
    using set_slice_mid_h_part [OF assms, of X H0 WX WH B N D H] by simp
  have T: "T - 1 < T" using assms by simp
  have fin: "rnn_h_part X H0 WX WH B N T D H (Suc (T - 1))
             = mk [N, T, H] (\<lambda>idx. rnn_h_fn X H0 WX WH B D H (Suc (idx ! 1)) (idx ! 0) (idx ! 2))"
    unfolding rnn_h_part_def using assms by (auto intro!: mk_cong simp: valid_idx_3)
  show ?thesis
    unfolding rnn_forward_def shape_mk list.case s0 rbind_Inr st prod.case z ss
      rnn_forward_loop [OF T] fin
    by (rule refl)
qed

lemma rnn_h_DERIV:
  fixes X H0 WX WH B :: "real \<Rightarrow> nat list \<Rightarrow> real"
  assumes X: "\<And>idx. ((\<lambda>s. X s idx) has_real_derivative X' idx) (at s0)"
    and H0: "\<And>idx. ((\<lambda>s. H0 s idx) has_real_derivative H0' idx) (at s0)"
    and WX: "\<And>idx. ((\<lambda>s. WX s idx) has_real_derivative WX' idx) (at s0)"
    and WH: "\<And>idx. ((\<lambda>s. WH s idx) has_real_derivative WH' idx) (at s0)"
    and B: "\<And>idx. ((\<lambda>s. B s idx) has_real_derivative B' idx) (at s0)"
  shows "((\<lambda>s. rnn_h_fn (X s) (H0 s) (WX s) (WH s) (B s) D H t n j) has_real_derivative
           rnn_tangent (X s0) X' H0' (WX s0) WX' (WH s0) WH' B'
             (rnn_h_fn (X s0) (H0 s0) (WX s0) (WH s0) (B s0) D H) D H t n j) (at s0)"
proof (induction t arbitrary: n j)
  case 0
  show ?case by (simp add: rnn_h_fn.simps rnn_tangent.simps H0)
next
  case (Suc t)
  let ?hs = "rnn_h_fn (X s0) (H0 s0) (WX s0) (WH s0) (B s0) D H"
  let ?tg = "rnn_tangent (X s0) X' H0' (WX s0) WX' (WH s0) WH' B' ?hs D H"
  have inner: "((\<lambda>s. (\<Sum>d<D. X s [n, t, d] * WX s [d, j])
                   + (\<Sum>k<H. rnn_h_fn (X s) (H0 s) (WX s) (WH s) (B s) D H t n k * WH s [k, j])
                   + B s [j])
        has_real_derivative
         ((\<Sum>d<D. X' [n, t, d] * WX s0 [d, j] + X s0 [n, t, d] * WX' [d, j])
          + (\<Sum>k<H. ?tg t n k * WH s0 [k, j] + ?hs t n k * WH' [k, j])
          + B' [j])) (at s0)"
    by (intro DERIV_add DERIV_sum DERIV_times X WX WH B Suc.IH)
  show ?case
    using DERIV_tanh_fn [OF inner]
    by (simp add: rnn_h_fn.simps(2) rnn_tangent.simps(2))
qed

lemma rnn_tangent_Suc:
  "rnn_tangent X X' H0' WX WX' WH WH' B' hs D H (Suc t) n j =
     (1 - (hs (Suc t) n j)\<^sup>2) *
       (rnn_direct X X' WX WX' WH' B' hs D H t n j
        + (\<Sum>k<H. rnn_tangent X X' H0' WX WX' WH WH' B' hs D H t n k * WH [k, j]))"
  by (simp add: rnn_tangent.simps(2) rnn_direct_def sum.distrib)

lemma rnn_dh0_fn_Suc:
  assumes "i < T"
  shows "rnn_dh0_fn DH hs WH T H (Suc i) n k
         = (\<Sum>j<H. rnn_dA_fn DH hs WH T H (T - 1 - i) n j * WH [k, j])"
proof -
  have "T - 1 - (T - 1 - i) = i" using assms by simp
  then show ?thesis by (simp add: rnn_dh0_fn.simps(2) rnn_dA_fn_def)
qed

lemma rnn_adjoint_step:
  fixes tgS tg e dA :: "nat \<Rightarrow> real" and W :: "nat \<Rightarrow> nat \<Rightarrow> real"
  assumes tgS: "\<And>j. j < H \<Longrightarrow> tgS j = c j * (e j + (\<Sum>k<H. tg k * W k j))"
    and dA: "\<And>j. j < H \<Longrightarrow> dA j = (dh j + d0 j) * c j"
  shows "(\<Sum>j<H. dh j * tgS j) + (\<Sum>k<H. d0 k * tgS k)
         = (\<Sum>k<H. (\<Sum>j<H. dA j * W k j) * tg k) + (\<Sum>j<H. dA j * e j)"
proof -
  have "(\<Sum>j<H. dh j * tgS j) + (\<Sum>k<H. d0 k * tgS k) = (\<Sum>j<H. (dh j + d0 j) * tgS j)"
    by (simp add: sum.distrib algebra_simps)
  also have "\<dots> = (\<Sum>j<H. dA j * e j + (\<Sum>k<H. dA j * W k j * tg k))"
    by (intro sum.cong refl) (simp add: tgS dA algebra_simps sum_distrib_left)
  also have "\<dots> = (\<Sum>j<H. dA j * e j) + (\<Sum>j<H. \<Sum>k<H. dA j * W k j * tg k)"
    by (simp add: sum.distrib)
  also have "(\<Sum>j<H. \<Sum>k<H. dA j * W k j * tg k) = (\<Sum>k<H. \<Sum>j<H. dA j * W k j * tg k)"
    by (rule sum.swap)
  also have "\<dots> = (\<Sum>k<H. (\<Sum>j<H. dA j * W k j) * tg k)"
    by (simp add: sum_distrib_right)
  finally show ?thesis by simp
qed

lemma rnn_adjoint:
  assumes "i \<le> T"
  shows "(\<Sum>t<T. \<Sum>j<H. DH [n, t, j] * rnn_tangent X X' H0' WX WX' WH WH' B' hs D H (Suc t) n j)
         = (\<Sum>t<T - i. \<Sum>j<H. DH [n, t, j] * rnn_tangent X X' H0' WX WX' WH WH' B' hs D H (Suc t) n j)
           + (\<Sum>k<H. rnn_dh0_fn DH hs WH T H i n k * rnn_tangent X X' H0' WX WX' WH WH' B' hs D H (T - i) n k)
           + (\<Sum>t = T - i..<T. \<Sum>j<H. rnn_dA_fn DH hs WH T H t n j
                                         * rnn_direct X X' WX WX' WH' B' hs D H t n j)"
  using assms
proof (induction i)
  case 0
  show ?case by (simp add: rnn_dh0_fn.simps)
next
  case (Suc i)
  let ?tg = "rnn_tangent X X' H0' WX WX' WH WH' B' hs D H"
  let ?d0 = "rnn_dh0_fn DH hs WH T H"
  let ?dA = "rnn_dA_fn DH hs WH T H"
  let ?e = "rnn_direct X X' WX WX' WH' B' hs D H"
  define t where "t = T - Suc i"
  have t: "T - i = Suc t" "t < T" "T - 1 - i = t" "T - 1 - t = i" "T - Suc t = i"
    using Suc.prems by (simp_all add: t_def)
  have i: "i \<le> T" "i < T" using Suc.prems by simp_all
  have st: "(\<Sum>j<H. DH [n, t, j] * ?tg (Suc t) n j) + (\<Sum>k<H. ?d0 i n k * ?tg (Suc t) n k)
            = (\<Sum>k<H. (\<Sum>j<H. ?dA t n j * WH [k, j]) * ?tg t n k) + (\<Sum>j<H. ?dA t n j * ?e t n j)"
    by (rule rnn_adjoint_step [where c = "\<lambda>j. 1 - (hs (Suc t) n j)\<^sup>2"])
      (simp_all add: rnn_tangent_Suc rnn_dA_fn_def t)
  have d: "\<And>k. (\<Sum>j<H. ?dA t n j * WH [k, j]) = ?d0 (Suc i) n k"
    using rnn_dh0_fn_Suc [OF i(2), of DH hs WH H n] by (simp add: t_def)
  have g: "(\<Sum>t' = t..<T. \<Sum>j<H. ?dA t' n j * ?e t' n j)
           = (\<Sum>j<H. ?dA t n j * ?e t n j) + (\<Sum>t' = Suc t..<T. \<Sum>j<H. ?dA t' n j * ?e t' n j)"
    by (rule sum.atLeast_Suc_lessThan [OF t(2)])
  have "(\<Sum>t<T. \<Sum>j<H. DH [n, t, j] * ?tg (Suc t) n j)
        = (\<Sum>t'<Suc t. \<Sum>j<H. DH [n, t', j] * ?tg (Suc t') n j)
           + (\<Sum>k<H. ?d0 i n k * ?tg (Suc t) n k)
           + (\<Sum>t' = Suc t..<T. \<Sum>j<H. ?dA t' n j * ?e t' n j)"
    using Suc.IH [OF i(1)] unfolding t(1) .
  also have "\<dots> = (\<Sum>t'<t. \<Sum>j<H. DH [n, t', j] * ?tg (Suc t') n j)
           + ((\<Sum>j<H. DH [n, t, j] * ?tg (Suc t) n j) + (\<Sum>k<H. ?d0 i n k * ?tg (Suc t) n k))
           + (\<Sum>t' = Suc t..<T. \<Sum>j<H. ?dA t' n j * ?e t' n j)"
    by simp
  also have "\<dots> = (\<Sum>t'<t. \<Sum>j<H. DH [n, t', j] * ?tg (Suc t') n j)
           + (\<Sum>k<H. ?d0 (Suc i) n k * ?tg t n k)
           + (\<Sum>t' = t..<T. \<Sum>j<H. ?dA t' n j * ?e t' n j)"
    unfolding st d g by simp
  finally show ?case unfolding t_def .
qed

lemma rnn_adjoint_total:
  "(\<Sum>t<T. \<Sum>j<H. DH [n, t, j] * rnn_tangent X X' H0' WX WX' WH WH' B' hs D H (Suc t) n j)
   = (\<Sum>k<H. rnn_dh0_fn DH hs WH T H T n k * H0' [n, k])
     + (\<Sum>t<T. \<Sum>j<H. rnn_dA_fn DH hs WH T H t n j * rnn_direct X X' WX WX' WH' B' hs D H t n j)"
  using rnn_adjoint [where i = T and T = T and H = H and DH = DH and n = n and X = X and X' = X'
      and ?H0' = H0' and WX = WX and WX' = WX' and WH = WH and WH' = WH' and B' = B' and hs = hs and D = D]
  by (simp add: rnn_tangent.simps(1) lessThan_atLeast0)

lemma sum_indices_3:
  "(\<Sum>idx \<leftarrow> indices [N, T, M]. f idx) = (\<Sum>n<N. \<Sum>t<T. \<Sum>m<M. f [n, t, m])"
  by (simp add: sum_list_indices_Cons [where d = N] sum_indices_2 del: indices.simps)

lemma rnn_loss_mk:
  assumes "0 < T"
  shows "rnn_loss (mk [N, T, H] DH) (mk [N, T, D] X) (mk [N, H] H0) (mk [D, H] WX) (mk [H, H] WH) (mk [H] B)
         = (\<Sum>n<N. \<Sum>t<T. \<Sum>j<H. DH [n, t, j] * rnn_h_fn X H0 WX WH B D H (Suc t) n j)"
proof -
  have s: "has_shape (mk [N, T, H] DH) [N, T, H]" by simp
  show ?thesis
    unfolding rnn_loss_def rnn_forward_mk [OF assms] sum.case prod.case sum_prod_mk [OF s] sum_indices_3
    by (intro sum.cong refl) (simp add: valid_idx_3)
qed

lemma rnn_loss_DERIV:
  fixes X H0 WX WH B :: "real \<Rightarrow> nat list \<Rightarrow> real"
  assumes T: "0 < T"
    and X: "\<And>idx. ((\<lambda>s. X s idx) has_real_derivative X' idx) (at s0)"
    and H0: "\<And>idx. ((\<lambda>s. H0 s idx) has_real_derivative H0' idx) (at s0)"
    and WX: "\<And>idx. ((\<lambda>s. WX s idx) has_real_derivative WX' idx) (at s0)"
    and WH: "\<And>idx. ((\<lambda>s. WH s idx) has_real_derivative WH' idx) (at s0)"
    and B: "\<And>idx. ((\<lambda>s. B s idx) has_real_derivative B' idx) (at s0)"
  shows "((\<lambda>s. rnn_loss (mk [N, T, H] DH) (mk [N, T, D] (X s)) (mk [N, H] (H0 s)) (mk [D, H] (WX s))
                 (mk [H, H] (WH s)) (mk [H] (B s)))
          has_real_derivative
           (\<Sum>n<N. (\<Sum>k<H. rnn_dh0_fn DH (rnn_h_fn (X s0) (H0 s0) (WX s0) (WH s0) (B s0) D H) (WH s0) T H T n k
                          * H0' [n, k])
                 + (\<Sum>t<T. \<Sum>j<H.
                      rnn_dA_fn DH (rnn_h_fn (X s0) (H0 s0) (WX s0) (WH s0) (B s0) D H) (WH s0) T H t n j
                      * rnn_direct (X s0) X' (WX s0) WX' WH' B'
                          (rnn_h_fn (X s0) (H0 s0) (WX s0) (WH s0) (B s0) D H) D H t n j))) (at s0)"
proof -
  let ?hs = "rnn_h_fn (X s0) (H0 s0) (WX s0) (WH s0) (B s0) D H"
  have "((\<lambda>s. \<Sum>n<N. \<Sum>t<T. \<Sum>j<H. DH [n, t, j] * rnn_h_fn (X s) (H0 s) (WX s) (WH s) (B s) D H (Suc t) n j)
          has_real_derivative
           (\<Sum>n<N. \<Sum>t<T. \<Sum>j<H. DH [n, t, j]
               * rnn_tangent (X s0) X' H0' (WX s0) WX' (WH s0) WH' B' ?hs D H (Suc t) n j)) (at s0)"
    by (intro DERIV_sum DERIV_cmult rnn_h_DERIV X H0 WX WH B)
  then show ?thesis
    unfolding rnn_loss_mk [OF T] rnn_adjoint_total .
qed

lemma rnn_direct_x:
  assumes "d0 < D"
  shows "rnn_direct X (\<lambda>i. if i = [n0, t0, d0] then 1 else 0) WX (\<lambda>i. 0) (\<lambda>i. 0) (\<lambda>i. 0) hs D H t n j
         = (if n = n0 \<and> t = t0 then WX [d0, j] else 0)"
proof -
  have "(\<Sum>d<D. (if [n, t, d] = [n0, t0, d0] then 1 else 0) * WX [d, j])
        = (\<Sum>d<D. if d = d0 then (if n = n0 \<and> t = t0 then WX [d0, j] else 0) else 0)"
    by (intro sum.cong refl) auto
  then show ?thesis using assms by (simp add: rnn_direct_def sum.delta)
qed

lemma rnn_direct_Wx:
  assumes "d0 < D"
  shows "rnn_direct X (\<lambda>i. 0) WX (\<lambda>i. if i = [d0, j0] then 1 else 0) (\<lambda>i. 0) (\<lambda>i. 0) hs D H t n j
         = (if j = j0 then X [n, t, d0] else 0)"
proof -
  have "(\<Sum>d<D. X [n, t, d] * (if [d, j] = [d0, j0] then 1 else 0))
        = (\<Sum>d<D. if d = d0 then (if j = j0 then X [n, t, d0] else 0) else 0)"
    by (intro sum.cong refl) auto
  then show ?thesis using assms by (simp add: rnn_direct_def sum.delta)
qed

lemma rnn_direct_Wh:
  assumes "k0 < H"
  shows "rnn_direct X (\<lambda>i. 0) WX (\<lambda>i. 0) (\<lambda>i. if i = [k0, j0] then 1 else 0) (\<lambda>i. 0) hs D H t n j
         = (if j = j0 then hs t n k0 else 0)"
proof -
  have "(\<Sum>k<H. hs t n k * (if [k, j] = [k0, j0] then 1 else 0))
        = (\<Sum>k<H. if k = k0 then (if j = j0 then hs t n k0 else 0) else 0)"
    by (intro sum.cong refl) auto
  then show ?thesis using assms by (simp add: rnn_direct_def sum.delta)
qed

lemma rnn_direct_b:
  "rnn_direct X (\<lambda>i. 0) WX (\<lambda>i. 0) (\<lambda>i. 0) (\<lambda>i. if i = [j0] then 1 else 0) hs D H t n j
         = (if j = j0 then 1 else 0)"
  by (simp add: rnn_direct_def)

lemma rnn_direct_h0:
  "rnn_direct X (\<lambda>i. 0) WX (\<lambda>i. 0) (\<lambda>i. 0) (\<lambda>i. 0) hs D H t n j = 0"
  by (simp add: rnn_direct_def)

lemma sum3_delta_nt:
  fixes F :: "nat \<Rightarrow> nat \<Rightarrow> nat \<Rightarrow> real"
  assumes "n0 < N" "t0 < T"
  shows "(\<Sum>n<N. \<Sum>t<T. \<Sum>j<H. F t n j * (if n = n0 \<and> t = t0 then G j else 0))
         = (\<Sum>j<H. F t0 n0 j * G j)"
proof -
  have "\<And>n. (\<Sum>t<T. \<Sum>j<H. F t n j * (if n = n0 \<and> t = t0 then G j else 0))
             = (\<Sum>t<T. if t = t0 then (if n = n0 then (\<Sum>j<H. F t0 n0 j * G j) else 0) else 0)"
    by (intro sum.cong refl) auto
  then have "(\<Sum>n<N. \<Sum>t<T. \<Sum>j<H. F t n j * (if n = n0 \<and> t = t0 then G j else 0))
             = (\<Sum>n<N. if n = n0 then (\<Sum>j<H. F t0 n0 j * G j) else 0)"
    using assms(2) by (simp add: sum.delta)
  then show ?thesis using assms(1) by (simp add: sum.delta)
qed

lemma sum3_delta_j:
  fixes F :: "nat \<Rightarrow> nat \<Rightarrow> nat \<Rightarrow> real"
  assumes "j0 < H"
  shows "(\<Sum>n<N. \<Sum>t<T. \<Sum>j<H. F t n j * (if j = j0 then G t n else 0))
         = (\<Sum>t<T. \<Sum>n<N. G t n * F t n j0)"
proof -
  have "\<And>n t. (\<Sum>j<H. F t n j * (if j = j0 then G t n else 0))
               = (\<Sum>j<H. if j = j0 then G t n * F t n j0 else 0)"
    by (intro sum.cong refl) auto
  then have "(\<Sum>n<N. \<Sum>t<T. \<Sum>j<H. F t n j * (if j = j0 then G t n else 0))
             = (\<Sum>n<N. \<Sum>t<T. G t n * F t n j0)"
    using assms by (simp add: sum.delta)
  also have "\<dots> = (\<Sum>t<T. \<Sum>n<N. G t n * F t n j0)"
    by (rule sum.swap)
  finally show ?thesis .
qed

lemma sum2_delta:
  fixes F :: "nat \<Rightarrow> nat \<Rightarrow> real"
  assumes "n0 < N" "k0 < H"
  shows "(\<Sum>n<N. \<Sum>k<H. F n k * (if n = n0 \<and> k = k0 then 1 else 0)) = F n0 k0"
proof -
  have "\<And>n. (\<Sum>k<H. F n k * (if n = n0 \<and> k = k0 then 1 else 0))
             = (\<Sum>k<H. if k = k0 then (if n = n0 then F n0 k0 else 0) else 0)"
    by (intro sum.cong refl) auto
  then have "(\<Sum>n<N. \<Sum>k<H. F n k * (if n = n0 \<and> k = k0 then 1 else 0))
             = (\<Sum>n<N. if n = n0 then F n0 k0 else 0)"
    using assms(2) by (simp add: sum.delta)
  then show ?thesis using assms(1) by (simp add: sum.delta)
qed

lemma rnn_grad_x:
  assumes T: "0 < T" and n0: "n0 < N" and t0: "t0 < T" and d0: "d0 < D"
  shows "((\<lambda>s. rnn_loss (mk [N, T, H] DH) (mk [N, T, D] (X([n0, t0, d0] := s))) (mk [N, H] H0) (mk [D, H] WX) (mk [H, H] WH) (mk [H] B))
          has_real_derivative (\<Sum>j<H. rnn_dA_fn DH (rnn_h_fn X H0 WX WH B D H) WH T H t0 n0 j * WX [d0, j])) (at (X [n0, t0, d0]))"
  using rnn_loss_DERIV [where X = "\<lambda>s. X([n0, t0, d0] := s)"
      and X' = "\<lambda>i. if i = [n0, t0, d0] then 1 else 0"
      and ?H0.0 = "\<lambda>s. H0"
      and ?H0' = "\<lambda>i. 0"
      and WX = "\<lambda>s. WX"
      and WX' = "\<lambda>i. 0"
      and WH = "\<lambda>s. WH"
      and WH' = "\<lambda>i. 0"
      and B = "\<lambda>s. B"
      and B' = "\<lambda>i. 0"
      and ?s0.0 = "X [n0, t0, d0]" and T = T and N = N and D = D and H = H and DH = DH,
      OF T DERIV_fun_upd DERIV_const DERIV_const DERIV_const DERIV_const]
  by (simp add: rnn_direct_x [OF d0] sum3_delta_nt [OF n0 t0])

lemma rnn_grad_h0:
  assumes T: "0 < T" and n0: "n0 < N" and k0: "k0 < H"
  shows "((\<lambda>s. rnn_loss (mk [N, T, H] DH) (mk [N, T, D] X) (mk [N, H] (H0([n0, k0] := s))) (mk [D, H] WX) (mk [H, H] WH) (mk [H] B))
          has_real_derivative rnn_dh0_fn DH (rnn_h_fn X H0 WX WH B D H) WH T H T n0 k0) (at (H0 [n0, k0]))"
  using rnn_loss_DERIV [where X = "\<lambda>s. X"
      and X' = "\<lambda>i. 0"
      and ?H0.0 = "\<lambda>s. H0([n0, k0] := s)"
      and ?H0' = "\<lambda>i. if i = [n0, k0] then 1 else 0"
      and WX = "\<lambda>s. WX"
      and WX' = "\<lambda>i. 0"
      and WH = "\<lambda>s. WH"
      and WH' = "\<lambda>i. 0"
      and B = "\<lambda>s. B"
      and B' = "\<lambda>i. 0"
      and ?s0.0 = "H0 [n0, k0]" and T = T and N = N and D = D and H = H and DH = DH,
      OF T DERIV_const DERIV_fun_upd DERIV_const DERIV_const DERIV_const]
  by (simp add: rnn_direct_h0 sum2_delta [OF n0 k0])

lemma rnn_grad_Wx:
  assumes T: "0 < T" and d0: "d0 < D" and j0: "j0 < H"
  shows "((\<lambda>s. rnn_loss (mk [N, T, H] DH) (mk [N, T, D] X) (mk [N, H] H0) (mk [D, H] (WX([d0, j0] := s))) (mk [H, H] WH) (mk [H] B))
          has_real_derivative (\<Sum>t<T. \<Sum>n<N. X [n, t, d0] * rnn_dA_fn DH (rnn_h_fn X H0 WX WH B D H) WH T H t n j0)) (at (WX [d0, j0]))"
  using rnn_loss_DERIV [where X = "\<lambda>s. X"
      and X' = "\<lambda>i. 0"
      and ?H0.0 = "\<lambda>s. H0"
      and ?H0' = "\<lambda>i. 0"
      and WX = "\<lambda>s. WX([d0, j0] := s)"
      and WX' = "\<lambda>i. if i = [d0, j0] then 1 else 0"
      and WH = "\<lambda>s. WH"
      and WH' = "\<lambda>i. 0"
      and B = "\<lambda>s. B"
      and B' = "\<lambda>i. 0"
      and ?s0.0 = "WX [d0, j0]" and T = T and N = N and D = D and H = H and DH = DH,
      OF T DERIV_const DERIV_const DERIV_fun_upd DERIV_const DERIV_const]
  by (simp add: rnn_direct_Wx [OF d0] sum3_delta_j [OF j0])

lemma rnn_grad_Wh:
  assumes T: "0 < T" and k0: "k0 < H" and j0: "j0 < H"
  shows "((\<lambda>s. rnn_loss (mk [N, T, H] DH) (mk [N, T, D] X) (mk [N, H] H0) (mk [D, H] WX) (mk [H, H] (WH([k0, j0] := s))) (mk [H] B))
          has_real_derivative (\<Sum>t<T. \<Sum>n<N. rnn_h_fn X H0 WX WH B D H t n k0 * rnn_dA_fn DH (rnn_h_fn X H0 WX WH B D H) WH T H t n j0))
          (at (WH [k0, j0]))"
  using rnn_loss_DERIV [where X = "\<lambda>s. X"
      and X' = "\<lambda>i. 0"
      and ?H0.0 = "\<lambda>s. H0"
      and ?H0' = "\<lambda>i. 0"
      and WX = "\<lambda>s. WX"
      and WX' = "\<lambda>i. 0"
      and WH = "\<lambda>s. WH([k0, j0] := s)"
      and WH' = "\<lambda>i. if i = [k0, j0] then 1 else 0"
      and B = "\<lambda>s. B"
      and B' = "\<lambda>i. 0"
      and ?s0.0 = "WH [k0, j0]" and T = T and N = N and D = D and H = H and DH = DH,
      OF T DERIV_const DERIV_const DERIV_const DERIV_fun_upd DERIV_const]
  by (simp add: rnn_direct_Wh [OF k0] sum3_delta_j [OF j0])

lemma rnn_grad_b:
  assumes T: "0 < T" and j0: "j0 < H"
  shows "((\<lambda>s. rnn_loss (mk [N, T, H] DH) (mk [N, T, D] X) (mk [N, H] H0) (mk [D, H] WX) (mk [H, H] WH) (mk [H] (B([j0] := s))))
          has_real_derivative (\<Sum>t<T. \<Sum>n<N. rnn_dA_fn DH (rnn_h_fn X H0 WX WH B D H) WH T H t n j0)) (at (B [j0]))"
  using rnn_loss_DERIV [where X = "\<lambda>s. X"
      and X' = "\<lambda>i. 0"
      and ?H0.0 = "\<lambda>s. H0"
      and ?H0' = "\<lambda>i. 0"
      and WX = "\<lambda>s. WX"
      and WX' = "\<lambda>i. 0"
      and WH = "\<lambda>s. WH"
      and WH' = "\<lambda>i. 0"
      and B = "\<lambda>s. B([j0] := s)"
      and B' = "\<lambda>i. if i = [j0] then 1 else 0"
      and ?s0.0 = "B [j0]" and T = T and N = N and D = D and H = H and DH = DH,
      OF T DERIV_const DERIV_const DERIV_const DERIV_const DERIV_fun_upd]
  by (simp add: rnn_direct_b sum3_delta_j [OF j0, where G = "\<lambda>t n. 1", simplified])

lemma rnn_step_backward_mk:
  "rnn_step_backward (mk [N, H] G) (mk [N, D] Xt, mk [N, H] P, mk [D, H] WX, mk [H, H] WH, mk [N, H] NH)
     = Inr (mk [N, D] (\<lambda>idx. \<Sum>j<H. (G [idx ! 0, j] * (1 - (NH [idx ! 0, j])\<^sup>2)) * WX [idx ! 1, j]),
            mk [N, H] (\<lambda>idx. \<Sum>j<H. (G [idx ! 0, j] * (1 - (NH [idx ! 0, j])\<^sup>2)) * WH [idx ! 1, j]),
            mk [D, H] (\<lambda>idx. \<Sum>n<N. Xt [n, idx ! 0] * (G [n, idx ! 1] * (1 - (NH [n, idx ! 1])\<^sup>2))),
            mk [H, H] (\<lambda>idx. \<Sum>n<N. P [n, idx ! 0] * (G [n, idx ! 1] * (1 - (NH [n, idx ! 1])\<^sup>2))),
            mk [H] (\<lambda>idx. \<Sum>n<N. G [n, idx ! 0] * (1 - (NH [n, idx ! 0])\<^sup>2)))"
  by (simp add: rnn_step_backward_def np_mul_def ufunc2_mk_same ufunc1_mk np_dot_mk np_T_mk np_sum0_mk)

lemma rnn_step_backward_dA:
  assumes i: "i < T" and t: "t = T - 1 - i"
  shows "rnn_step_backward
           (mk [N, H] (\<lambda>idx. DH [idx ! 0, t, idx ! 1] + rnn_dh0_fn DH hs WH T H i (idx ! 0) (idx ! 1)))
           (mk [N, D] (\<lambda>idx. X [idx ! 0, t, idx ! 1]), mk [N, H] (\<lambda>idx. hs t (idx ! 0) (idx ! 1)),
            mk [D, H] WX, mk [H, H] WH, mk [N, H] (\<lambda>idx. hs (Suc t) (idx ! 0) (idx ! 1)))
         = Inr (mk [N, D] (\<lambda>idx. \<Sum>j<H. rnn_dA_fn DH hs WH T H t (idx ! 0) j * WX [idx ! 1, j]),
                mk [N, H] (\<lambda>idx. rnn_dh0_fn DH hs WH T H (Suc i) (idx ! 0) (idx ! 1)),
                mk [D, H] (\<lambda>idx. \<Sum>n<N. X [n, t, idx ! 0] * rnn_dA_fn DH hs WH T H t n (idx ! 1)),
                mk [H, H] (\<lambda>idx. \<Sum>n<N. hs t n (idx ! 0) * rnn_dA_fn DH hs WH T H t n (idx ! 1)),
                mk [H] (\<lambda>idx. \<Sum>n<N. rnn_dA_fn DH hs WH T H t n (idx ! 0)))"
proof -
  have e: "T - 1 - t = i" "T - Suc t = i" using i t by simp_all
  have d: "\<And>n j. (DH [n, t, j] + rnn_dh0_fn DH hs WH T H i n j) * (1 - (hs (Suc t) n j)\<^sup>2)
                  = rnn_dA_fn DH hs WH T H t n j"
    by (simp add: rnn_dA_fn_def e)
  have s: "\<And>n k. rnn_dh0_fn DH hs WH T H (Suc i) n k = (\<Sum>j<H. rnn_dA_fn DH hs WH T H t n j * WH [k, j])"
    using rnn_dh0_fn_Suc [OF i, of DH hs WH H] by (simp add: t)
  show ?thesis
    unfolding rnn_step_backward_mk
    by (simp add: d s)
qed

lemma rnn_backward_call:
  assumes i: "i < T" and t: "t = T - 1 - i"
  shows "(if int i = int T - 1 then
                rbind (slice_mid (mk [N, T, H] DH) (int t)) (\<lambda>d.
                rbind (np_add d (mk [N, H] (\<lambda>idx. rnn_dh0_fn DH (rnn_h_fn X H0 WX WH B D H) WH T H i (idx ! 0) (idx ! 1)))) (\<lambda>g.
                rbind (slice_mid (mk [N, T, D] X) (int t)) (\<lambda>xt.
                rbind (slice_mid (mk [N, T, H] (\<lambda>idx. rnn_h_fn X H0 WX WH B D H (Suc (idx ! 1)) (idx ! 0) (idx ! 2))) (int t)) (\<lambda>ht.
                rnn_step_backward g (xt, mk [N, H] H0, mk [D, H] WX, mk [H, H] WH, ht)))))
          else if i = 0 then
                rbind (slice_mid (mk [N, T, H] DH) (int t)) (\<lambda>g.
                rbind (slice_mid (mk [N, T, D] X) (int t)) (\<lambda>xt.
                rbind (slice_mid (mk [N, T, H] (\<lambda>idx. rnn_h_fn X H0 WX WH B D H (Suc (idx ! 1)) (idx ! 0) (idx ! 2))) (int t - 1)) (\<lambda>hp.
                rbind (slice_mid (mk [N, T, H] (\<lambda>idx. rnn_h_fn X H0 WX WH B D H (Suc (idx ! 1)) (idx ! 0) (idx ! 2))) (int t)) (\<lambda>ht.
                rnn_step_backward g (xt, hp, mk [D, H] WX, mk [H, H] WH, ht)))))
          else
                rbind (slice_mid (mk [N, T, H] DH) (int t)) (\<lambda>d.
                rbind (np_add d (mk [N, H] (\<lambda>idx. rnn_dh0_fn DH (rnn_h_fn X H0 WX WH B D H) WH T H i (idx ! 0) (idx ! 1)))) (\<lambda>g.
                rbind (slice_mid (mk [N, T, D] X) (int t)) (\<lambda>xt.
                rbind (slice_mid (mk [N, T, H] (\<lambda>idx. rnn_h_fn X H0 WX WH B D H (Suc (idx ! 1)) (idx ! 0) (idx ! 2))) (int t - 1)) (\<lambda>hp.
                rbind (slice_mid (mk [N, T, H] (\<lambda>idx. rnn_h_fn X H0 WX WH B D H (Suc (idx ! 1)) (idx ! 0) (idx ! 2))) (int t)) (\<lambda>ht.
                rnn_step_backward g (xt, hp, mk [D, H] WX, mk [H, H] WH, ht)))))))
         = Inr (mk [N, D] (\<lambda>idx. \<Sum>j<H. rnn_dA_fn DH (rnn_h_fn X H0 WX WH B D H) WH T H t (idx ! 0) j * WX [idx ! 1, j]),
                mk [N, H] (\<lambda>idx. rnn_dh0_fn DH (rnn_h_fn X H0 WX WH B D H) WH T H (Suc i) (idx ! 0) (idx ! 1)),
                mk [D, H] (\<lambda>idx. \<Sum>n<N. X [n, t, idx ! 0] * rnn_dA_fn DH (rnn_h_fn X H0 WX WH B D H) WH T H t n (idx ! 1)),
                mk [H, H] (\<lambda>idx. \<Sum>n<N. rnn_h_fn X H0 WX WH B D H t n (idx ! 0) * rnn_dA_fn DH (rnn_h_fn X H0 WX WH B D H) WH T H t n (idx ! 1)),
                mk [H] (\<lambda>idx. \<Sum>n<N. rnn_dA_fn DH (rnn_h_fn X H0 WX WH B D H) WH T H t n (idx ! 0)))"
proof -
  let ?hs = "rnn_h_fn X H0 WX WH B D H"
  have tT: "t < T" using i t by simp
  have sd: "slice_mid (mk [N, T, H] DH) (int t) = Inr (mk [N, H] (\<lambda>idx. DH [idx ! 0, t, idx ! 1]))"
    by (rule slice_mid_mk [OF tT])
  have sx: "slice_mid (mk [N, T, D] X) (int t) = Inr (mk [N, D] (\<lambda>idx. X [idx ! 0, t, idx ! 1]))"
    by (rule slice_mid_mk [OF tT])
  have sh: "slice_mid (mk [N, T, H] (\<lambda>idx. rnn_h_fn X H0 WX WH B D H (Suc (idx ! 1)) (idx ! 0) (idx ! 2))) (int t)
            = Inr (mk [N, H] (\<lambda>idx. ?hs (Suc t) (idx ! 0) (idx ! 1)))"
    unfolding slice_mid_mk [OF tT] by simp
  have sp: "slice_mid (mk [N, T, H] (\<lambda>idx. rnn_h_fn X H0 WX WH B D H (Suc (idx ! 1)) (idx ! 0) (idx ! 2))) (int t - 1)
            = Inr (mk [N, H] (\<lambda>idx. ?hs t (idx ! 0) (idx ! 1)))" if "t \<noteq> 0"
  proof -
    have e: "int t - 1 = int (t - 1)" using that by simp
    have l: "t - 1 < T" using tT by simp
    show ?thesis unfolding e slice_mid_mk [OF l] using that by simp
  qed
  have ad: "np_add (mk [N, H] (\<lambda>idx. DH [idx ! 0, t, idx ! 1])) (mk [N, H] (\<lambda>idx. rnn_dh0_fn DH (rnn_h_fn X H0 WX WH B D H) WH T H i (idx ! 0) (idx ! 1)))
            = Inr (mk [N, H] (\<lambda>idx. DH [idx ! 0, t, idx ! 1] + rnn_dh0_fn DH ?hs WH T H i (idx ! 0) (idx ! 1)))"
    by (simp add: np_add_def ufunc2_mk_same)
  have g0: "mk [N, H] (\<lambda>idx. DH [idx ! 0, t, idx ! 1])
            = mk [N, H] (\<lambda>idx. DH [idx ! 0, t, idx ! 1] + rnn_dh0_fn DH ?hs WH T H i (idx ! 0) (idx ! 1))"
    if "i = 0"
    using that by (simp add: rnn_dh0_fn.simps(1))
  have h0: "mk [N, H] H0 = mk [N, H] (\<lambda>idx. ?hs 0 (idx ! 0) (idx ! 1))"
    by (rule mk_cong) (auto simp: valid_idx_2 rnn_h_fn.simps(1))
  note st = rnn_step_backward_dA [OF i t, of N H DH ?hs WH D X WX]
  have c: "int i = int T - 1 \<longleftrightarrow> t = 0" using i t by auto
  show ?thesis
  proof (cases "t = 0")
    case True
    have c1: "int i = int T - 1" using c True by simp
    show ?thesis
      unfolding if_P [OF c1] sd rbind_Inr ad sx sh h0
      using st unfolding True .
  next
    case False
    have c1: "int i \<noteq> int T - 1" using c False by simp
    show ?thesis
    proof (cases "i = 0")
      case True
      show ?thesis
        unfolding if_not_P [OF c1] if_P [OF True] sd rbind_Inr sx sp [OF False] sh g0 [OF True]
        using st .
    next
      case i0: False
      show ?thesis
        unfolding if_not_P [OF c1] if_not_P [OF i0] sd rbind_Inr ad sx sp [OF False] sh
        using st .
    qed
  qed
qed

lemma sum_extend_down:
  fixes f :: "nat \<Rightarrow> real"
  assumes "i < T"
  shows "(\<Sum>t = T - i..<T. f t) + f (T - 1 - i) = (\<Sum>t = T - Suc i..<T. f t)"
proof -
  have e: "T - Suc i < T" "Suc (T - Suc i) = T - i" "T - 1 - i = T - Suc i" using assms by simp_all
  show ?thesis
    unfolding sum.atLeast_Suc_lessThan [OF e(1)] e by simp
qed

lemma rnn_backward_body_part:
  assumes i: "i < T"
  shows "rnn_backward_body (mk [N, T, H] DH) (mk [N, T, D] X, mk [N, T, H] (\<lambda>idx. rnn_h_fn X H0 WX WH B D H (Suc (idx ! 1)) (idx ! 0) (idx ! 2)), mk [D, H] WX, mk [H, H] WH, mk [H] B, mk [N, H] H0) T i
           (rnn_grads_part DH X (rnn_h_fn X H0 WX WH B D H) WX WH N T D H i)
         = Inr (rnn_grads_part DH X (rnn_h_fn X H0 WX WH B D H) WX WH N T D H (Suc i))"
proof -
  let ?hs = "rnn_h_fn X H0 WX WH B D H"
  define t where "t = T - 1 - i"
  have tI: "int T - int i - 1 = int t" using i by (simp add: t_def)
  have tT: "t < T" using i by (simp add: t_def)
  have e: "T - Suc i = t" "T - i = Suc t" using i by (simp_all add: t_def)
  have dx: "mk [N, T, D] (\<lambda>idx. if idx ! 1 = t
               then (\<Sum>j<H. rnn_dA_fn DH ?hs WH T H t ([idx ! 0, idx ! 2] ! 0) j * WX [[idx ! 0, idx ! 2] ! 1, j])
               else (if T - i \<le> idx ! 1
                     then \<Sum>j<H. rnn_dA_fn DH ?hs WH T H (idx ! 1) (idx ! 0) j * WX [idx ! 2, j] else 0))
            = mk [N, T, D] (\<lambda>idx. if T - Suc i \<le> idx ! 1
                     then \<Sum>j<H. rnn_dA_fn DH ?hs WH T H (idx ! 1) (idx ! 0) j * WX [idx ! 2, j] else 0)"
    unfolding e by (rule mk_cong) (auto simp: valid_idx_3)
  have dWx: "mk [D, H] (\<lambda>idx. (\<Sum>t = T - i..<T. \<Sum>n<N. X [n, t, idx ! 0] * rnn_dA_fn DH ?hs WH T H t n (idx ! 1))
                             + (\<Sum>n<N. X [n, t, idx ! 0] * rnn_dA_fn DH ?hs WH T H t n (idx ! 1)))
             = mk [D, H] (\<lambda>idx. \<Sum>t = T - Suc i..<T. \<Sum>n<N. X [n, t, idx ! 0] * rnn_dA_fn DH ?hs WH T H t n (idx ! 1))"
    unfolding t_def
    by (rule mk_cong)
      (rule sum_extend_down [OF i, where f = "\<lambda>t. \<Sum>n<N. X [n, t, idx ! 0] * rnn_dA_fn DH ?hs WH T H t n (idx ! 1)" for idx])
  have dWh: "mk [H, H] (\<lambda>idx. (\<Sum>t = T - i..<T. \<Sum>n<N. ?hs t n (idx ! 0) * rnn_dA_fn DH ?hs WH T H t n (idx ! 1))
                             + (\<Sum>n<N. ?hs t n (idx ! 0) * rnn_dA_fn DH ?hs WH T H t n (idx ! 1)))
             = mk [H, H] (\<lambda>idx. \<Sum>t = T - Suc i..<T. \<Sum>n<N. ?hs t n (idx ! 0) * rnn_dA_fn DH ?hs WH T H t n (idx ! 1))"
    unfolding t_def
    by (rule mk_cong)
      (rule sum_extend_down [OF i, where f = "\<lambda>t. \<Sum>n<N. ?hs t n (idx ! 0) * rnn_dA_fn DH ?hs WH T H t n (idx ! 1)" for idx])
  have db: "mk [H] (\<lambda>idx. (\<Sum>t = T - i..<T. \<Sum>n<N. rnn_dA_fn DH ?hs WH T H t n (idx ! 0))
                             + (\<Sum>n<N. rnn_dA_fn DH ?hs WH T H t n (idx ! 0)))
             = mk [H] (\<lambda>idx. \<Sum>t = T - Suc i..<T. \<Sum>n<N. rnn_dA_fn DH ?hs WH T H t n (idx ! 0))"
    unfolding t_def
    by (rule mk_cong)
      (rule sum_extend_down [OF i, where f = "\<lambda>t. \<Sum>n<N. rnn_dA_fn DH ?hs WH T H t n (idx ! 0)" for idx])
  show ?thesis
    unfolding rnn_backward_body_def rnn_grads_part_def prod.case Let_def tI
      rnn_backward_call [OF i t_def] rbind_Inr set_slice_mid_mk [OF tT] np_iadd_mk dx dWx dWh db
    by (rule refl)
qed

lemma rnn_backward_loop:
  assumes "m \<le> T"
  shows "for_loop [0..<m] (rnn_backward_body (mk [N, T, H] DH) (mk [N, T, D] X, mk [N, T, H] (\<lambda>idx. rnn_h_fn X H0 WX WH B D H (Suc (idx ! 1)) (idx ! 0) (idx ! 2)), mk [D, H] WX, mk [H, H] WH, mk [H] B, mk [N, H] H0) T)
           (rnn_grads_part DH X (rnn_h_fn X H0 WX WH B D H) WX WH N T D H 0)
         = Inr (rnn_grads_part DH X (rnn_h_fn X H0 WX WH B D H) WX WH N T D H m)"
  using assms
proof (induction m)
  case 0
  show ?case by simp
next
  case (Suc m)
  then have m: "m \<le> T" "m < T" by simp_all
  show ?case
    unfolding upt_Suc_snoc for_loop_append Suc.IH [OF m(1)] rbind_Inr for_loop.simps
      rnn_backward_body_part [OF m(2)]
    by (rule refl)
qed

lemma rnn_backward_mk:
  "rnn_backward (mk [N, T, H] DH) (mk [N, T, D] X, mk [N, T, H] (\<lambda>idx. rnn_h_fn X H0 WX WH B D H (Suc (idx ! 1)) (idx ! 0) (idx ! 2)), mk [D, H] WX, mk [H, H] WH, mk [H] B, mk [N, H] H0)
     = Inr (mk [N, T, D] (\<lambda>idx. \<Sum>j<H. rnn_dA_fn DH (rnn_h_fn X H0 WX WH B D H) WH T H (idx ! 1) (idx ! 0) j * WX [idx ! 2, j]),
                mk [N, H] (\<lambda>idx. rnn_dh0_fn DH (rnn_h_fn X H0 WX WH B D H) WH T H T (idx ! 0) (idx ! 1)),
                mk [D, H] (\<lambda>idx. \<Sum>t<T. \<Sum>n<N. X [n, t, idx ! 0] * rnn_dA_fn DH (rnn_h_fn X H0 WX WH B D H) WH T H t n (idx ! 1)),
                mk [H, H] (\<lambda>idx. \<Sum>t<T. \<Sum>n<N. rnn_h_fn X H0 WX WH B D H t n (idx ! 0) * rnn_dA_fn DH (rnn_h_fn X H0 WX WH B D H) WH T H t n (idx ! 1)),
                mk [H] (\<lambda>idx. \<Sum>t<T. \<Sum>n<N. rnn_dA_fn DH (rnn_h_fn X H0 WX WH B D H) WH T H t n (idx ! 0)))"
proof -
  let ?hs = "rnn_h_fn X H0 WX WH B D H"
  have z: "(np_zeros [N, T, D], np_zeros [N, H], np_zeros [D, H], np_zeros [H, H], np_zeros [H])
           = rnn_grads_part DH X ?hs WX WH N T D H 0"
    unfolding rnn_grads_part_def np_zeros_def prod.inject
    by (intro conjI mk_cong) (auto simp: valid_idx_3 rnn_dh0_fn.simps(1))
  have f: "rnn_grads_part DH X ?hs WX WH N T D H T = (mk [N, T, D] (\<lambda>idx. \<Sum>j<H. rnn_dA_fn DH (rnn_h_fn X H0 WX WH B D H) WH T H (idx ! 1) (idx ! 0) j * WX [idx ! 2, j]),
                mk [N, H] (\<lambda>idx. rnn_dh0_fn DH (rnn_h_fn X H0 WX WH B D H) WH T H T (idx ! 0) (idx ! 1)),
                mk [D, H] (\<lambda>idx. \<Sum>t<T. \<Sum>n<N. X [n, t, idx ! 0] * rnn_dA_fn DH (rnn_h_fn X H0 WX WH B D H) WH T H t n (idx ! 1)),
                mk [H, H] (\<lambda>idx. \<Sum>t<T. \<Sum>n<N. rnn_h_fn X H0 WX WH B D H t n (idx ! 0) * rnn_dA_fn DH (rnn_h_fn X H0 WX WH B D H) WH T H t n (idx ! 1)),
                mk [H] (\<lambda>idx. \<Sum>t<T. \<Sum>n<N. rnn_dA_fn DH (rnn_h_fn X H0 WX WH B D H) WH T H t n (idx ! 0)))"
    unfolding rnn_grads_part_def prod.inject
    by (intro conjI mk_cong) (auto simp: lessThan_atLeast0)
  show ?thesis
    unfolding rnn_backward_def prod.case shape_mk list.case z rnn_backward_loop [OF order_refl] f
    by (rule refl)
qed

lemma rnn_is_gradient_x:
  assumes T: "0 < T"
  shows "is_gradient (\<lambda>a. rnn_loss (mk [N, T, H] DH) a (mk [N, H] H0) (mk [D, H] WX) (mk [H, H] WH) (mk [H] B))
     (mk [N, T, D] X)
     (mk [N, T, D] (\<lambda>idx. \<Sum>j<H. rnn_dA_fn DH (rnn_h_fn X H0 WX WH B D H) WH T H (idx ! 1) (idx ! 0) j * WX [idx ! 2, j]))"
  unfolding is_gradient_def shape_mk
proof (intro conjI allI impI refl)
  fix idx assume v: "valid_idx [N, T, D] idx"
  then obtain n0 t0 d0 where i: "idx = [n0, t0, d0]" "n0 < N" "t0 < T" "d0 < D" by (auto simp: valid_idx_3)
  show "((\<lambda>t. rnn_loss (mk [N, T, H] DH) (set_elt (mk [N, T, D] X) idx t) (mk [N, H] H0) (mk [D, H] WX) (mk [H, H] WH) (mk [H] B))
         has_real_derivative
          elt (mk [N, T, D] (\<lambda>idx. \<Sum>j<H. rnn_dA_fn DH (rnn_h_fn X H0 WX WH B D H) WH T H (idx ! 1) (idx ! 0) j * WX [idx ! 2, j])) idx)
         (at (elt (mk [N, T, D] X) idx))"
    unfolding set_elt_mk [OF v] elt_mk [OF v]
    using rnn_grad_x [OF T i(2) i(3) i(4)] by (simp add: i(1))
qed

lemma rnn_is_gradient_h0:
  assumes T: "0 < T"
  shows "is_gradient (\<lambda>a. rnn_loss (mk [N, T, H] DH) (mk [N, T, D] X) a (mk [D, H] WX) (mk [H, H] WH) (mk [H] B))
     (mk [N, H] H0)
     (mk [N, H] (\<lambda>idx. rnn_dh0_fn DH (rnn_h_fn X H0 WX WH B D H) WH T H T (idx ! 0) (idx ! 1)))"
  unfolding is_gradient_def shape_mk
proof (intro conjI allI impI refl)
  fix idx assume v: "valid_idx [N, H] idx"
  then obtain n0 k0 where i: "idx = [n0, k0]" "n0 < N" "k0 < H" by (auto simp: valid_idx_2)
  show "((\<lambda>t. rnn_loss (mk [N, T, H] DH) (mk [N, T, D] X) (set_elt (mk [N, H] H0) idx t) (mk [D, H] WX) (mk [H, H] WH) (mk [H] B))
         has_real_derivative
          elt (mk [N, H] (\<lambda>idx. rnn_dh0_fn DH (rnn_h_fn X H0 WX WH B D H) WH T H T (idx ! 0) (idx ! 1))) idx)
         (at (elt (mk [N, H] H0) idx))"
    unfolding set_elt_mk [OF v] elt_mk [OF v]
    using rnn_grad_h0 [OF T i(2) i(3)] by (simp add: i(1))
qed

lemma rnn_is_gradient_Wx:
  assumes T: "0 < T"
  shows "is_gradient (\<lambda>a. rnn_loss (mk [N, T, H] DH) (mk [N, T, D] X) (mk [N, H] H0) a (mk [H, H] WH) (mk [H] B))
     (mk [D, H] WX)
     (mk [D, H] (\<lambda>idx. \<Sum>t<T. \<Sum>n<N. X [n, t, idx ! 0] * rnn_dA_fn DH (rnn_h_fn X H0 WX WH B D H) WH T H t n (idx ! 1)))"
  unfolding is_gradient_def shape_mk
proof (intro conjI allI impI refl)
  fix idx assume v: "valid_idx [D, H] idx"
  then obtain d0 j0 where i: "idx = [d0, j0]" "d0 < D" "j0 < H" by (auto simp: valid_idx_2)
  show "((\<lambda>t. rnn_loss (mk [N, T, H] DH) (mk [N, T, D] X) (mk [N, H] H0) (set_elt (mk [D, H] WX) idx t) (mk [H, H] WH) (mk [H] B))
         has_real_derivative
          elt (mk [D, H] (\<lambda>idx. \<Sum>t<T. \<Sum>n<N. X [n, t, idx ! 0] * rnn_dA_fn DH (rnn_h_fn X H0 WX WH B D H) WH T H t n (idx ! 1))) idx)
         (at (elt (mk [D, H] WX) idx))"
    unfolding set_elt_mk [OF v] elt_mk [OF v]
    using rnn_grad_Wx [OF T i(2) i(3)] by (simp add: i(1))
qed

lemma rnn_is_gradient_Wh:
  assumes T: "0 < T"
  shows "is_gradient (\<lambda>a. rnn_loss (mk [N, T, H] DH) (mk [N, T, D] X) (mk [N, H] H0) (mk [D, H] WX) a (mk [H] B))
     (mk [H, H] WH)
     (mk [H, H] (\<lambda>idx. \<Sum>t<T. \<Sum>n<N. rnn_h_fn X H0 WX WH B D H t n (idx ! 0) * rnn_dA_fn DH (rnn_h_fn X H0 WX WH B D H) WH T H t n (idx ! 1)))"
  unfolding is_gradient_def shape_mk
proof (intro conjI allI impI refl)
  fix idx assume v: "valid_idx [H, H] idx"
  then obtain k0 j0 where i: "idx = [k0, j0]" "k0 < H" "j0 < H" by (auto simp: valid_idx_2)
  show "((\<lambda>t. rnn_loss (mk [N, T, H] DH) (mk [N, T, D] X) (mk [N, H] H0) (mk [D, H] WX) (set_elt (mk [H, H] WH) idx t) (mk [H] B))
         has_real_derivative
          elt (mk [H, H] (\<lambda>idx. \<Sum>t<T. \<Sum>n<N. rnn_h_fn X H0 WX WH B D H t n (idx ! 0) * rnn_dA_fn DH (rnn_h_fn X H0 WX WH B D H) WH T H t n (idx ! 1))) idx)
         (at (elt (mk [H, H] WH) idx))"
    unfolding set_elt_mk [OF v] elt_mk [OF v]
    using rnn_grad_Wh [OF T i(2) i(3)] by (simp add: i(1))
qed

lemma rnn_is_gradient_b:
  assumes T: "0 < T"
  shows "is_gradient (\<lambda>a. rnn_loss (mk [N, T, H] DH) (mk [N, T, D] X) (mk [N, H] H0) (mk [D, H] WX) (mk [H, H] WH) a)
     (mk [H] B)
     (mk [H] (\<lambda>idx. \<Sum>t<T. \<Sum>n<N. rnn_dA_fn DH (rnn_h_fn X H0 WX WH B D H) WH T H t n (idx ! 0)))"
  unfolding is_gradient_def shape_mk
proof (intro conjI allI impI refl)
  fix idx assume v: "valid_idx [H] idx"
  then obtain j0 where i: "idx = [j0]" "j0 < H" by (auto simp: valid_idx_1)
  show "((\<lambda>t. rnn_loss (mk [N, T, H] DH) (mk [N, T, D] X) (mk [N, H] H0) (mk [D, H] WX) (mk [H, H] WH) (set_elt (mk [H] B) idx t))
         has_real_derivative
          elt (mk [H] (\<lambda>idx. \<Sum>t<T. \<Sum>n<N. rnn_dA_fn DH (rnn_h_fn X H0 WX WH B D H) WH T H t n (idx ! 0))) idx)
         (at (elt (mk [H] B) idx))"
    unfolding set_elt_mk [OF v] elt_mk [OF v]
    using rnn_grad_b [OF T i(2)] by (simp add: i(1))
qed

lemma rnn_h_recurrence:
  assumes "n < N" "j < H" "t < T"
  shows "elt (mk [N, T, H] (\<lambda>idx. rnn_h_fn X H0 WX WH B D H (Suc (idx ! 1)) (idx ! 0) (idx ! 2))) [n, t, j]
         = tanh ((\<Sum>d<D. X [n, t, d] * WX [d, j])
                 + (\<Sum>k<H. (if t = 0 then H0 [n, k]
                            else elt (mk [N, T, H] (\<lambda>idx. rnn_h_fn X H0 WX WH B D H (Suc (idx ! 1)) (idx ! 0)
                                       (idx ! 2))) [n, t - 1, k]) * WH [k, j])
                 + B [j])"
proof -
  have p: "\<And>k. k < H \<Longrightarrow>
      (if t = 0 then H0 [n, k]
       else elt (mk [N, T, H] (\<lambda>idx. rnn_h_fn X H0 WX WH B D H (Suc (idx ! 1)) (idx ! 0) (idx ! 2)))
              [n, t - 1, k])
      = rnn_h_fn X H0 WX WH B D H t n k"
  proof -
    fix k assume k: "k < H"
    show "(if t = 0 then H0 [n, k]
       else elt (mk [N, T, H] (\<lambda>idx. rnn_h_fn X H0 WX WH B D H (Suc (idx ! 1)) (idx ! 0) (idx ! 2)))
              [n, t - 1, k])
      = rnn_h_fn X H0 WX WH B D H t n k"
    proof (cases "t = 0")
      case True
      then show ?thesis by (simp add: rnn_h_fn.simps(1))
    next
      case False
      have v: "valid_idx [N, T, H] [n, t - 1, k]" using assms k by (simp add: valid_idx_3)
      show ?thesis unfolding elt_mk [OF v] using False by simp
    qed
  qed
  have v: "valid_idx [N, T, H] [n, t, j]" using assms by (simp add: valid_idx_3)
  have "(\<Sum>k<H. (if t = 0 then H0 [n, k]
                  else elt (mk [N, T, H] (\<lambda>idx. rnn_h_fn X H0 WX WH B D H (Suc (idx ! 1)) (idx ! 0)
                             (idx ! 2))) [n, t - 1, k]) * WH [k, j])
        = (\<Sum>k<H. rnn_h_fn X H0 WX WH B D H t n k * WH [k, j])"
    by (intro sum.cong refl) (simp only: p lessThan_iff)
  then show ?thesis
    unfolding elt_mk [OF v] by (simp add: rnn_h_fn.simps(2))
qed

section \<open>Claims\<close>

subsection \<open>C2: one step of the LSTM\<close>

text \<open>
  C2: for every \<open>x\<close> of shape \<open>(N, D)\<close>, \<open>prev_h\<close> and \<open>prev_c\<close> of shape \<open>(N, H)\<close>, \<open>Wx\<close> of
  shape \<open>(D, 4H)\<close>, \<open>Wh\<close> of shape \<open>(H, 4H)\<close> and \<open>b\<close> of shape \<open>(4H,)\<close>, \<open>lstm_step_forward\<close>
  returns \<open>next_c = f * prev_c + i * g\<close> and \<open>next_h = o * tanh(next_c)\<close>, where
  \<open>A = x.Wx + prev_h.Wh + b\<close>, \<open>i\<close>, \<open>f\<close>, \<open>o\<close> are the sigmoids of the first three blocks
  of \<open>H\<close> columns of \<open>A\<close> and \<open>g\<close> is the tanh of the fourth, together with the cache
  \<open>(x, prev_h, prev_c, Wx, Wh, b, next_h, next_c)\<close>; and for every \<open>dnext_h\<close> and \<open>dnext_c\<close>
  of shape \<open>(N, H)\<close>, \<open>lstm_step_backward\<close> on that cache returns
  \<open>(dx, dprev_h, dprev_c, dWx, dWh, db)\<close>, whose entries are the partial derivatives of
  \<open>sum(dnext_h * next_h) + sum(dnext_c * next_c)\<close> with respect to the entries of \<open>x\<close>,
  \<open>prev_h\<close>, \<open>prev_c\<close>, \<open>Wx\<close>, \<open>Wh\<close> and \<open>b\<close>.
\<close>

theorem lstm_step_forward_backward_correct:
  assumes "has_shape x [N, D]" and "has_shape prev_h [N, H]" and "has_shape prev_c [N, H]"
    and "has_shape Wx [D, 4 * H]" and "has_shape Wh [H, 4 * H]" and "has_shape b [4 * H]"
    and "has_shape dnext_h [N, H]" and "has_shape dnext_c [N, H]"
  shows "lstm_step_forward x prev_h prev_c Wx Wh b =
           Inr (mk [N, H] (\<lambda>idx. lstm_h_of (lstm_A_fn (elt x) (elt prev_h) (elt Wx) (elt Wh) (elt b) D H)
                                   (elt prev_c) H (idx ! 0) (idx ! 1)),
                mk [N, H] (\<lambda>idx. lstm_c_of (lstm_A_fn (elt x) (elt prev_h) (elt Wx) (elt Wh) (elt b) D H)
                                   (elt prev_c) H (idx ! 0) (idx ! 1)),
                (x, prev_h, prev_c, Wx, Wh, b,
                 mk [N, H] (\<lambda>idx. lstm_h_of (lstm_A_fn (elt x) (elt prev_h) (elt Wx) (elt Wh) (elt b) D H)
                                   (elt prev_c) H (idx ! 0) (idx ! 1)),
                 mk [N, H] (\<lambda>idx. lstm_c_of (lstm_A_fn (elt x) (elt prev_h) (elt Wx) (elt Wh) (elt b) D H)
                                   (elt prev_c) H (idx ! 0) (idx ! 1))))
         \<and> (case rbind (lstm_step_forward x prev_h prev_c Wx Wh b)
                   (\<lambda>(next_h, next_c, cache). lstm_step_backward dnext_h dnext_c cache) of
              Inl e \<Rightarrow> False
            | Inr (dx, dprev_h, dprev_c, dWx, dWh, db) \<Rightarrow>
                is_gradient (\<lambda>x'. lstm_loss dnext_h dnext_c x' prev_h prev_c Wx Wh b) x dx
                \<and> is_gradient (\<lambda>h'. lstm_loss dnext_h dnext_c x h' prev_c Wx Wh b) prev_h dprev_h
                \<and> is_gradient (\<lambda>c'. lstm_loss dnext_h dnext_c x prev_h c' Wx Wh b) prev_c dprev_c
                \<and> is_gradient (\<lambda>W'. lstm_loss dnext_h dnext_c x prev_h prev_c W' Wh b) Wx dWx
                \<and> is_gradient (\<lambda>W'. lstm_loss dnext_h dnext_c x prev_h prev_c Wx W' b) Wh dWh
                \<and> is_gradient (\<lambda>b'. lstm_loss dnext_h dnext_c x prev_h prev_c Wx Wh b') b db)"
proof -
  define X PH PC WX WH B DH DC where d: "X = elt x" "PH = elt prev_h" "PC = elt prev_c" "WX = elt Wx"
    "WH = elt Wh" "B = elt b" "DH = elt dnext_h" "DC = elt dnext_c"
  have m: "x = mk [N, D] X" "prev_h = mk [N, H] PH" "prev_c = mk [N, H] PC" "Wx = mk [D, 4 * H] WX"
    "Wh = mk [H, 4 * H] WH" "b = mk [4 * H] B" "dnext_h = mk [N, H] DH" "dnext_c = mk [N, H] DC"
    unfolding d using assms by (simp_all add: mk_elt)
  show ?thesis
    unfolding d [symmetric]
    unfolding m lstm_step_forward_mk rbind_Inr prod.case lstm_step_backward_mk sum.case
    by (intro conjI refl lstm_is_gradient_x lstm_is_gradient_prev_h lstm_is_gradient_prev_c
          lstm_is_gradient_Wx lstm_is_gradient_Wh lstm_is_gradient_b)
qed


theorem lstm_step_forward_backward_correct_witness:
  "has_shape \<lparr>shape = [1, 1], data = [0::real]\<rparr> [1, 1]
   \<and> has_shape \<lparr>shape = [1, 1], data = [2::real]\<rparr> [1, 1]
   \<and> has_shape \<lparr>shape = [1, 4], data = [0, 0, 0, 0::real]\<rparr> [1, 4 * 1]
   \<and> has_shape \<lparr>shape = [4], data = [0, 0, 0, 0::real]\<rparr> [4 * 1]
   \<and> has_shape \<lparr>shape = [1, 1], data = [1::real]\<rparr> [1, 1]
   \<and> lstm_step_forward \<lparr>shape = [1, 1], data = [0]\<rparr> \<lparr>shape = [1, 1], data = [0]\<rparr>
         \<lparr>shape = [1, 1], data = [2]\<rparr> \<lparr>shape = [1, 4], data = [0, 0, 0, 0]\<rparr>
         \<lparr>shape = [1, 4], data = [0, 0, 0, 0]\<rparr> \<lparr>shape = [4], data = [0, 0, 0, 0]\<rparr>
       = Inr (\<lparr>shape = [1, 1], data = [tanh 1 / 2]\<rparr>, \<lparr>shape = [1, 1], data = [1]\<rparr>,
              (\<lparr>shape = [1, 1], data = [0]\<rparr>, \<lparr>shape = [1, 1], data = [0]\<rparr>,
               \<lparr>shape = [1, 1], data = [2]\<rparr>, \<lparr>shape = [1, 4], data = [0, 0, 0, 0]\<rparr>,
               \<lparr>shape = [1, 4], data = [0, 0, 0, 0]\<rparr>, \<lparr>shape = [4], data = [0, 0, 0, 0]\<rparr>,
               \<lparr>shape = [1, 1], data = [tanh 1 / 2]\<rparr>, \<lparr>shape = [1, 1], data = [1]\<rparr>))"
proof -
  have h1: "has_shape \<lparr>shape = [1, 1], data = [0::real]\<rparr> [1, 1]"
    by (simp add: has_shape_def)
  have h2: "has_shape \<lparr>shape = [1, 1], data = [2::real]\<rparr> [1, 1]"
    by (simp add: has_shape_def)
  have h3: "has_shape \<lparr>shape = [1, 4], data = [0, 0, 0, 0::real]\<rparr> [1, 4 * 1]"
    by (simp add: has_shape_def)
  have h4: "has_shape \<lparr>shape = [4], data = [0, 0, 0, 0::real]\<rparr> [4 * 1]"
    by (simp add: has_shape_def)
  have h5: "has_shape \<lparr>shape = [1, 1], data = [1::real]\<rparr> [1, 1]"
    by (simp add: has_shape_def)
  note t = lstm_step_forward_backward_correct [OF h1 h1 h2 h3 h3 h4 h5 h5, THEN conjunct1]
  have "lstm_step_forward \<lparr>shape = [1, 1], data = [0]\<rparr> \<lparr>shape = [1, 1], data = [0]\<rparr>
         \<lparr>shape = [1, 1], data = [2]\<rparr> \<lparr>shape = [1, 4], data = [0, 0, 0, 0]\<rparr>
         \<lparr>shape = [1, 4], data = [0, 0, 0, 0]\<rparr> \<lparr>shape = [4], data = [0, 0, 0, 0]\<rparr>
       = Inr (\<lparr>shape = [1, 1], data = [tanh 1 / 2]\<rparr>, \<lparr>shape = [1, 1], data = [1]\<rparr>,
              (\<lparr>shape = [1, 1], data = [0]\<rparr>, \<lparr>shape = [1, 1], data = [0]\<rparr>,
               \<lparr>shape = [1, 1], data = [2]\<rparr>, \<lparr>shape = [1, 4], data = [0, 0, 0, 0]\<rparr>,
               \<lparr>shape = [1, 4], data = [0, 0, 0, 0]\<rparr>, \<lparr>shape = [4], data = [0, 0, 0, 0]\<rparr>,
               \<lparr>shape = [1, 1], data = [tanh 1 / 2]\<rparr>, \<lparr>shape = [1, 1], data = [1]\<rparr>))"
    unfolding t
    by (simp add: mk_def indices.simps elt_def lstm_h_of_def lstm_c_of_def lstm_A_fn_def sigmoid_elt_def)
  with h1 h2 h3 h4 h5 show ?thesis by (intro conjI)
qed

subsection \<open>C3: the vanilla RNN over a sequence\<close>

text \<open>
  C3: for every \<open>x\<close> of shape \<open>(N, T, D)\<close> with \<open>T \<ge> 1\<close>, \<open>h0\<close> of shape \<open>(N, H)\<close>, \<open>Wx\<close> of
  shape \<open>(D, H)\<close>, \<open>Wh\<close> of shape \<open>(H, H)\<close> and \<open>b\<close> of shape \<open>(H,)\<close>, \<open>rnn_forward\<close> returns
  \<open>h\<close> of shape \<open>(N, T, H)\<close> and the cache \<open>(x, h, Wx, Wh, b, h0)\<close>, where
  \<open>h[:, 0, :] = tanh(x[:, 0, :].Wx + h0.Wh + b)\<close> and
  \<open>h[:, t, :] = tanh(x[:, t, :].Wx + h[:, t-1, :].Wh + b)\<close> for \<open>1 \<le> t < T\<close>; and for every
  \<open>dh\<close> of shape \<open>(N, T, H)\<close>, \<open>rnn_backward\<close> on \<open>dh\<close> and that cache returns
  \<open>(dx, dh0, dWx, dWh, db)\<close>, whose entries are the partial derivatives of \<open>sum(dh * h)\<close>
  with respect to the entries of \<open>x\<close>, \<open>h0\<close>, \<open>Wx\<close>, \<open>Wh\<close> and \<open>b\<close>.
\<close>

theorem rnn_forward_backward_correct:
  assumes "0 < T" and "has_shape x [N, T, D]" and "has_shape h0 [N, H]" and "has_shape Wx [D, H]"
    and "has_shape Wh [H, H]" and "has_shape b [H]" and "has_shape dh [N, T, H]"
  shows "rnn_forward x h0 Wx Wh b =
           Inr (mk [N, T, H] (\<lambda>idx. rnn_h_fn (elt x) (elt h0) (elt Wx) (elt Wh) (elt b) D H (Suc (idx ! 1)) (idx ! 0) (idx ! 2)),
                (x, mk [N, T, H] (\<lambda>idx. rnn_h_fn (elt x) (elt h0) (elt Wx) (elt Wh) (elt b) D H (Suc (idx ! 1)) (idx ! 0) (idx ! 2)),
                 Wx, Wh, b, h0))
         \<and> (\<forall>n<N. \<forall>t<T. \<forall>j<H.
               elt (mk [N, T, H] (\<lambda>idx. rnn_h_fn (elt x) (elt h0) (elt Wx) (elt Wh) (elt b) D H (Suc (idx ! 1)) (idx ! 0) (idx ! 2))) [n, t, j]
               = tanh ((\<Sum>d<D. elt x [n, t, d] * elt Wx [d, j])
                       + (\<Sum>k<H. (if t = 0 then elt h0 [n, k]
                                  else elt (mk [N, T, H] (\<lambda>idx. rnn_h_fn (elt x) (elt h0) (elt Wx) (elt Wh) (elt b) D H (Suc (idx ! 1)) (idx ! 0) (idx ! 2))) [n, t - 1, k]) * elt Wh [k, j])
                       + elt b [j]))
         \<and> (case rbind (rnn_forward x h0 Wx Wh b) (\<lambda>(h, cache). rnn_backward dh cache) of
              Inl e \<Rightarrow> False
            | Inr (dx, dh0, dWx, dWh, db) \<Rightarrow>
                is_gradient (\<lambda>a. rnn_loss dh a h0 Wx Wh b) x dx
                \<and> is_gradient (\<lambda>a. rnn_loss dh x a Wx Wh b) h0 dh0
                \<and> is_gradient (\<lambda>a. rnn_loss dh x h0 a Wh b) Wx dWx
                \<and> is_gradient (\<lambda>a. rnn_loss dh x h0 Wx a b) Wh dWh
                \<and> is_gradient (\<lambda>a. rnn_loss dh x h0 Wx Wh a) b db)"
proof -
  define X H0 WX WH B DH where d: "X = elt x" "H0 = elt h0" "WX = elt Wx" "WH = elt Wh" "B = elt b"
    "DH = elt dh"
  have m: "x = mk [N, T, D] X" "h0 = mk [N, H] H0" "Wx = mk [D, H] WX" "Wh = mk [H, H] WH"
    "b = mk [H] B" "dh = mk [N, T, H] DH"
    unfolding d using assms by (simp_all add: mk_elt)
  have r: "\<forall>n<N. \<forall>t<T. \<forall>j<H.
      elt (mk [N, T, H] (\<lambda>idx. rnn_h_fn X H0 WX WH B D H (Suc (idx ! 1)) (idx ! 0) (idx ! 2))) [n, t, j]
      = tanh ((\<Sum>d<D. X [n, t, d] * WX [d, j])
              + (\<Sum>k<H. (if t = 0 then H0 [n, k]
                         else elt (mk [N, T, H] (\<lambda>idx. rnn_h_fn X H0 WX WH B D H (Suc (idx ! 1)) (idx ! 0)
                                    (idx ! 2))) [n, t - 1, k]) * WH [k, j])
              + B [j])"
    by (intro allI impI rnn_h_recurrence)
  show ?thesis
    unfolding d [symmetric]
    unfolding m rnn_forward_mk [OF assms(1)] rbind_Inr prod.case rnn_backward_mk sum.case
    by (intro conjI refl r rnn_is_gradient_x rnn_is_gradient_h0 rnn_is_gradient_Wx rnn_is_gradient_Wh
          rnn_is_gradient_b assms(1))
qed


theorem rnn_forward_backward_correct_witness:
  "(0::nat) < 2
   \<and> has_shape \<lparr>shape = [1, 2, 1], data = [0, 0::real]\<rparr> [1, 2, 1]
   \<and> has_shape \<lparr>shape = [1, 1], data = [0::real]\<rparr> [1, 1]
   \<and> has_shape \<lparr>shape = [1, 1], data = [1::real]\<rparr> [1, 1]
   \<and> has_shape \<lparr>shape = [1], data = [1::real]\<rparr> [1]
   \<and> has_shape \<lparr>shape = [1, 2, 1], data = [1, 1::real]\<rparr> [1, 2, 1]
   \<and> rnn_forward \<lparr>shape = [1, 2, 1], data = [0, 0]\<rparr> \<lparr>shape = [1, 1], data = [0]\<rparr>
         \<lparr>shape = [1, 1], data = [1]\<rparr> \<lparr>shape = [1, 1], data = [1]\<rparr> \<lparr>shape = [1], data = [1]\<rparr>
       = Inr (\<lparr>shape = [1, 2, 1], data = [tanh 1, tanh (tanh 1 + 1)]\<rparr>,
              (\<lparr>shape = [1, 2, 1], data = [0, 0]\<rparr>,
               \<lparr>shape = [1, 2, 1], data = [tanh 1, tanh (tanh 1 + 1)]\<rparr>,
               \<lparr>shape = [1, 1], data = [1]\<rparr>, \<lparr>shape = [1, 1], data = [1]\<rparr>,
               \<lparr>shape = [1], data = [1]\<rparr>, \<lparr>shape = [1, 1], data = [0]\<rparr>))"
proof -
  have h1: "(0::nat) < 2" by simp
  have h2: "has_shape \<lparr>shape = [1, 2, 1], data = [0, 0::real]\<rparr> [1, 2, 1]"
    by (simp add: has_shape_def)
  have h3: "has_shape \<lparr>shape = [1, 1], data = [0::real]\<rparr> [1, 1]"
    by (simp add: has_shape_def)
  have h4: "has_shape \<lparr>shape = [1, 1], data = [1::real]\<rparr> [1, 1]"
    by (simp add: has_shape_def)
  have h5: "has_shape \<lparr>shape = [1], data = [1::real]\<rparr> [1]"
    by (simp add: has_shape_def)
  have h6: "has_shape \<lparr>shape = [1, 2, 1], data = [1, 1::real]\<rparr> [1, 2, 1]"
    by (simp add: has_shape_def)
  note t = rnn_forward_backward_correct [OF h1 h2 h3 h4 h4 h5 h6, THEN conjunct1]
  have "rnn_forward \<lparr>shape = [1, 2, 1], data = [0, 0]\<rparr> \<lparr>shape = [1, 1], data = [0]\<rparr>
         \<lparr>shape = [1, 1], data = [1]\<rparr> \<lparr>shape = [1, 1], data = [1]\<rparr> \<lparr>shape = [1], data = [1]\<rparr>
       = Inr (\<lparr>shape = [1, 2, 1], data = [tanh 1, tanh (tanh 1 + 1)]\<rparr>,
              (\<lparr>shape = [1, 2, 1], data = [0, 0]\<rparr>,
               \<lparr>shape = [1, 2, 1], data = [tanh 1, tanh (tanh 1 + 1)]\<rparr>,
               \<lparr>shape = [1, 1], data = [1]\<rparr>, \<lparr>shape = [1, 1], data = [1]\<rparr>,
               \<lparr>shape = [1], data = [1]\<rparr>, \<lparr>shape = [1, 1], data = [0]\<rparr>))"
    unfolding t
    by (simp add: mk_def indices.simps elt_def rnn_h_fn.simps upt_2)
  with h1 h2 h3 h4 h5 h6 show ?thesis by (intro conjI)
qed

subsection \<open>C4: the affine layer\<close>

text \<open>
  Against C4 as stated: for an empty batch (\<open>N = 0\<close>), \<open>x.reshape(0, -1)\<close> cannot infer
  the second extent and \<open>affine_forward\<close> raises ValueError.
\<close>

theorem affine_forward_empty_batch_counterexample:
  "affine_forward \<lparr>shape = [0, 1], data = []\<rparr> \<lparr>shape = [1, 1], data = [1]\<rparr> \<lparr>shape = [1], data = [0]\<rparr>
     = Inl ValueError"
  by (simp add: affine_forward_def reshape_infer_def)

text \<open>
  C4, amended: for every \<open>x\<close> of shape \<open>(N, d\<^sub>1, \<dots>, d\<^sub>k)\<close> with \<open>N \<ge> 1\<close>, \<open>w\<close> of shape
  \<open>(D, M)\<close> with \<open>D = d\<^sub>1 * \<dots> * d\<^sub>k\<close> and \<open>b\<close> of shape \<open>(M,)\<close>, \<open>affine_forward\<close> returns
  \<open>out = reshape(x, (N, D)).w + b\<close> of shape \<open>(N, M)\<close> and the cache \<open>(x, w, b)\<close>; and for
  every \<open>dout\<close> of shape \<open>(N, M)\<close>, \<open>affine_backward\<close> returns \<open>dx = dout.w\<^sup>T\<close> in the shape
  of \<open>x\<close>, \<open>dw = reshape(x, (N, D))\<^sup>T.dout\<close> and \<open>db\<close> the column sums of \<open>dout\<close>, which are
  the partial derivatives of \<open>sum(dout * out)\<close> with respect to every entry of \<open>x\<close>, \<open>w\<close>
  and \<open>b\<close>.
\<close>

theorem affine_forward_backward_correct:
  assumes "0 < N" and "has_shape x (N # ds)" and "has_shape w [prod_list ds, M]"
    and "has_shape b [M]" and "has_shape dout [N, M]"
  shows "affine_forward x w b =
           Inr (mk [N, M] (\<lambda>idx. (\<Sum>j \<leftarrow> [0..<prod_list ds].
                    elt \<lparr>shape = [N, prod_list ds], data = data x\<rparr> [idx ! 0, j] * elt w [j, idx ! 1])
                  + elt b [idx ! 1]),
                (x, w, b))
         \<and> (case affine_backward dout (x, w, b) of
              Inl e \<Rightarrow> False
            | Inr (dx, dw, db) \<Rightarrow>
                dx = \<lparr>shape = shape x,
                      data = data (mk [N, prod_list ds]
                        (\<lambda>i. \<Sum>m \<leftarrow> [0..<M]. elt dout [i ! 0, m] * elt (np_T w) [m, i ! 1]))\<rparr>
                \<and> dw = mk [prod_list ds, M] (\<lambda>i. \<Sum>n \<leftarrow> [0..<N].
                      elt (np_T \<lparr>shape = [N, prod_list ds], data = data x\<rparr>) [i ! 0, n] * elt dout [n, i ! 1])
                \<and> db = mk [M] (\<lambda>i. \<Sum>n \<leftarrow> [0..<N]. elt dout [n, i ! 0])
                \<and> is_gradient (\<lambda>x'. affine_loss dout x' w b) x dx
                \<and> is_gradient (\<lambda>w'. affine_loss dout x w' b) w dw
                \<and> is_gradient (\<lambda>b'. affine_loss dout x w b') b db)"
proof -
  note a = assms
  let ?dx = "\<lparr>shape = N # ds,
                 data = data (mk [N, prod_list ds]
                   (\<lambda>i. \<Sum>m \<leftarrow> [0..<M]. elt dout [i ! 0, m] * elt (np_T w) [m, i ! 1]))\<rparr>"
  let ?dw = "mk [prod_list ds, M] (\<lambda>i. \<Sum>n \<leftarrow> [0..<N].
                  elt (np_T \<lparr>shape = [N, prod_list ds], data = data x\<rparr>) [i ! 0, n] * elt dout [n, i ! 1])"
  let ?db = "mk [M] (\<lambda>i. \<Sum>n \<leftarrow> [0..<N]. elt dout (n # i))"
  have gx: "is_gradient (\<lambda>x'. affine_loss dout x' w b) x ?dx"
    unfolding is_gradient_def
    using affine_dx [OF a] has_shapeD(1) [OF a(2)] by (simp add: elt_def)
  have gw: "is_gradient (\<lambda>w'. affine_loss dout x w' b) w ?dw"
    unfolding is_gradient_def
    using affine_dw [OF a] has_shapeD(1) [OF a(3)] by simp
  have gb: "is_gradient (\<lambda>b'. affine_loss dout x w b') b ?db"
    unfolding is_gradient_def
    using affine_db [OF a] has_shapeD(1) [OF a(4)] by simp
  have db: "?db = mk [M] (\<lambda>i. \<Sum>n \<leftarrow> [0..<N]. elt dout [n, i ! 0])"
    by (rule mk_cong) (auto simp: valid_idx_1)
  show ?thesis
    using gx gw gb db has_shapeD(1) [OF a(2)]
    by (simp add: affine_forward_eq [OF a(1-4)] affine_backward_eq [OF a(1-3) a(5)])
qed


theorem affine_forward_backward_correct_witness:
  "(0::nat) < 2
   \<and> has_shape \<lparr>shape = [2, 1, 2], data = [1, 2, 3, 4::real]\<rparr> [2, 1, 2]
   \<and> has_shape \<lparr>shape = [2, 1], data = [10, 100::real]\<rparr> [prod_list [1, 2], 1]
   \<and> has_shape \<lparr>shape = [1], data = [5::real]\<rparr> [1]
   \<and> has_shape \<lparr>shape = [2, 1], data = [1, 2::real]\<rparr> [2, 1]
   \<and> affine_forward \<lparr>shape = [2, 1, 2], data = [1, 2, 3, 4]\<rparr> \<lparr>shape = [2, 1], data = [10, 100]\<rparr>
         \<lparr>shape = [1], data = [5]\<rparr>
       = Inr (\<lparr>shape = [2, 1], data = [215, 435]\<rparr>,
              (\<lparr>shape = [2, 1, 2], data = [1, 2, 3, 4]\<rparr>, \<lparr>shape = [2, 1], data = [10, 100]\<rparr>,
               \<lparr>shape = [1], data = [5]\<rparr>))"
proof -
  have h1: "(0::nat) < 2" by simp
  have h2: "has_shape \<lparr>shape = [2, 1, 2], data = [1, 2, 3, 4::real]\<rparr> [2, 1, 2]"
    by (simp add: has_shape_def)
  have h3: "has_shape \<lparr>shape = [2, 1], data = [10, 100::real]\<rparr> [prod_list [1, 2], 1]"
    by (simp add: has_shape_def)
  have h4: "has_shape \<lparr>shape = [1], data = [5::real]\<rparr> [1]"
    by (simp add: has_shape_def)
  have h5: "has_shape \<lparr>shape = [2, 1], data = [1, 2::real]\<rparr> [2, 1]"
    by (simp add: has_shape_def)
  note t = affine_forward_backward_correct [OF h1 h2 h3 h4 h5, THEN conjunct1]
  have "affine_forward \<lparr>shape = [2, 1, 2], data = [1, 2, 3, 4]\<rparr> \<lparr>shape = [2, 1], data = [10, 100]\<rparr>
         \<lparr>shape = [1], data = [5]\<rparr>
       = Inr (\<lparr>shape = [2, 1], data = [215, 435]\<rparr>,
              (\<lparr>shape = [2, 1, 2], data = [1, 2, 3, 4]\<rparr>, \<lparr>shape = [2, 1], data = [10, 100]\<rparr>,
               \<lparr>shape = [1], data = [5]\<rparr>))"
    unfolding t by (simp add: mk_def indices.simps elt_def upt_2)
  with h1 h2 h3 h4 h5 show ?thesis by (intro conjI)
qed

subsection \<open>C5: the layer functions and their arguments\<close>

text \<open>
  Against C5 as stated: \<open>batchnorm_forward\<close> changes its argument \<open>bn_param\<close>. Called in
  train mode on the batch \<open>[[1], [3]]\<close> with running statistics \<open>[0]\<close>, it leaves
  \<open>bn_param['running_mean'] = [[0.2]]\<close> and \<open>bn_param['running_var'] = [[0.1]]\<close>.
\<close>

theorem batchnorm_forward_mutates_bn_param_counterexample:
  "(case batchnorm_forward \<lparr>shape = [2, 1], data = [1, 3]\<rparr> \<lparr>shape = [1], data = [1]\<rparr>
           \<lparr>shape = [1], data = [0]\<rparr>
           \<lparr>bn_mode = Some ''train'', bn_eps = None, bn_momentum = None,
            bn_running_mean = Some \<lparr>shape = [1], data = [0]\<rparr>,
            bn_running_var = Some \<lparr>shape = [1], data = [0]\<rparr>\<rparr> of
      Inl e \<Rightarrow> None
    | Inr (out, cache, bn') \<Rightarrow> Some (bn_running_mean bn', bn_running_var bn'))
   = Some (Some \<lparr>shape = [1, 1], data = [1 / 5]\<rparr>, Some \<lparr>shape = [1, 1], data = [1 / 10]\<rparr>)"
  by (simp add: batchnorm_forward_def np_add_def np_sub_def np_mul_def np_div_def ufunc2_def
      reshape_infer_1 scale_def np_mean0_keepdims_def np_std0_keepdims_def mk_def indices.simps elt_def
      bidx_def ufunc1_def upt_2)

text \<open>
  C5, amended: the functions that receive \<open>bn_param\<close>, \<open>batchnorm_forward\<close> and
  \<open>spatial_batchnorm_forward\<close> (which passes its dictionary on to the former), assign
  \<open>bn_param['running_mean']\<close> and \<open>bn_param['running_var']\<close>, so that both exist after
  every call that returns, and leave the entries \<open>mode\<close>, \<open>eps\<close> and \<open>momentum\<close> as they
  were; in test mode with both running statistics present the dictionary holds the same
  contents after the call as before it.
\<close>

theorem batchnorm_forward_writes_running_stats_only:
  assumes "batchnorm_forward x gamma beta bn = Inr (out, cache, bn')"
    and "spatial_batchnorm_forward xs gammas betas bns = Inr (outs, caches, bns')"
  shows "bn_mode bn' = bn_mode bn \<and> bn_eps bn' = bn_eps bn \<and> bn_momentum bn' = bn_momentum bn
         \<and> bn_running_mean bn' \<noteq> None \<and> bn_running_var bn' \<noteq> None
         \<and> (bn_mode bn = Some ''test'' \<and> bn_running_mean bn \<noteq> None \<and> bn_running_var bn \<noteq> None
              \<longrightarrow> bn' = bn)
         \<and> bn_mode bns' = bn_mode bns \<and> bn_eps bns' = bn_eps bns \<and> bn_momentum bns' = bn_momentum bns
         \<and> bn_running_mean bns' \<noteq> None \<and> bn_running_var bns' \<noteq> None
         \<and> (bn_mode bns = Some ''test'' \<and> bn_running_mean bns \<noteq> None \<and> bn_running_var bns \<noteq> None
              \<longrightarrow> bns' = bns)"
proof -
  from spatial_batchnorm_forward_inner [OF assms(2)] obtain x1 out1 where
    i: "batchnorm_forward x1 gammas betas bns = Inr (out1, caches, bns')"
    by blast
  from batchnorm_forward_bn_param [OF assms(1)] batchnorm_forward_bn_param [OF i]
  show ?thesis by (intro conjI) (elim conjE, assumption)+
qed

theorem batchnorm_forward_writes_running_stats_only_witness:
  "batchnorm_forward \<lparr>shape = [2, 1], data = [1, 3]\<rparr> \<lparr>shape = [1], data = [1]\<rparr>
       \<lparr>shape = [1], data = [0]\<rparr>
       \<lparr>bn_mode = Some ''test'', bn_eps = Some 1, bn_momentum = None,
        bn_running_mean = None, bn_running_var = None\<rparr>
     = Inr (\<lparr>shape = [2, 1], data = [1, 3]\<rparr>,
            \<lparr>cache_x = \<lparr>shape = [2, 1], data = [1, 3]\<rparr>, cache_std = None, cache_mean = None,
             cache_beta = \<lparr>shape = [1], data = [0]\<rparr>, cache_gamma = \<lparr>shape = [1], data = [1]\<rparr>\<rparr>,
            \<lparr>bn_mode = Some ''test'', bn_eps = Some 1, bn_momentum = None,
             bn_running_mean = Some \<lparr>shape = [1], data = [0]\<rparr>,
             bn_running_var = Some \<lparr>shape = [1], data = [0]\<rparr>\<rparr>)
   \<and> spatial_batchnorm_forward \<lparr>shape = [1, 1, 1, 2], data = [1, 3]\<rparr> \<lparr>shape = [1], data = [1]\<rparr>
       \<lparr>shape = [1], data = [0]\<rparr>
       \<lparr>bn_mode = Some ''test'', bn_eps = Some 1, bn_momentum = None,
        bn_running_mean = None, bn_running_var = None\<rparr>
     = Inr (\<lparr>shape = [1, 1, 1, 2], data = [1, 3]\<rparr>,
            \<lparr>cache_x = \<lparr>shape = [2, 1], data = [1, 3]\<rparr>, cache_std = None, cache_mean = None,
             cache_beta = \<lparr>shape = [1], data = [0]\<rparr>, cache_gamma = \<lparr>shape = [1], data = [1]\<rparr>\<rparr>,
            \<lparr>bn_mode = Some ''test'', bn_eps = Some 1, bn_momentum = None,
             bn_running_mean = Some \<lparr>shape = [1], data = [0]\<rparr>,
             bn_running_var = Some \<lparr>shape = [1], data = [0]\<rparr>\<rparr>)
   \<and> bn_running_mean \<lparr>bn_mode = Some ''test'', bn_eps = Some 1, bn_momentum = None,
             bn_running_mean = Some \<lparr>shape = [1], data = [0::real]\<rparr>,
             bn_running_var = Some \<lparr>shape = [1], data = [0::real]\<rparr>\<rparr> \<noteq> None"
proof -
  let ?bn = "\<lparr>bn_mode = Some ''test'', bn_eps = Some 1, bn_momentum = None,
        bn_running_mean = None, bn_running_var = None\<rparr>"
  let ?bn' = "\<lparr>bn_mode = Some ''test'', bn_eps = Some 1, bn_momentum = None,
             bn_running_mean = Some \<lparr>shape = [1], data = [0::real]\<rparr>,
             bn_running_var = Some \<lparr>shape = [1], data = [0::real]\<rparr>\<rparr>"
  let ?cache = "\<lparr>cache_x = \<lparr>shape = [2, 1], data = [1, 3]\<rparr>, cache_std = None, cache_mean = None,
             cache_beta = \<lparr>shape = [1], data = [0]\<rparr>, cache_gamma = \<lparr>shape = [1], data = [1::real]\<rparr>\<rparr>"
  have h1: "batchnorm_forward \<lparr>shape = [2, 1], data = [1, 3]\<rparr> \<lparr>shape = [1], data = [1]\<rparr>
       \<lparr>shape = [1], data = [0]\<rparr> ?bn
     = Inr (\<lparr>shape = [2, 1], data = [1, 3]\<rparr>, ?cache, ?bn')"
    by (simp add: batchnorm_forward_def np_add_def np_sub_def np_mul_def np_div_def ufunc2_def
        np_zeros_def mk_def indices.simps elt_def bidx_def ufunc1_def upt_2 Let_def)
  have t1: "np_transpose \<lparr>shape = [1, 1, 1, 2], data = [1, 3]\<rparr> [0, 2, 3, 1]
            = Inr \<lparr>shape = [1, 1, 2, 1], data = [1, 3]\<rparr>"
    by (simp add: np_transpose_def mk_def indices.simps elt_def upt_2 upt_rec [of 0] upt_rec [of 1]
        upt_rec [of 2] upt_rec [of 3] upt_rec [of "Suc 0"])
  have t2: "np_transpose \<lparr>shape = [1, 1, 2, 1], data = [1, 3]\<rparr> [0, 3, 1, 2]
            = Inr \<lparr>shape = [1, 1, 1, 2], data = [1, 3]\<rparr>"
    by (simp add: np_transpose_def mk_def indices.simps elt_def upt_2 upt_rec [of 0] upt_rec [of 1]
        upt_rec [of 2] upt_rec [of 3] upt_rec [of "Suc 0"])
  have r1: "reshape_infer_first 1 \<lparr>shape = [1, 1, 2, 1], data = [1, 3]\<rparr>
            = Inr \<lparr>shape = [2, 1], data = [1, 3]\<rparr>"
    by (simp add: reshape_infer_first_def)
  have r2: "reshape \<lparr>shape = [2, 1], data = [1, 3]\<rparr> [1, 1, 2, 1]
            = Inr \<lparr>shape = [1, 1, 2, 1], data = [1, 3]\<rparr>"
    by (simp add: reshape_def)
  have h2: "spatial_batchnorm_forward \<lparr>shape = [1, 1, 1, 2], data = [1, 3]\<rparr> \<lparr>shape = [1], data = [1]\<rparr>
       \<lparr>shape = [1], data = [0]\<rparr> ?bn
     = Inr (\<lparr>shape = [1, 1, 1, 2], data = [1, 3]\<rparr>, ?cache, ?bn')"
    unfolding spatial_batchnorm_forward_def ndarray.select_convs list.case t1 rbind_Inr r1 h1 prod.case
      r2 t2
    by (rule refl)
  from batchnorm_forward_writes_running_stats_only [OF h1 h2]
  have "bn_running_mean ?bn' \<noteq> None" by (elim conjE)
  with h1 h2 show ?thesis by (intro conjI)
qed

subsection \<open>C6: determinism\<close>

text \<open>
  Against C6 as stated: in train mode without a seed, \<open>dropout_forward\<close> called twice on
  the same arguments returns \<open>[0]\<close> from one state of the global generator and \<open>[2]\<close>
  from another, and \<open>ThreeLayerConvNet.__init__\<close> returns different weights \<open>W1\<close>.
\<close>

theorem dropout_forward_unseeded_counterexample:
  "map_sum id fst (fst (dropout_forward stream_random \<lparr>shape = [1], data = [1]\<rparr>
       \<lparr>dp_p = Some (1 / 2), dp_mode = Some ''train'', dp_seed = None\<rparr> (\<lambda>n. 1 / 4)))
     = Inr \<lparr>shape = [1], data = [0]\<rparr>
   \<and> map_sum id fst (fst (dropout_forward stream_random \<lparr>shape = [1], data = [1]\<rparr>
       \<lparr>dp_p = Some (1 / 2), dp_mode = Some ''train'', dp_seed = None\<rparr> (\<lambda>n. 3 / 4)))
     = Inr \<lparr>shape = [1], data = [2]\<rparr>
   \<and> map_option data (params (fst (ThreeLayerConvNet_init stream_random (1, 2, 2) 1 1 100 10 1 0
          (\<lambda>v. v) (\<lambda>n. 0))) ''W1'') = Some [0]
   \<and> map_option data (params (fst (ThreeLayerConvNet_init stream_random (1, 2, 2) 1 1 100 10 1 0
          (\<lambda>v. v) (\<lambda>n. 1))) ''W1'') = Some [1]"
  by (simp add: init_W1 dropout_forward_def np_random_rand_def np_random_randn_def stream_random_def
      ufunc1_def np_mul_def ufunc2_def mk_def indices.simps elt_def bidx_def astype_def scale_def)

text \<open>
  C6, amended: when \<open>dropout_param\<close> holds a seed, or the mode is not \<open>train\<close>, the result
  of \<open>dropout_forward\<close> does not depend on the state of the global generator; the shapes
  of all parameters created by \<open>ThreeLayerConvNet.__init__\<close>, and its biases \<open>b1\<close>, \<open>b2\<close>
  and \<open>b3\<close>, do not depend on it either.
\<close>

theorem dropout_forward_deterministic_when_seeded:
  assumes "dp_seed dp \<noteq> None \<or> dp_mode dp \<noteq> Some ''train''"
  shows "fst (dropout_forward R x dp g) = fst (dropout_forward R x dp g')
         \<and> (\<forall>k. map_option shape (params (fst (ThreeLayerConvNet_init R (C, H, W) F HH hdim ncls ws rg dt g)) k)
                = map_option shape (params (fst (ThreeLayerConvNet_init R (C, H, W) F HH hdim ncls ws rg dt g')) k))
         \<and> (\<forall>k \<in> {''b1'', ''b2'', ''b3''}.
               params (fst (ThreeLayerConvNet_init R (C, H, W) F HH hdim ncls ws rg dt g)) k
                = params (fst (ThreeLayerConvNet_init R (C, H, W) F HH hdim ncls ws rg dt g')) k)"
proof -
  have a: "fst (dropout_forward R x dp g) = fst (dropout_forward R x dp g')"
    by (rule dropout_forward_state_independent [OF assms])
  have b: "\<forall>k. map_option shape (params (fst (ThreeLayerConvNet_init R (C, H, W) F HH hdim ncls ws rg dt g)) k)
                = map_option shape (params (fst (ThreeLayerConvNet_init R (C, H, W) F HH hdim ncls ws rg dt g')) k)"
    by (intro allI init_shapes)
  have c: "\<forall>k \<in> {''b1'', ''b2'', ''b3''}.
               params (fst (ThreeLayerConvNet_init R (C, H, W) F HH hdim ncls ws rg dt g)) k
                = params (fst (ThreeLayerConvNet_init R (C, H, W) F HH hdim ncls ws rg dt g')) k"
    by (simp add: init_biases)
  from a b c show ?thesis by (intro conjI)
qed

theorem dropout_forward_deterministic_when_seeded_witness:
  "dp_seed \<lparr>dp_p = Some (1 / 2), dp_mode = Some ''train'', dp_seed = Some 7\<rparr> \<noteq> None
   \<and> fst (dropout_forward stream_random \<lparr>shape = [1], data = [1]\<rparr>
       \<lparr>dp_p = Some (1 / 2), dp_mode = Some ''train'', dp_seed = Some 7\<rparr> (\<lambda>n. 1 / 4))
     = fst (dropout_forward stream_random \<lparr>shape = [1], data = [1]\<rparr>
       \<lparr>dp_p = Some (1 / 2), dp_mode = Some ''train'', dp_seed = Some 7\<rparr> (\<lambda>n. 3 / 4))"
proof -
  let ?dp = "\<lparr>dp_p = Some (1 / 2), dp_mode = Some ''train'', dp_seed = Some 7\<rparr>"
  have h: "dp_seed ?dp \<noteq> None \<or> dp_mode ?dp \<noteq> Some ''train''" by simp
  from dropout_forward_deterministic_when_seeded [OF h, where R = stream_random
      and x = "\<lparr>shape = [1], data = [1]\<rparr>" and g = "\<lambda>n. 1 / 4" and g' = "\<lambda>n. 3 / 4", THEN conjunct1]
  have "fst (dropout_forward stream_random \<lparr>shape = [1], data = [1]\<rparr> ?dp (\<lambda>n. 1 / 4))
     = fst (dropout_forward stream_random \<lparr>shape = [1], data = [1]\<rparr> ?dp (\<lambda>n. 3 / 4))" .
  then show ?thesis by simp
qed

subsection \<open>C7: exceptions\<close>

text \<open>
  Against C7 as stated: \<open>batchnorm_forward\<close> raises ValueError for the mode \<open>eval\<close>.
\<close>

theorem batchnorm_forward_invalid_mode_counterexample:
  "batchnorm_forward \<lparr>shape = [2, 1], data = [1, 3]\<rparr> \<lparr>shape = [1], data = [1]\<rparr>
       \<lparr>shape = [1], data = [0]\<rparr>
       \<lparr>bn_mode = Some ''eval'', bn_eps = None, bn_momentum = None,
        bn_running_mean = None, bn_running_var = None\<rparr>
     = Inl ValueError"
  by (simp add: batchnorm_forward_def)

text \<open>
  C7, amended: for \<open>x\<close> of shape \<open>(N, D)\<close>, \<open>gamma\<close> and \<open>beta\<close> of shape \<open>(D,)\<close> and
  running statistics absent or of shape \<open>(D,)\<close> or \<open>(1, D)\<close>, \<open>batchnorm_forward\<close> returns
  normally exactly when \<open>bn_param['mode']\<close> is \<open>train\<close> or \<open>test\<close>; for every other mode it
  raises ValueError.
\<close>

theorem batchnorm_forward_returns_iff_mode:
  assumes "shape x = [N, D]" and "has_shape gamma [D]" and "has_shape beta [D]"
    and "bn_mode bn = Some m"
    and "running_ok D (bn_running_mean bn)" and "running_ok D (bn_running_var bn)"
  shows "returns (batchnorm_forward x gamma beta bn) = (m = ''train'' \<or> m = ''test'')
         \<and> (m \<noteq> ''train'' \<and> m \<noteq> ''test'' \<longrightarrow> batchnorm_forward x gamma beta bn = Inl ValueError)"
proof (cases "m = ''train'' \<or> m = ''test''")
  case True
  then have "returns (batchnorm_forward x gamma beta bn)"
    using assms batchnorm_forward_train_returns batchnorm_forward_test_returns by blast
  with True show ?thesis by auto
next
  case False
  then have "batchnorm_forward x gamma beta bn = Inl ValueError"
    using assms(4) batchnorm_forward_invalid_mode by simp
  with False show ?thesis by simp
qed

theorem batchnorm_forward_returns_iff_mode_witness:
  "shape \<lparr>shape = [2, 1], data = [1, 3::real]\<rparr> = [2, 1]
   \<and> has_shape \<lparr>shape = [1], data = [1::real]\<rparr> [1]
   \<and> has_shape \<lparr>shape = [1], data = [0::real]\<rparr> [1]
   \<and> returns (batchnorm_forward \<lparr>shape = [2, 1], data = [1, 3]\<rparr> \<lparr>shape = [1], data = [1]\<rparr>
       \<lparr>shape = [1], data = [0]\<rparr>
       \<lparr>bn_mode = Some ''train'', bn_eps = None, bn_momentum = None,
        bn_running_mean = None, bn_running_var = None\<rparr>)"
proof -
  let ?bn = "\<lparr>bn_mode = Some ''train'', bn_eps = None, bn_momentum = None,
        bn_running_mean = None, bn_running_var = None\<rparr>"
  have h1: "shape \<lparr>shape = [2, 1], data = [1, 3::real]\<rparr> = [2, 1]" by simp
  have h2: "has_shape \<lparr>shape = [1], data = [1::real]\<rparr> [1]" by (simp add: has_shape_def)
  have h3: "has_shape \<lparr>shape = [1], data = [0::real]\<rparr> [1]" by (simp add: has_shape_def)
  have h4: "bn_mode ?bn = Some ''train''" by simp
  have h5: "running_ok 1 (bn_running_mean ?bn)" by (simp add: running_ok_def)
  have h6: "running_ok 1 (bn_running_var ?bn)" by (simp add: running_ok_def)
  from batchnorm_forward_returns_iff_mode [OF h1 h2 h3 h4 h5 h6]
  have "returns (batchnorm_forward \<lparr>shape = [2, 1], data = [1, 3]\<rparr> \<lparr>shape = [1], data = [1]\<rparr>
       \<lparr>shape = [1], data = [0]\<rparr> ?bn)" by simp
  with h1 h2 h3 show ?thesis by (intro conjI)
qed

subsection \<open>C8: the constants of the network\<close>

text \<open>
  C8: \<open>ThreeLayerConvNet.__init__\<close> ignores \<open>hidden_dim\<close> and \<open>num_classes\<close>. Whatever
  values are passed, the result is the one for \<open>hidden_dim = 100\<close> and \<open>num_classes = 10\<close>:
  the created \<open>W2\<close> is \<open>weight_scale\<close> times the second block of normal variates, an array
  of shape \<open>(num_filters * (H div 2)\<^sup>2, 100)\<close>, \<open>b2\<close> is the zero array of shape \<open>(100,)\<close>,
  \<open>W3\<close> is \<open>weight_scale\<close> times the third block of variates, of shape \<open>(100, 10)\<close>, and
  \<open>b3\<close> is the zero array of shape \<open>(10,)\<close>, each converted to \<open>dtype\<close>; the generator is
  left in the state after the three blocks. The height \<open>H\<close> is below \<open>2\<^sup>5\<^sup>3\<close>, where the
  float division of \<open>int(H/2)\<close> is exact.
\<close>

theorem init_ignores_hidden_dim_and_num_classes:
  assumes "H < 2 ^ 53"
  shows "ThreeLayerConvNet_init R (C, H, W) F HH hidden_dim num_classes ws rg dt g
           = ThreeLayerConvNet_init R (C, H, W) F HH 100 10 ws rg dt g
         \<and> (let net = fst (ThreeLayerConvNet_init R (C, H, W) F HH hidden_dim num_classes ws rg dt g);
                g1 = snd (np_random_randn R [F, C, HH, HH] g);
                r2 = np_random_randn R [F * (H div 2)\<^sup>2, 100] g1;
                r3 = np_random_randn R [100, 10] (snd r2)
            in params net ''W2'' = Some (astype dt (scale ws (fst r2)))
               \<and> has_shape (astype dt (scale ws (fst r2))) [F * (H div 2)\<^sup>2, 100]
               \<and> params net ''b2'' = Some (astype dt (np_zeros [100]))
               \<and> has_shape (astype dt (np_zeros [100])) [100]
               \<and> params net ''W3'' = Some (astype dt (scale ws (fst r3)))
               \<and> has_shape (astype dt (scale ws (fst r3))) [100, 10]
               \<and> params net ''b3'' = Some (astype dt (np_zeros [10]))
               \<and> has_shape (astype dt (np_zeros [10])) [10]
               \<and> snd (ThreeLayerConvNet_init R (C, H, W) F HH hidden_dim num_classes ws rg dt g) = snd r3)"
proof -
  have n: "nat (int F * (int (H div 2))\<^sup>2) = F * (H div 2)\<^sup>2"
    by (metis nat_int of_nat_mult of_nat_power)
  obtain r1 g1 where r1: "np_random_randn R [F, C, HH, HH] g = (r1, g1)"
    by (cases "np_random_randn R [F, C, HH, HH] g")
  obtain r2 g2 where r2: "np_random_randn R [F * (H div 2)\<^sup>2, 100] g1 = (r2, g2)"
    by (cases "np_random_randn R [F * (H div 2)\<^sup>2, 100] g1")
  obtain r3 g3 where r3: "np_random_randn R [100, 10] g2 = (r3, g3)"
    by (cases "np_random_randn R [100, 10] g2")
  have s2: "has_shape r2 [F * (H div 2)\<^sup>2, 100]"
    using has_shape_np_random_randn [of R "[F * (H div 2)\<^sup>2, 100]" g1] r2 by simp
  have s3: "has_shape r3 [100, 10]"
    using has_shape_np_random_randn [of R "[100, 10]" g2] r3 by simp
  show ?thesis
    by (simp add: ThreeLayerConvNet_init_def py_int_half n r1 r2 r3 s2 s3 has_shape_np_zeros)
qed

theorem init_ignores_hidden_dim_and_num_classes_witness:
  "(32::nat) < 2 ^ 53
   \<and> params (fst (ThreeLayerConvNet_init stream_random (3, 32, 32) 32 7 500 1000 (1/1000) 0 (\<lambda>v. v) (\<lambda>n. 0))) ''b3''
     = Some (astype (\<lambda>v. v) (np_zeros [10]))
   \<and> has_shape (astype (\<lambda>v. v) (np_zeros [10])) [10]"
proof -
  have h: "(32::nat) < 2 ^ 53" by simp
  note t = init_ignores_hidden_dim_and_num_classes
            [OF h, of stream_random 3 32 32 7 500 1000 "1/1000" 0 "\<lambda>v. v" "\<lambda>n. 0", unfolded Let_def]
  from t have p: "params (fst (ThreeLayerConvNet_init stream_random (3, 32, 32) 32 7 500 1000 (1/1000) 0 (\<lambda>v. v) (\<lambda>n. 0))) ''b3''
     = Some (astype (\<lambda>v. v) (np_zeros [10]))"
    by (elim conjE)
  from t have q: "has_shape (astype (\<lambda>v. v) (np_zeros [10])) [10]"
    by (elim conjE)
  from h p q show ?thesis by (intro conjI)
qed

subsection \<open>C9: the alternative backward pass of batch normalization\<close>

text \<open>
  C9: \<open>batchnorm_backward_alt\<close> is an unimplemented stub. For every upstream gradient
  \<open>dout\<close> and every cache it returns the triple \<open>(None, None, None)\<close>, never a gradient.
\<close>

theorem batchnorm_backward_alt_stub:
  "batchnorm_backward_alt dout cache = (None, None, None)"
  by (simp add: batchnorm_backward_alt_def)

subsection \<open>C10: ties in max pooling\<close>

text \<open>
  C10: \<open>max_pool_backward_naive\<close> routes the gradient to all tied maxima. For \<open>x\<close> of shape
  \<open>(N, C, H, W)\<close>, a window of height \<open>h\<close> and width \<open>w\<close> that fits and a positive stride,
  the entry of \<open>dx\<close> at \<open>idx\<close> is the sum over all windows \<open>(i, j)\<close> of what each routes to
  it; every position of a window that holds the window maximum receives the full
  \<open>dout[n, c, i, j]\<close>; there are \<open>k \<ge> 1\<close> such positions, and the window routes
  \<open>k * dout[n, c, i, j]\<close> in total.
\<close>

theorem max_pool_backward_routes_to_all_ties:
  assumes "has_shape x [N, C, H, W]" and "0 < S" and "0 < h" and "h \<le> H" and "0 < w" and "w \<le> W"
    and "has_shape dout [N, C, (H - h) div S + 1, (W - w) div S + 1]"
    and "n < N" and "c < C" and "i < (H - h) div S + 1" and "j < (W - w) div S + 1"
  shows "max_pool_backward_naive dout (x, \<lparr>pool_height = h, pool_width = w, stride = S\<rparr>)
           = Inr (mk [N, C, H, W]
               (\<lambda>idx. \<Sum>i<(H - h) div S + 1. \<Sum>j<(W - w) div S + 1. routed x dout S h w i j idx))
         \<and> (\<forall>(p, q) \<in> window_ties x S h w n c i j.
               routed x dout S h w i j [n, c, p, q] = elt dout [n, c, i, j])
         \<and> 1 \<le> card (window_ties x S h w n c i j)
         \<and> (\<Sum>p<H. \<Sum>q<W. routed x dout S h w i j [n, c, p, q])
             = real (card (window_ties x S h w n c i j)) * elt dout [n, c, i, j]"
proof -
  have sx: "shape x = [N, C, H, W]" using assms(1) by (simp add: has_shape_def)
  have sd: "shape dout = [N, C, (H - h) div S + 1, (W - w) div S + 1]"
    using assms(7) by (simp add: has_shape_def)
  have a: "max_pool_backward_naive dout (x, \<lparr>pool_height = h, pool_width = w, stride = S\<rparr>)
           = Inr (mk [N, C, H, W]
               (\<lambda>idx. \<Sum>i<(H - h) div S + 1. \<Sum>j<(W - w) div S + 1. routed x dout S h w i j idx))"
    by (rule max_pool_backward_eq [OF sx assms(2-6) sd])
  have b: "\<forall>(p, q) \<in> window_ties x S h w n c i j.
               routed x dout S h w i j [n, c, p, q] = elt dout [n, c, i, j]"
    by (auto simp: routed_def)
  have c: "1 \<le> card (window_ties x S h w n c i j)"
    by (rule ties_nonempty [OF assms(3) assms(5)])
  have d: "(\<Sum>p<H. \<Sum>q<W. routed x dout S h w i j [n, c, p, q])
             = real (card (window_ties x S h w n c i j)) * elt dout [n, c, i, j]"
    by (rule ties_sum [OF window_in_bounds [OF assms(4) assms(10)]
          window_in_bounds [OF assms(6) assms(11)]])
  from a b c d show ?thesis by (intro conjI)
qed

theorem max_pool_backward_routes_to_all_ties_witness:
  "has_shape \<lparr>shape = [1, 1, 2, 3], data = [1, 5, 5, 5, 2, 7::real]\<rparr> [1, 1, 2, 3]
   \<and> has_shape \<lparr>shape = [1, 1, 1, 2], data = [10, 100::real]\<rparr> [1, 1, (2 - 2) div 1 + 1, (3 - 2) div 1 + 1]
   \<and> (\<Sum>p<2. \<Sum>q<3. routed \<lparr>shape = [1, 1, 2, 3], data = [1, 5, 5, 5, 2, 7]\<rparr>
          \<lparr>shape = [1, 1, 1, 2], data = [10, 100]\<rparr> 1 2 2 0 0 [0, 0, p, q]) = 20"
proof -
  let ?X = "\<lparr>shape = [1, 1, 2, 3], data = [1, 5, 5, 5, 2, 7::real]\<rparr>"
  let ?D = "\<lparr>shape = [1, 1, 1, 2], data = [10, 100::real]\<rparr>"
  have h1: "has_shape ?X [1, 1, 2, 3]" by (simp add: has_shape_def)
  have h2: "(0::nat) < 1" and h3: "(0::nat) < 2" and h4: "(2::nat) \<le> 2" and h6: "(2::nat) \<le> 3"
    by simp_all
  have h7: "has_shape ?D [1, 1, (2 - 2) div 1 + 1, (3 - 2) div 1 + 1]" by (simp add: has_shape_def)
  have h10: "(0::nat) < (2 - 2) div 1 + 1" and h11: "(0::nat) < (3 - 2) div 1 + 1" by simp_all
  note t = max_pool_backward_routes_to_all_ties [OF h1 h2 h3 h4 h3 h6 h7 h2 h2 h10 h11]
  from t have "(\<Sum>p<2. \<Sum>q<3. routed ?X ?D 1 2 2 0 0 [0, 0, p, q])
        = real (card (window_ties ?X 1 2 2 0 0 0 0)) * elt ?D [0, 0, 0, 0]"
    by (elim conjE)
  then have "(\<Sum>p<2. \<Sum>q<3. routed ?X ?D 1 2 2 0 0 [0, 0, p, q]) = 20"
    unfolding window_ties_example by (simp add: elt_def)
  with h1 h7 show ?thesis by (intro conjI)
qed

end
